(* ===== verification/Encoding.thy ===== *)
theory Encoding
  imports Prelude
begin

text \<open>
  The textual encodings the tokens are built from: \<open>encoding/base64\<close> without padding (the
  URL-safe and the standard alphabet), \<open>encoding/hex\<close>, and decimal integers
  (\<open>strconv\<close>, \<open>fmt\<close>). A \<open>codec\<close> is what the token code relies on: decoding an
  encoded value gives the value back, and an encoded value never contains the separator the
  token format uses. The two base64 alphabets are interpretations of it.
\<close>

section \<open>The codec interface\<close>

locale codec =
  fixes enc :: "'a \<Rightarrow> string" and dec :: "string \<Rightarrow> 'a option"
  assumes dec_enc: "dec (enc x) = Some x"
begin

lemma enc_inject: "enc x = enc y \<longleftrightarrow> x = y"
  by (metis dec_enc option.inject)

end

locale sep_codec = codec enc dec
  for enc :: "'a \<Rightarrow> string" and dec :: "string \<Rightarrow> 'a option" +
  fixes sep :: char
  assumes enc_no_sep: "sep \<notin> set (enc x)"
begin

lemma Split_enc_pair: "Split (enc x @ sep # enc y) sep = [enc x, enc y]"
  by (simp add: Split_append Split_no_sep enc_no_sep)

lemma Split_enc_triple: "Split (enc x @ sep # enc y @ sep # enc z) sep = [enc x, enc y, enc z]"
  by (simp add: Split_append Split_no_sep enc_no_sep)

lemma enc_pair_inject: "enc x @ sep # enc y = enc x' @ sep # enc y' \<longleftrightarrow> x = x' \<and> y = y'"
proof
  assume "enc x @ sep # enc y = enc x' @ sep # enc y'"
  then have "Split (enc x @ sep # enc y) sep = Split (enc x' @ sep # enc y') sep" by simp
  then show "x = x' \<and> y = y'" by (simp add: Split_enc_pair enc_inject)
qed simp

end

section \<open>Base64\<close>

text \<open>An alphabet is given by its last two characters (indices 62 and 63).\<close>

type_synonym alphabet = "char \<times> char"

definition url_alphabet :: alphabet where
  "url_alphabet = (CHR ''-'', CHR ''_'')"

definition std_alphabet :: alphabet where
  "std_alphabet = (CHR ''+'', CHR ''/'')"

fun b64_char :: "alphabet \<Rightarrow> nat \<Rightarrow> char" where
  "b64_char (c62, c63) n =
     (if n < 26 then char_of (65 + n)
      else if n < 52 then char_of (71 + n)
      else if n < 62 then char_of (n - 4)
      else if n = 62 then c62 else c63)"

fun b64_index :: "alphabet \<Rightarrow> char \<Rightarrow> nat option" where
  "b64_index (c62, c63) c =
     (if is_ascii_upper c then Some (byte c - 65)
      else if is_ascii_lower c then Some (byte c - 71)
      else if is_ascii_digit c then Some (byte c + 4)
      else if c = c62 then Some 62
      else if c = c63 then Some 63 else None)"

fun b64_encode :: "alphabet \<Rightarrow> string \<Rightarrow> string" where
  "b64_encode A [] = []"
| "b64_encode A [a] =
     [b64_char A (byte a div 4), b64_char A ((byte a mod 4) * 16)]"
| "b64_encode A [a, b] =
     [b64_char A (byte a div 4), b64_char A ((byte a mod 4) * 16 + byte b div 16),
      b64_char A ((byte b mod 16) * 4)]"
| "b64_encode A (a # b # c # r) =
     b64_char A (byte a div 4) # b64_char A ((byte a mod 4) * 16 + byte b div 16) #
     b64_char A ((byte b mod 16) * 4 + byte c div 64) # b64_char A (byte c mod 64) #
     b64_encode A r"

text \<open>
  \<open>Encoding.DecodeString\<close> in its non-strict, unpadded form: carriage returns and newlines
  are skipped, trailing bits are ignored, and one left-over character is an error.
\<close>

fun b64_quads :: "nat list \<Rightarrow> string option" where
  "b64_quads [] = Some []"
| "b64_quads [a] = None"
| "b64_quads [a, b] = Some [char_of (a * 4 + b div 16)]"
| "b64_quads [a, b, c] =
     Some [char_of (a * 4 + b div 16), char_of ((b mod 16) * 16 + c div 4)]"
| "b64_quads (a # b # c # d # r) =
     map_option (\<lambda>t. char_of (a * 4 + b div 16) # char_of ((b mod 16) * 16 + c div 4)
                  # char_of ((c mod 4) * 64 + d) # t) (b64_quads r)"

definition is_newline :: "char \<Rightarrow> bool" where
  "is_newline c \<longleftrightarrow> byte c = 10 \<or> byte c = 13"

definition b64_decode :: "alphabet \<Rightarrow> string \<Rightarrow> string option" where
  "b64_decode A s =
     (let is = map (b64_index A) (filter (\<lambda>c. \<not> is_newline c) s)
      in if None \<in> set is then None else b64_quads (map the is))"

text \<open>What the two alphabets have in common: two distinct characters, neither alphanumeric.\<close>

definition ok_alphabet :: "alphabet \<Rightarrow> bool" where
  "ok_alphabet A \<longleftrightarrow> fst A \<noteq> snd A \<and>
     (\<forall>c \<in> {fst A, snd A}. \<not> is_ascii_upper c \<and> \<not> is_ascii_lower c \<and> \<not> is_ascii_digit c
        \<and> \<not> is_newline c \<and> c \<noteq> CHR ''.'' \<and> c \<noteq> CHR ''$'')"

lemma ok_alphabets [simp]: "ok_alphabet url_alphabet" "ok_alphabet std_alphabet"
  by (simp_all add: ok_alphabet_def url_alphabet_def std_alphabet_def is_ascii_upper_def
      is_ascii_lower_def is_ascii_digit_def is_newline_def byte_def)

lemma byte_dot [simp]: "byte (CHR ''.'') = 46"
  by (simp add: byte_def)

lemma byte_dollar [simp]: "byte (CHR ''$'') = 36"
  by (simp add: byte_def)

lemma b64_char_cases:
  assumes "n < 64"
  obtains "n < 26" "byte (b64_char A n) = 65 + n"
  | "26 \<le> n" "n < 52" "byte (b64_char A n) = 71 + n"
  | "52 \<le> n" "n < 62" "byte (b64_char A n) = n - 4"
  | "n = 62" "b64_char A n = fst A"
  | "n = 63" "b64_char A n = snd A"
proof (cases A)
  case (Pair c62 c63)
  consider "n < 26" | "26 \<le> n" "n < 52" | "52 \<le> n" "n < 62" | "n = 62" | "n = 63"
    using assms by linarith
  then show ?thesis
    using that Pair by cases (auto simp: byte_char_of)
qed

lemma b64_index_byte:
  "is_ascii_upper c \<Longrightarrow> b64_index A c = Some (byte c - 65)"
  "is_ascii_lower c \<Longrightarrow> b64_index A c = Some (byte c - 71)"
  "is_ascii_digit c \<Longrightarrow> b64_index A c = Some (byte c + 4)"
  by (cases A; simp add: is_ascii_upper_def is_ascii_lower_def is_ascii_digit_def)+

lemma b64_index_last:
  assumes "ok_alphabet A"
  shows "b64_index A (fst A) = Some 62" "b64_index A (snd A) = Some 63"
proof -
  obtain c d where A: "A = (c, d)" by (cases A)
  have "c \<noteq> d" "\<not> is_ascii_upper c" "\<not> is_ascii_lower c" "\<not> is_ascii_digit c"
    "\<not> is_ascii_upper d" "\<not> is_ascii_lower d" "\<not> is_ascii_digit d"
    using assms A by (simp_all add: ok_alphabet_def)
  then show "b64_index A (fst A) = Some 62" "b64_index A (snd A) = Some 63"
    using A by simp_all
qed

lemma b64_index_char [simp]:
  assumes A: "ok_alphabet A" and n: "n < 64"
  shows "b64_index A (b64_char A n) = Some n"
proof (cases A rule: b64_char_cases [OF n])
  case 1
  then show ?thesis by (simp add: b64_index_byte is_ascii_upper_def)
next
  case 2
  then show ?thesis by (simp add: b64_index_byte is_ascii_lower_def)
next
  case 3
  then have "is_ascii_digit (b64_char A n)" by (simp add: is_ascii_digit_def) linarith
  with 3 show ?thesis by (simp add: b64_index_byte)
qed (simp_all add: b64_index_last [OF A])

lemma b64_char_special:
  assumes A: "ok_alphabet A" and n: "n < 64"
  shows "\<not> is_newline (b64_char A n)" "b64_char A n \<noteq> CHR ''.''" "b64_char A n \<noteq> CHR ''$''"
proof -
  have "\<not> is_newline (b64_char A n) \<and> b64_char A n \<noteq> CHR ''.'' \<and> b64_char A n \<noteq> CHR ''$''"
  proof (cases A rule: b64_char_cases [OF n])
    case 1
    then show ?thesis by (auto simp: is_newline_def dest: arg_cong [where f = byte])
  next
    case 2
    then show ?thesis by (auto simp: is_newline_def dest: arg_cong [where f = byte])
  next
    case 3
    then show ?thesis by (auto simp: is_newline_def dest: arg_cong [where f = byte])
  qed (use A in \<open>simp_all add: ok_alphabet_def\<close>)
  then show "\<not> is_newline (b64_char A n)" "b64_char A n \<noteq> CHR ''.''" "b64_char A n \<noteq> CHR ''$''"
    by auto
qed

text \<open>The characters of an encoding, as alphabet indices.\<close>

fun b64_sextets :: "string \<Rightarrow> nat list" where
  "b64_sextets [] = []"
| "b64_sextets [a] = [byte a div 4, (byte a mod 4) * 16]"
| "b64_sextets [a, b] =
     [byte a div 4, (byte a mod 4) * 16 + byte b div 16, (byte b mod 16) * 4]"
| "b64_sextets (a # b # c # r) =
     byte a div 4 # ((byte a mod 4) * 16 + byte b div 16) #
     ((byte b mod 16) * 4 + byte c div 64) # (byte c mod 64) # b64_sextets r"

lemma b64_encode_sextets: "b64_encode A s = map (b64_char A) (b64_sextets s)"
  by (induction s rule: b64_sextets.induct) auto

lemma sextet_bounds:
  "byte a div 4 < 64" "(byte a mod 4) * 16 < 64"
  "(byte a mod 4) * 16 + byte b div 16 < 64" "(byte b mod 16) * 4 < 64"
  "(byte b mod 16) * 4 + byte c div 64 < 64"
  using byte_lt [of a] byte_lt [of b] byte_lt [of c] by linarith+

lemma b64_sextets_lt: "n \<in> set (b64_sextets s) \<Longrightarrow> n < 64"
  by (induction s rule: b64_sextets.induct) (auto simp: sextet_bounds)

lemma octets:
  "byte a div 4 * 4 + (byte a mod 4) * 16 div 16 = byte a"
  "byte a div 4 * 4 + ((byte a mod 4) * 16 + byte b div 16) div 16 = byte a"
  "((byte a mod 4) * 16 + byte b div 16) mod 16 * 16 + (byte b mod 16) * 4 div 4 = byte b"
  "((byte a mod 4) * 16 + byte b div 16) mod 16 * 16 +
     ((byte b mod 16) * 4 + byte c div 64) div 4 = byte b"
  "((byte b mod 16) * 4 + byte c div 64) mod 4 * 64 + byte c mod 64 = byte c"
  using byte_lt [of a] byte_lt [of b] byte_lt [of c]
  by (simp_all add: less_mult_imp_div_less)

lemma b64_quads_sextets: "b64_quads (b64_sextets s) = Some s"
  by (induction s rule: b64_sextets.induct) (simp_all only: b64_sextets.simps b64_quads.simps
      octets char_of_byte option.map)

theorem b64_decode_encode:
  assumes "ok_alphabet A"
  shows "b64_decode A (b64_encode A s) = Some s"
proof -
  have keep: "filter (\<lambda>c. \<not> is_newline c) (b64_encode A s) = b64_encode A s"
    using assms by (auto simp: b64_encode_sextets filter_id_conv b64_char_special b64_sextets_lt)
  have idx: "map (b64_index A) (b64_encode A s) = map Some (b64_sextets s)"
    using assms by (simp add: b64_encode_sextets b64_sextets_lt)
  show ?thesis
    by (auto simp: b64_decode_def keep idx b64_quads_sextets comp_def)
qed

lemma b64_encode_special:
  assumes "ok_alphabet A"
  shows "CHR ''.'' \<notin> set (b64_encode A s)" "CHR ''$'' \<notin> set (b64_encode A s)"
  using b64_char_special [OF assms] b64_sextets_lt
  by (auto simp: b64_encode_sextets simp del: b64_char.simps) (metis)+

text \<open>\<open>base64.RawURLEncoding\<close> and \<open>base64.RawStdEncoding\<close>.\<close>

definition RawURL_encode :: "string \<Rightarrow> string" where
  "RawURL_encode = b64_encode url_alphabet"

definition RawURL_decode :: "string \<Rightarrow> string option" where
  "RawURL_decode = b64_decode url_alphabet"

definition RawStd_encode :: "string \<Rightarrow> string" where
  "RawStd_encode = b64_encode std_alphabet"

definition RawStd_decode :: "string \<Rightarrow> string option" where
  "RawStd_decode = b64_decode std_alphabet"

interpretation url: sep_codec RawURL_encode RawURL_decode "CHR ''.''"
  by unfold_locales
     (simp_all add: RawURL_encode_def RawURL_decode_def b64_decode_encode b64_encode_special)

interpretation std: sep_codec RawStd_encode RawStd_decode "CHR ''$''"
  by unfold_locales
     (simp_all add: RawStd_encode_def RawStd_decode_def b64_decode_encode b64_encode_special)

section \<open>Hexadecimal\<close>

definition hex_char :: "nat \<Rightarrow> char" where
  "hex_char n = (if n < 10 then char_of (48 + n) else char_of (87 + n))"

fun hex_encode :: "string \<Rightarrow> string" where
  "hex_encode [] = []"
| "hex_encode (c # s) = hex_char (byte c div 16) # hex_char (byte c mod 16) # hex_encode s"

lemma length_hex_encode [simp]: "length (hex_encode s) = 2 * length s"
  by (induction s) auto

lemma hex_char_inject: "m < 16 \<Longrightarrow> n < 16 \<Longrightarrow> hex_char m = hex_char n \<longleftrightarrow> m = n"
  by (auto simp: hex_char_def dest!: arg_cong [where f = byte] simp: byte_char_of split: if_splits)

lemma hex_encode_inject: "hex_encode s = hex_encode t \<longleftrightarrow> s = t"
proof (induction s arbitrary: t)
  case Nil
  then show ?case by (cases t) auto
next
  case (Cons c s)
  show ?case
  proof (cases t)
    case (Cons d t')
    have "byte c div 16 = byte d div 16 \<and> byte c mod 16 = byte d mod 16 \<longleftrightarrow> byte c = byte d"
      by (metis div_mult_mod_eq)
    then show ?thesis
      using Cons Cons.IH
      by (auto simp: hex_char_inject sextet_bounds less_mult_imp_div_less)
  qed simp
qed

section \<open>Decimal integers\<close>

definition digit_char :: "nat \<Rightarrow> char" where
  "digit_char n = char_of (48 + n)"

fun show_nat :: "nat \<Rightarrow> string" where
  "show_nat n = (if n < 10 then [digit_char n] else show_nat (n div 10) @ [digit_char (n mod 10)])"

declare show_nat.simps [simp del]

definition show_int :: "int \<Rightarrow> string" where
  "show_int i = (if i < 0 then CHR ''-'' # show_nat (nat (- i)) else show_nat (nat i))"

definition digits_val :: "string \<Rightarrow> nat" where
  "digits_val s = foldl (\<lambda>a c. a * 10 + (byte c - 48)) 0 s"

lemma byte_digit_char: "n < 10 \<Longrightarrow> byte (digit_char n) = 48 + n"
  by (simp add: digit_char_def byte_char_of)

lemma show_nat_digits: "c \<in> set (show_nat n) \<Longrightarrow> is_ascii_digit c"
proof (induction n rule: show_nat.induct)
  case (1 n)
  then show ?case
    by (subst (asm) show_nat.simps) (auto simp: is_ascii_digit_def byte_digit_char split: if_splits)
qed

lemma show_nat_not_Nil [simp]: "show_nat n \<noteq> []"
  by (subst show_nat.simps) simp

lemma digits_val_show_nat [simp]: "digits_val (show_nat n) = n"
proof (induction n rule: show_nat.induct)
  case (1 n)
  then show ?case
    by (subst show_nat.simps) (auto simp: digits_val_def byte_digit_char)
qed

lemma show_nat_inject [simp]: "show_nat m = show_nat n \<longleftrightarrow> m = n"
  by (metis digits_val_show_nat)

end
