(* ===== verification/Json.thy ===== *)
theory Json
  imports Encoding
begin

text \<open>
  \<open>encoding/json\<close> as the token code uses it: a printer with Go's escaping rules (\<open>json.Marshal\<close>,
  HTML characters included), a recursive-descent parser (\<open>json.Unmarshal\<close> into \<open>any\<close>), and
  the struct-field rule of \<open>json.Unmarshal\<close> (case-insensitive keys, the last duplicate wins,
  \<open>null\<close> leaves the field alone, a value of another type is an error). Numbers are integers;
  a number with a fraction or an exponent does not parse. Strings are taken to be valid UTF-8
  and pass through byte by byte; \<open>\u\<close> escapes cover the basic plane.

  The main result is the round trip: parsing a printed value gives the value back.
\<close>

datatype json =
    JNull
  | JBool bool
  | JInt int
  | JStr string
  | JArr "json list"
  | JObj "(string \<times> json) list"

section \<open>Printing\<close>

definition esc_char :: "char \<Rightarrow> string" where
  "esc_char c =
     (let n = byte c in
      if n = 34 then [CHR 0x5C, CHR 0x22]
      else if n = 92 then [CHR 0x5C, CHR 0x5C]
      else if n = 8 then [CHR 0x5C, CHR ''b'']
      else if n = 12 then [CHR 0x5C, CHR ''f'']
      else if n = 10 then [CHR 0x5C, CHR ''n'']
      else if n = 13 then [CHR 0x5C, CHR ''r'']
      else if n = 9 then [CHR 0x5C, CHR ''t'']
      else if n < 32 \<or> n = 38 \<or> n = 60 \<or> n = 62
        then [CHR 0x5C, CHR ''u'', CHR ''0'', CHR ''0'', hex_char (n div 16), hex_char (n mod 16)]
      else [c])"

definition quote_string :: "string \<Rightarrow> string" where
  "quote_string s = CHR 0x22 # concat (map esc_char s) @ [CHR 0x22]"

fun json_print :: "json \<Rightarrow> string" where
  "json_print JNull = ''null''"
| "json_print (JBool b) = (if b then ''true'' else ''false'')"
| "json_print (JInt i) = show_int i"
| "json_print (JStr s) = quote_string s"
| "json_print (JArr xs) = CHR ''['' # Join (map json_print xs) '','' @ '']''"
| "json_print (JObj ms) =
     CHR ''{'' # Join (map (\<lambda>(k, v). quote_string k @ CHR '':'' # json_print v) ms) '','' @ ''}''"

section \<open>Parsing\<close>

definition is_json_ws :: "char \<Rightarrow> bool" where
  "is_json_ws c \<longleftrightarrow> byte c \<in> {9, 10, 13, 32}"

definition skip_ws :: "string \<Rightarrow> string" where
  "skip_ws s = dropWhile is_json_ws s"

definition hex_val :: "char \<Rightarrow> nat option" where
  "hex_val c =
     (if is_ascii_digit c then Some (byte c - 48)
      else if 97 \<le> byte c \<and> byte c \<le> 102 then Some (byte c - 87)
      else if 65 \<le> byte c \<and> byte c \<le> 70 then Some (byte c - 55)
      else None)"

text \<open>UTF-8 of a code point of the basic plane; a surrogate becomes U+FFFD.\<close>

definition utf8_bmp :: "nat \<Rightarrow> string" where
  "utf8_bmp n =
     (if n < 128 then [char_of n]
      else if n < 2048 then [char_of (192 + n div 64), char_of (128 + n mod 64)]
      else let m = (if 55296 \<le> n \<and> n < 57344 then 65533 else n)
           in [char_of (224 + m div 4096), char_of (128 + m div 64 mod 64), char_of (128 + m mod 64)])"

definition unescape :: "char \<Rightarrow> char option" where
  "unescape c =
     (if byte c \<in> {34, 92, 47} then Some c
      else if c = CHR ''b'' then Some (CHR 0x08)
      else if c = CHR ''f'' then Some (CHR 0x0C)
      else if c = CHR ''n'' then Some (CHR 0x0A)
      else if c = CHR ''r'' then Some (CHR 0x0D)
      else if c = CHR ''t'' then Some (CHR 0x09)
      else None)"

text \<open>The rest of a string literal after its opening quote.\<close>

fun parse_chars :: "string \<Rightarrow> (string \<times> string) option" where
  "parse_chars [] = None"
| "parse_chars (c # s) =
     (if byte c = 34 then Some ([], s)
      else if byte c < 32 then None
      else if byte c \<noteq> 92 then map_option (map_prod (Cons c) id) (parse_chars s)
      else
        (case s of
           [] \<Rightarrow> None
         | e # s1 \<Rightarrow>
             if e \<noteq> CHR ''u'' then
               (case unescape e of
                  None \<Rightarrow> None
                | Some d \<Rightarrow> map_option (map_prod (Cons d) id) (parse_chars s1))
             else
               (case s1 of
                  h1 # h2 # h3 # h4 # s2 \<Rightarrow>
                    (case (hex_val h1, hex_val h2, hex_val h3, hex_val h4) of
                       (Some a, Some b, Some d, Some f) \<Rightarrow>
                         map_option (map_prod (append (utf8_bmp (((a * 16 + b) * 16 + d) * 16 + f))) id)
                           (parse_chars s2)
                     | _ \<Rightarrow> None)
                | _ \<Rightarrow> None)))"

definition take_digits :: "string \<Rightarrow> string \<times> string" where
  "take_digits s = (takeWhile is_ascii_digit s, dropWhile is_ascii_digit s)"

text \<open>An integer literal: no leading zero, and not followed by a fraction or an exponent.\<close>

definition parse_nat_lit :: "string \<Rightarrow> (nat \<times> string) option" where
  "parse_nat_lit s =
     (case take_digits s of
        ([], _) \<Rightarrow> None
      | (d # ds, r) \<Rightarrow>
          if d = CHR ''0'' \<and> ds \<noteq> [] then None
          else if r \<noteq> [] \<and> hd r \<in> {CHR ''.'', CHR ''e'', CHR ''E''} then None
          else Some (digits_val (d # ds), r))"

definition parse_int_lit :: "string \<Rightarrow> (int \<times> string) option" where
  "parse_int_lit s =
     (case s of
        [] \<Rightarrow> None
      | c # r \<Rightarrow>
          if c = CHR ''-'' then map_option (map_prod (\<lambda>n. - int n) id) (parse_nat_lit r)
          else map_option (map_prod int id) (parse_nat_lit s))"

definition parse_lit :: "string \<Rightarrow> json \<Rightarrow> string \<Rightarrow> (json \<times> string) option" where
  "parse_lit w v s = (if HasPrefix s w then Some (v, drop (length w) s) else None)"

fun parse_value :: "nat \<Rightarrow> string \<Rightarrow> (json \<times> string) option"
and parse_elems :: "nat \<Rightarrow> string \<Rightarrow> (json list \<times> string) option"
and parse_members :: "nat \<Rightarrow> string \<Rightarrow> ((string \<times> json) list \<times> string) option" where
  "parse_value 0 s = None"
| "parse_value (Suc f) s =
     (case skip_ws s of
        [] \<Rightarrow> None
      | c # r \<Rightarrow>
          if c = CHR ''n'' then parse_lit ''null'' JNull (c # r)
          else if c = CHR ''t'' then parse_lit ''true'' (JBool True) (c # r)
          else if c = CHR ''f'' then parse_lit ''false'' (JBool False) (c # r)
          else if byte c = 34 then map_option (map_prod JStr id) (parse_chars r)
          else if c = CHR ''['' then
            (case skip_ws r of
               [] \<Rightarrow> None
             | d # r' \<Rightarrow> if d = CHR '']'' then Some (JArr [], r')
                         else map_option (map_prod JArr id) (parse_elems f (d # r')))
          else if c = CHR ''{'' then
            (case skip_ws r of
               [] \<Rightarrow> None
             | d # r' \<Rightarrow> if d = CHR ''}'' then Some (JObj [], r')
                         else map_option (map_prod JObj id) (parse_members f (d # r')))
          else map_option (map_prod JInt id) (parse_int_lit (c # r)))"
| "parse_elems 0 s = None"
| "parse_elems (Suc f) s =
     (case parse_value f s of
        None \<Rightarrow> None
      | Some (v, r) \<Rightarrow>
          (case skip_ws r of
             [] \<Rightarrow> None
           | c # r' \<Rightarrow> if c = CHR '']'' then Some ([v], r')
                       else if c = CHR '','' then map_option (map_prod (Cons v) id) (parse_elems f r')
                       else None))"
| "parse_members 0 s = None"
| "parse_members (Suc f) s =
     (case skip_ws s of
        [] \<Rightarrow> None
      | q # s1 \<Rightarrow>
          if byte q \<noteq> 34 then None else
          (case parse_chars s1 of
             None \<Rightarrow> None
           | Some (k, s2) \<Rightarrow>
               (case skip_ws s2 of
                  [] \<Rightarrow> None
                | col # s3 \<Rightarrow>
                    if col \<noteq> CHR '':'' then None else
                    (case parse_value f s3 of
                       None \<Rightarrow> None
                     | Some (v, r) \<Rightarrow>
                         (case skip_ws r of
                            [] \<Rightarrow> None
                          | c # r' \<Rightarrow>
                              if c = CHR ''}'' then Some ([(k, v)], r')
                              else if c = CHR '','' then
                                map_option (map_prod (Cons (k, v)) id) (parse_members f r')
                              else None)))))"

definition json_parse :: "string \<Rightarrow> json option" where
  "json_parse s =
     (case parse_value (Suc (length s)) s of
        None \<Rightarrow> None
      | Some (v, r) \<Rightarrow> if skip_ws r = [] then Some v else None)"

section \<open>The round trip\<close>

lemma byte_literals [simp]:
  "byte (CHR ''n'') = 110" "byte (CHR ''t'') = 116" "byte (CHR ''f'') = 102"
  "byte (CHR ''['') = 91" "byte (CHR '']'') = 93" "byte (CHR ''{'') = 123"
  "byte (CHR ''}'') = 125" "byte (CHR '','') = 44" "byte (CHR '':'') = 58"
  "byte (CHR ''-'') = 45" "byte (CHR ''b'') = 98" "byte (CHR ''r'') = 114"
  "byte (CHR ''u'') = 117" "byte (CHR ''0'') = 48" "byte (CHR ''e'') = 101"
  "byte (CHR ''E'') = 69"
  by (simp_all add: byte_def)

lemma byte_control_chars [simp]:
  "byte (CHR 0x22) = 34" "byte (CHR 0x5C) = 92" "byte (CHR 0x08) = 8" "byte (CHR 0x09) = 9"
  "byte (CHR 0x0A) = 10" "byte (CHR 0x0C) = 12" "byte (CHR 0x0D) = 13"
  by (simp_all add: byte_def)

lemma skip_ws_Cons [simp]: "\<not> is_json_ws c \<Longrightarrow> skip_ws (c # s) = c # s"
  by (simp add: skip_ws_def)

lemma hex_val_hex_char: "n < 16 \<Longrightarrow> hex_val (hex_char n) = Some n"
  by (auto simp: hex_val_def hex_char_def byte_char_of is_ascii_digit_def)

lemma char_eq_byte: "c = d \<longleftrightarrow> byte c = byte d"
  by simp

lemma digit_char_0: "digit_char 0 = CHR ''0''"
  by (simp add: char_eq_byte byte_digit_char del: byte_inject)

lemma parse_chars_esc:
  "parse_chars (esc_char c @ s) = map_option (map_prod (Cons c) id) (parse_chars s)"
proof -
  have hx: "hex_val (CHR ''0'') = Some 0"
    by (simp add: hex_val_def is_ascii_digit_def)
  have small: "byte c < 128 \<Longrightarrow> utf8_bmp (byte c) = [c]"
    by (simp add: utf8_bmp_def)
  have un: "unescape (CHR ''b'') = Some (CHR 0x08)" "unescape (CHR ''f'') = Some (CHR 0x0C)"
    "unescape (CHR ''n'') = Some (CHR 0x0A)" "unescape (CHR ''r'') = Some (CHR 0x0D)"
    "unescape (CHR ''t'') = Some (CHR 0x09)"
    "unescape (CHR 0x22) = Some (CHR 0x22)"
    "unescape (CHR 0x5C) = Some (CHR 0x5C)"
    by (simp_all add: unescape_def)
  have neq: "CHR 0x22 \<noteq> CHR ''u''" "CHR 0x5C \<noteq> CHR ''u''"
    by simp_all
  consider "byte c \<in> {34, 92, 8, 12, 10, 13, 9}"
    | "byte c \<notin> {34, 92, 8, 12, 10, 13, 9}" "byte c < 32 \<or> byte c \<in> {38, 60, 62}"
    | "byte c \<notin> {34, 92}" "32 \<le> byte c" "byte c \<notin> {38, 60, 62}"
    by fastforce
  then show ?thesis
  proof cases
    case 1
    then have "c \<in> {CHR 0x22, CHR 0x5C, CHR 0x08, CHR 0x0C, CHR 0x0A, CHR 0x0D, CHR 0x09}"
      by (simp add: char_eq_byte del: byte_inject)
    then show ?thesis
      by (auto simp: esc_char_def un neq)
  next
    case 2
    then have "byte c < 128" by auto
    moreover have "(@) [c] = (#) c" by (rule ext) simp
    ultimately show ?thesis
      using 2 by (auto simp: esc_char_def Let_def hx hex_val_hex_char small less_mult_imp_div_less)
  next
    case 3
    then show ?thesis
      by (auto simp: esc_char_def Let_def)
  qed
qed

lemma parse_chars_quote:
  "parse_chars (concat (map esc_char k) @ CHR 0x22 # s) = Some (k, s)"
  by (induction k) (simp_all add: parse_chars_esc)

definition num_stop :: "string \<Rightarrow> bool" where
  "num_stop r \<longleftrightarrow>
     (r = [] \<or> (\<not> is_ascii_digit (hd r) \<and> hd r \<notin> {CHR ''.'', CHR ''e'', CHR ''E''}))"

lemma take_digits_append:
  assumes "\<forall>c \<in> set ds. is_ascii_digit c" "num_stop r"
  shows "take_digits (ds @ r) = (ds, r)"
proof (cases r)
  case Nil
  then show ?thesis
    using assms by (simp add: take_digits_def takeWhile_eq_all_conv)
next
  case (Cons c r')
  then show ?thesis
    using assms by (simp add: take_digits_def num_stop_def takeWhile_append2 dropWhile_append2)
qed

lemma show_nat_no_leading_zero:
  "show_nat n = d # ds \<Longrightarrow> d = CHR ''0'' \<Longrightarrow> ds = []"
proof (induction n arbitrary: d ds rule: show_nat.induct)
  case (1 n)
  show ?case
  proof (cases "n < 10")
    case True
    with "1.prems" show ?thesis by (subst (asm) show_nat.simps) simp
  next
    case False
    then have eq: "show_nat n = show_nat (n div 10) @ [digit_char (n mod 10)]"
      by (subst show_nat.simps) simp
    obtain e es where e: "show_nat (n div 10) = e # es"
      by (cases "show_nat (n div 10)") auto
    with eq "1.prems" have "e = CHR ''0''" by simp
    with "1.IH" [OF False e] have "es = []" by simp
    with e \<open>e = CHR ''0''\<close> have "show_nat (n div 10) = show_nat 0"
      by (simp add: show_nat.simps [of 0] digit_char_0)
    then have "n div 10 = 0" by (simp only: show_nat_inject)
    with False show ?thesis by simp
  qed
qed

lemma parse_nat_lit_show:
  assumes "num_stop r"
  shows "parse_nat_lit (show_nat n @ r) = Some (n, r)"
proof -
  obtain d ds where d: "show_nat n = d # ds"
    by (cases "show_nat n") auto
  have t: "take_digits (show_nat n @ r) = (show_nat n, r)"
    using assms by (simp add: take_digits_append show_nat_digits)
  have "digits_val (d # ds) = n"
    using d digits_val_show_nat [of n] by simp
  then show ?thesis
    using t d assms show_nat_no_leading_zero [OF d]
    by (auto simp: parse_nat_lit_def num_stop_def)
qed

lemma digit_not_minus: "is_ascii_digit c \<Longrightarrow> c \<noteq> CHR ''-''"
  by (auto simp: is_ascii_digit_def)

lemma parse_int_lit_show:
  assumes "num_stop r"
  shows "parse_int_lit (show_int i @ r) = Some (i, r)"
proof (cases "i < 0")
  case True
  then show ?thesis
    using assms by (simp add: parse_int_lit_def show_int_def parse_nat_lit_show)
next
  case False
  obtain d ds where d: "show_nat (nat i) = d # ds"
    by (cases "show_nat (nat i)") auto
  then have "d \<noteq> CHR ''-''"
    using show_nat_digits [of d "nat i"] digit_not_minus by auto
  then show ?thesis
    using False d parse_nat_lit_show [OF assms, of "nat i"]
    by (simp add: parse_int_lit_def show_int_def)
qed

text \<open>The first byte of a printed value decides the parser's branch.\<close>

lemma show_int_first:
  obtains c r where "show_int i = c # r" "is_ascii_digit c \<or> c = CHR ''-''"
proof (cases "i < 0")
  case True
  then show ?thesis using that by (simp add: show_int_def)
next
  case False
  obtain d ds where d: "show_nat (nat i) = d # ds"
    by (cases "show_nat (nat i)") auto
  then show ?thesis
    using False that show_nat_digits [of d "nat i"] by (simp add: show_int_def)
qed

lemma not_ws:
  "\<not> is_json_ws (CHR ''n'')" "\<not> is_json_ws (CHR ''t'')" "\<not> is_json_ws (CHR ''f'')"
  "\<not> is_json_ws (CHR ''['')" "\<not> is_json_ws (CHR '']'')" "\<not> is_json_ws (CHR ''{'')"
  "\<not> is_json_ws (CHR ''}'')" "\<not> is_json_ws (CHR '','')" "\<not> is_json_ws (CHR '':'')"
  "\<not> is_json_ws (CHR ''-'')" "\<not> is_json_ws (CHR 0x22)" "is_ascii_digit c \<Longrightarrow> \<not> is_json_ws c"
  by (auto simp: is_json_ws_def is_ascii_digit_def)

lemma json_print_first:
  obtains c r where "json_print v = c # r" "\<not> is_json_ws c" "c \<noteq> CHR '']''" "c \<noteq> CHR ''}''"
proof (cases v)
  case (JInt i)
  obtain c r where "show_int i = c # r" and c: "is_ascii_digit c \<or> c = CHR ''-''"
    by (rule show_int_first)
  moreover have "\<not> is_json_ws c" "c \<noteq> CHR '']''" "c \<noteq> CHR ''}''"
    using c by (auto simp: not_ws) (auto simp: is_ascii_digit_def)
  ultimately show ?thesis using that JInt by simp
next
  case (JBool b)
  then show ?thesis using that by (cases b) (auto simp: not_ws)
qed (use that in \<open>auto simp: not_ws quote_string_def\<close>)

lemma num_stop_close [simp]: "num_stop (CHR '']'' # r)" "num_stop (CHR ''}'' # r)" "num_stop (CHR '','' # r)"
  "num_stop []"
  by (simp_all add: num_stop_def is_ascii_digit_def)

abbreviation roundtrips :: "json \<Rightarrow> bool" where
  "roundtrips v \<equiv> (\<forall>fuel r. length (json_print v) \<le> fuel \<longrightarrow> num_stop r \<longrightarrow>
     parse_value fuel (json_print v @ r) = Some (v, r))"

lemma parse_elems_print:
  assumes "\<forall>v \<in> set (x # xs). roundtrips v"
  shows "length (Join (map json_print (x # xs)) '','') < fuel \<Longrightarrow>
    parse_elems fuel (Join (map json_print (x # xs)) '','' @ CHR '']'' # r) = Some (x # xs, r)"
  using assms
proof (induction xs arbitrary: x fuel)
  case Nil
  then obtain f where f: "fuel = Suc f" by (cases fuel) auto
  with Nil have "parse_value f (json_print x @ CHR '']'' # r) = Some (x, CHR '']'' # r)" by simp
  then show ?case by (simp add: f not_ws)
next
  case (Cons y ys)
  then obtain f where f: "fuel = Suc f" by (cases fuel) auto
  let ?t = "Join (map json_print (y # ys)) '','' @ CHR '']'' # r"
  have "parse_value f (json_print x @ CHR '','' # ?t) = Some (x, CHR '','' # ?t)"
    using Cons.prems f by simp
  moreover have "parse_elems f ?t = Some (y # ys, r)"
    using Cons.IH [of y f] Cons.prems f by simp
  ultimately show ?case by (simp add: f not_ws)
qed

abbreviation print_member :: "string \<times> json \<Rightarrow> string" where
  "print_member m \<equiv> (case m of (k, v) \<Rightarrow> quote_string k @ CHR '':'' # json_print v)"

lemma parse_members_step:
  assumes "roundtrips v" "length (json_print v) \<le> f" "num_stop t"
  shows "parse_members (Suc f) (print_member (k, v) @ t) =
    (case skip_ws t of
       [] \<Rightarrow> None
     | c # r' \<Rightarrow>
         if c = CHR ''}'' then Some ([(k, v)], r')
         else if c = CHR '','' then map_option (map_prod (Cons (k, v)) id) (parse_members f r')
         else None)"
  using assms by (simp add: quote_string_def not_ws parse_chars_quote)

lemma parse_members_print:
  assumes "\<forall>m \<in> set (x # xs). roundtrips (snd m)"
  shows "length (Join (map print_member (x # xs)) '','') < fuel \<Longrightarrow>
    parse_members fuel (Join (map print_member (x # xs)) '','' @ CHR ''}'' # r) = Some (x # xs, r)"
  using assms
proof (induction xs arbitrary: x fuel)
  case Nil
  then obtain f where f: "fuel = Suc f" by (cases fuel) auto
  obtain k v where x: "x = (k, v)" by (cases x)
  have "parse_members (Suc f) (print_member (k, v) @ CHR ''}'' # r) = Some ([(k, v)], r)"
    using Nil f x by (subst parse_members_step) (auto simp: not_ws)
  then show ?case by (simp add: f x)
next
  case (Cons y ys)
  then obtain f where f: "fuel = Suc f" by (cases fuel) auto
  obtain k v where x: "x = (k, v)" by (cases x)
  let ?t = "Join (map print_member (y # ys)) '','' @ CHR ''}'' # r"
  have "parse_members f ?t = Some (y # ys, r)"
    using Cons.IH [of y f] Cons.prems f x by simp
  moreover have "parse_members (Suc f) (print_member (k, v) @ CHR '','' # ?t)
      = map_option (map_prod (Cons (k, v)) id) (parse_members f ?t)"
    using Cons.prems f x by (subst parse_members_step) (auto simp: not_ws)
  ultimately show ?case by (simp add: f x)
qed

lemma json_print_not_Nil [simp]: "json_print v \<noteq> []"
  by (rule json_print_first [of v]) simp

lemma Join_first:
  assumes "x = c # r"
  shows "\<exists>r'. Join (x # xs) s = c # r'"
  using assms by (cases xs) auto

lemma parse_value_print: "roundtrips v"
proof (induction v)
  case (JInt i)
  show ?case
  proof (intro allI impI)
    fix fuel r
    assume le: "length (json_print (JInt i)) \<le> fuel" and st: "num_stop r"
    obtain c t where c: "show_int i = c # t" "is_ascii_digit c \<or> c = CHR ''-''"
      by (rule show_int_first)
    then have ne: "\<not> is_json_ws c" "byte c \<notin> {110, 116, 102, 34, 91, 123}"
      by (auto simp: not_ws is_ascii_digit_def)
    then have ne': "c \<noteq> CHR ''n''" "c \<noteq> CHR ''t''" "c \<noteq> CHR ''f''" "c \<noteq> CHR ''[''" "c \<noteq> CHR ''{''"
      by auto
    from le c obtain f where "fuel = Suc f" by (cases fuel) auto
    then show "parse_value fuel (json_print (JInt i) @ r) = Some (JInt i, r)"
      using parse_int_lit_show [OF st, of i] c ne ne' by simp
  qed
next
  case (JStr s)
  show ?case
  proof (intro allI impI)
    fix fuel :: nat and r :: string
    assume "length (json_print (JStr s)) \<le> fuel"
    then obtain f where "fuel = Suc f" by (cases fuel) (auto simp: quote_string_def)
    then show "parse_value fuel (json_print (JStr s) @ r) = Some (JStr s, r)"
      by (simp add: quote_string_def not_ws parse_chars_quote)
  qed
next
  case (JArr xs)
  show ?case
  proof (intro allI impI)
    fix fuel :: nat and r :: string
    assume le: "length (json_print (JArr xs)) \<le> fuel"
    then obtain f where f: "fuel = Suc f" by (cases fuel) auto
    show "parse_value fuel (json_print (JArr xs) @ r) = Some (JArr xs, r)"
    proof (cases xs)
      case Nil
      then show ?thesis by (simp add: f not_ws)
    next
      case (Cons y ys)
      obtain c t where c: "json_print y = c # t" "\<not> is_json_ws c" "c \<noteq> CHR '']''"
        by (rule json_print_first)
      then obtain t' where t': "Join (map json_print (y # ys)) '','' = c # t'"
        using Join_first [of "json_print y" c t "map json_print ys" "'',''"] by auto
      have "parse_elems f (Join (map json_print (y # ys)) '','' @ CHR '']'' # r) = Some (y # ys, r)"
        using JArr Cons le f by (intro parse_elems_print) auto
      then show ?thesis
        using Cons c t' by (simp add: f not_ws)
    qed
  qed
next
  case (JObj ms)
  show ?case
  proof (intro allI impI)
    fix fuel :: nat and r :: string
    assume le: "length (json_print (JObj ms)) \<le> fuel"
    then obtain f where f: "fuel = Suc f" by (cases fuel) auto
    show "parse_value fuel (json_print (JObj ms) @ r) = Some (JObj ms, r)"
    proof (cases ms)
      case Nil
      then show ?thesis by (simp add: f not_ws)
    next
      case (Cons y ys)
      obtain k v where y: "y = (k, v)" by (cases y)
      then obtain t' where t': "Join (map print_member (y # ys)) '','' = CHR 0x22 # t'"
        using Join_first [of "print_member y" "CHR 0x22" _ "map print_member ys" "'',''"]
        by (auto simp: quote_string_def)
      have "\<forall>m \<in> set (y # ys). roundtrips (snd m)"
        using JObj Cons by (metis prod_set_simps(2) singletonI snds.cases surjective_pairing snds.intros)
      then have "parse_members f (Join (map print_member (y # ys)) '','' @ CHR ''}'' # r) = Some (y # ys, r)"
        using Cons le f by (intro parse_members_print) auto
      then show ?thesis
        using Cons t' by (simp add: f not_ws)
    qed
  qed
next
  case JNull
  show ?case
  proof (intro allI impI)
    fix fuel :: nat and r :: string
    assume "length (json_print JNull) \<le> fuel"
    then obtain f where "fuel = Suc f" by (cases fuel) auto
    then show "parse_value fuel (json_print JNull @ r) = Some (JNull, r)"
      by (simp add: not_ws parse_lit_def HasPrefix_def)
  qed
next
  case (JBool b)
  show ?case
  proof (intro allI impI)
    fix fuel :: nat and r :: string
    assume "length (json_print (JBool b)) \<le> fuel"
    then obtain f where "fuel = Suc f" by (cases fuel) (auto split: if_splits)
    then show "parse_value fuel (json_print (JBool b) @ r) = Some (JBool b, r)"
      by (cases b) (simp_all add: not_ws parse_lit_def HasPrefix_def)
  qed
qed

lemma json_parse_print [simp]: "json_parse (json_print v) = Some v"
proof -
  have "parse_value (Suc (length (json_print v))) (json_print v @ []) = Some (v, [])"
    using parse_value_print [of v] by (metis le_SucI le_refl num_stop_close(4))
  then show ?thesis by (simp add: json_parse_def skip_ws_def)
qed

declare json_print.simps [simp del]

interpretation json: codec json_print json_parse
  by unfold_locales simp

section \<open>Struct fields\<close>

text \<open>
  \<open>json.Unmarshal\<close> into a struct field of name \<open>name\<close>: members are visited in order,
  every one whose key matches case-insensitively sets the field, \<open>null\<close> leaves it, and a
  value \<open>conv\<close> refuses makes the whole call fail.
\<close>

fun json_field :: "string \<Rightarrow> (json \<Rightarrow> 'a option) \<Rightarrow> 'a \<Rightarrow> (string \<times> json) list \<Rightarrow> 'a option" where
  "json_field name conv x [] = Some x"
| "json_field name conv x ((k, v) # ms) =
     (if EqualFold k name then
        (if v = JNull then json_field name conv x ms
         else (case conv v of None \<Rightarrow> None | Some y \<Rightarrow> json_field name conv y ms))
      else json_field name conv x ms)"

definition as_string :: "json \<Rightarrow> string option" where
  "as_string v = (case v of JStr s \<Rightarrow> Some s | _ \<Rightarrow> None)"

definition as_bool :: "json \<Rightarrow> bool option" where
  "as_bool v = (case v of JBool b \<Rightarrow> Some b | _ \<Rightarrow> None)"

text \<open>An \<open>int64\<close> field: a number outside the range is an error.\<close>

definition in_int64 :: "int \<Rightarrow> bool" where
  "in_int64 i \<longleftrightarrow> - (2 ^ 63) \<le> i \<and> i < 2 ^ 63"

definition as_int64 :: "json \<Rightarrow> int option" where
  "as_int64 v = (case v of JInt i \<Rightarrow> if in_int64 i then Some i else None | _ \<Rightarrow> None)"

lemma as_simps [simp]:
  "as_string (JStr s) = Some s" "as_bool (JBool b) = Some b"
  "in_int64 i \<Longrightarrow> as_int64 (JInt i) = Some i"
  by (simp_all add: as_string_def as_bool_def as_int64_def)

text \<open>Comparing two literal keys.\<close>

lemmas key_simps = EqualFold_def ToLower_def lower_char_def is_ascii_upper_def byte_def

end
