(* ===== verification/StateSigner.thy ===== *)
theory StateSigner
  imports Json
begin

text \<open>
  \<open>api/internal/auth/oauth_state.go\<close>: the signed payload that travels in the OAuth
  \<open>state\<close> parameter and the state cookie. The keyed hash (HMAC-SHA256) is an argument
  \<open>hmac key message\<close> of every definition; nothing is assumed about it. Instants are
  nanoseconds since the Unix epoch.
\<close>

section \<open>Time\<close>

type_synonym instant = int

definition second :: int where
  "second = 1000000000"

text \<open>\<open>time.Time.Unix\<close>: whole seconds, rounded down.\<close>

definition Unix :: "instant \<Rightarrow> int" where
  "Unix t = t div second"

lemma Unix_mono: "s \<le> t \<Longrightarrow> Unix s \<le> Unix t"
  by (simp add: Unix_def second_def zdiv_mono1)

section \<open>The payload\<close>

record StatePayload =
  Provider :: string
  ReturnPath :: string
  Nonce :: string
  Expires :: int
  TestMode :: bool
  LinkMode :: bool
  LinkUserAccountID :: string

definition empty_StatePayload :: StatePayload where
  "empty_StatePayload =
     \<lparr>Provider = [], ReturnPath = [], Nonce = [], Expires = 0, TestMode = False,
      LinkMode = False, LinkUserAccountID = []\<rparr>"

definition Expired :: "StatePayload \<Rightarrow> instant \<Rightarrow> bool" where
  "Expired s now \<longleftrightarrow> Unix now > Expires s"

text \<open>\<open>json.Marshal\<close> of the struct: fields in order, the \<open>omitempty\<close> ones only when set.\<close>

definition StatePayload_members :: "StatePayload \<Rightarrow> (string \<times> json) list" where
  "StatePayload_members s =
     [(''p'', JStr (Provider s)), (''r'', JStr (ReturnPath s)), (''n'', JStr (Nonce s)),
      (''e'', JInt (Expires s))]
     @ (if TestMode s then [(''t'', JBool True)] else [])
     @ (if LinkMode s then [(''lm'', JBool True)] else [])
     @ (if LinkUserAccountID s \<noteq> [] then [(''luid'', JStr (LinkUserAccountID s))] else [])"

definition marshal_StatePayload :: "StatePayload \<Rightarrow> string" where
  "marshal_StatePayload s = json_print (JObj (StatePayload_members s))"

definition unmarshal_StatePayload :: "string \<Rightarrow> StatePayload option" where
  "unmarshal_StatePayload b =
     (case json_parse b of
        Some JNull \<Rightarrow> Some empty_StatePayload
      | Some (JObj ms) \<Rightarrow>
          (case (json_field ''p'' as_string [] ms, json_field ''r'' as_string [] ms,
                 json_field ''n'' as_string [] ms, json_field ''e'' as_int64 0 ms,
                 json_field ''t'' as_bool False ms, json_field ''lm'' as_bool False ms,
                 json_field ''luid'' as_string [] ms) of
             (Some p, Some r, Some n, Some e, Some t, Some l, Some u) \<Rightarrow>
               Some \<lparr>Provider = p, ReturnPath = r, Nonce = n, Expires = e, TestMode = t,
                     LinkMode = l, LinkUserAccountID = u\<rparr>
           | _ \<Rightarrow> None)
      | _ \<Rightarrow> None)"

section \<open>Signing and verifying\<close>

datatype state_error =
    EmptyKey | MalformedToken | SignatureMismatch | DecodeBody | UnmarshalBody | StateExpired

record StateSigner =
  signer_key :: string

definition NewStateSigner :: "string \<Rightarrow> (state_error, StateSigner) result" where
  "NewStateSigner key = (if key = [] then Inl EmptyKey else Inr \<lparr>signer_key = key\<rparr>)"

definition state_mac :: "(string \<Rightarrow> string \<Rightarrow> string) \<Rightarrow> StateSigner \<Rightarrow> string \<Rightarrow> string" where
  "state_mac hmac s body = RawURL_encode (hmac (signer_key s) body)"

definition Sign :: "(string \<Rightarrow> string \<Rightarrow> string) \<Rightarrow> StateSigner \<Rightarrow> StatePayload \<Rightarrow> string" where
  "Sign hmac s payload =
     (let bodyEncoded = RawURL_encode (marshal_StatePayload payload)
      in bodyEncoded @ ''.'' @ state_mac hmac s bodyEncoded)"

definition Verify ::
  "(string \<Rightarrow> string \<Rightarrow> string) \<Rightarrow> StateSigner \<Rightarrow> instant \<Rightarrow> string \<Rightarrow> (state_error, StatePayload) result"
where
  "Verify hmac s now token =
     (case Split token (CHR ''.'') of
        [bodyEncoded, sig] \<Rightarrow>
          if sig \<noteq> state_mac hmac s bodyEncoded then Inl SignatureMismatch
          else
            (case RawURL_decode bodyEncoded of
               None \<Rightarrow> Inl DecodeBody
             | Some bodyBytes \<Rightarrow>
                 (case unmarshal_StatePayload bodyBytes of
                    None \<Rightarrow> Inl UnmarshalBody
                  | Some payload \<Rightarrow>
                      if Expired payload now then Inl StateExpired else Inr payload))
      | _ \<Rightarrow> Inl MalformedToken)"

section \<open>Lemmas\<close>

lemma unmarshal_marshal_StatePayload:
  assumes "in_int64 (Expires s)"
  shows "unmarshal_StatePayload (marshal_StatePayload s) = Some s"
proof -
  have "json_field ''p'' as_string [] (StatePayload_members s) = Some (Provider s)"
    "json_field ''r'' as_string [] (StatePayload_members s) = Some (ReturnPath s)"
    "json_field ''n'' as_string [] (StatePayload_members s) = Some (Nonce s)"
    "json_field ''e'' as_int64 0 (StatePayload_members s) = Some (Expires s)"
    "json_field ''t'' as_bool False (StatePayload_members s) = Some (TestMode s)"
    "json_field ''lm'' as_bool False (StatePayload_members s) = Some (LinkMode s)"
    "json_field ''luid'' as_string [] (StatePayload_members s) = Some (LinkUserAccountID s)"
    using assms by (simp_all add: StatePayload_members_def key_simps)
  then show ?thesis
    by (simp add: unmarshal_StatePayload_def marshal_StatePayload_def)
qed

lemma Split_Sign:
  "Split (Sign hmac s p) (CHR ''.'') =
     [RawURL_encode (marshal_StatePayload p),
      state_mac hmac s (RawURL_encode (marshal_StatePayload p))]"
  by (simp add: Sign_def state_mac_def Let_def url.Split_enc_pair)

lemma Verify_Inr_iff:
  "Verify hmac s now token = Inr p \<longleftrightarrow>
     (\<exists>body bytes. token = body @ ''.'' @ state_mac hmac s body \<and> CHR ''.'' \<notin> set body \<and>
        RawURL_decode body = Some bytes \<and> unmarshal_StatePayload bytes = Some p \<and>
        Unix now \<le> Expires p)" (is "?L \<longleftrightarrow> ?R")
proof
  assume ?L
  then obtain body sig bytes where *: "Split token (CHR ''.'') = [body, sig]"
    "sig = state_mac hmac s body" "RawURL_decode body = Some bytes"
    "unmarshal_StatePayload bytes = Some p" "\<not> Expired p now"
    by (auto simp: Verify_def split: list.splits if_splits option.splits)
  from Split_two [OF *(1)] Split_parts_no_sep [of body token "CHR ''.''"] * show ?R
    by (auto simp: Expired_def)
next
  assume ?R
  then obtain body bytes where *: "token = body @ ''.'' @ state_mac hmac s body"
    "CHR ''.'' \<notin> set body" "RawURL_decode body = Some bytes"
    "unmarshal_StatePayload bytes = Some p" "Unix now \<le> Expires p"
    by blast
  then have "Split token (CHR ''.'') = [body, state_mac hmac s body]"
    by (simp add: Split_append Split_no_sep state_mac_def url.enc_no_sep)
  then show ?L
    using * by (simp add: Verify_def Expired_def)
qed

section \<open>Properties\<close>

text \<open>
  Round trip of the OAuth state: verifying a signed payload returns that payload as
  long as it has not expired, and reports it expired from the first second after its
  \<open>e\<close> field on, for every keyed hash and every key. (The expiry fits the wire's
  \<open>int64\<close>.)
\<close>

theorem Verify_Sign:
  assumes "in_int64 (Expires p)"
  shows "Verify hmac s now (Sign hmac s p) =
    (if Unix now \<le> Expires p then Inr p else Inl StateExpired)"
  by (simp add: Verify_def Split_Sign url.dec_enc unmarshal_marshal_StatePayload [OF assms]
      Expired_def)

theorem Verify_Sign_witness:
  "Verify (\<lambda>k m. k @ m) \<lparr>signer_key = ''key''\<rparr> (2 * second)
     (Sign (\<lambda>k m. k @ m) \<lparr>signer_key = ''key''\<rparr> (empty_StatePayload\<lparr>Provider := ''google'', Expires := 3\<rparr>))
   = Inr (empty_StatePayload\<lparr>Provider := ''google'', Expires := 3\<rparr>)"
proof -
  have "in_int64 (Expires (empty_StatePayload\<lparr>Provider := ''google'', Expires := 3\<rparr>))"
    by (simp add: in_int64_def)
  from Verify_Sign [OF this, of "\<lambda>k m. k @ m" "\<lparr>signer_key = ''key''\<rparr>" "2 * second"]
  show ?thesis by (simp add: Unix_def second_def)
qed

text \<open>
  Integrity of the OAuth state: a token is accepted only if its second half is the
  encoded MAC of its first half under the signer's key; so replacing the body of a token by
  another one is detected whenever the two bodies have different MACs, and a verified payload
  is the decoded body and is not expired.
\<close>

theorem Verify_integrity:
  assumes "Verify hmac s now (body @ ''.'' @ sig) = Inr p" "CHR ''.'' \<notin> set body"
  shows "sig = RawURL_encode (hmac (signer_key s) body) \<and>
    Option.bind (RawURL_decode body) unmarshal_StatePayload = Some p \<and> Unix now \<le> Expires p \<and>
    (\<forall>body' q. CHR ''.'' \<notin> set body' \<longrightarrow> hmac (signer_key s) body' \<noteq> hmac (signer_key s) body
       \<longrightarrow> Verify hmac s now (body' @ ''.'' @ sig) \<noteq> Inr q)"
proof -
  have split: "b @ CHR ''.'' # m = b' @ CHR ''.'' # m' \<longleftrightarrow> b = b' \<and> m = m'"
    if "CHR ''.'' \<notin> set b" "CHR ''.'' \<notin> set b'" for b b' m m' :: string
    using that by (auto simp: append_eq_append_conv2 append_eq_Cons_conv Cons_eq_append_conv)
  have "sig = RawURL_encode (hmac (signer_key s) body)"
    using assms by (auto simp: Verify_Inr_iff split state_mac_def)
  then show ?thesis
    using assms by (auto simp: Verify_Inr_iff split state_mac_def url.enc_inject)
qed

theorem Verify_integrity_witness:
  "\<exists>body sig. CHR ''.'' \<notin> set body \<and>
     Verify (\<lambda>k m. k @ m) \<lparr>signer_key = ''k''\<rparr> 0 (body @ ''.'' @ sig)
       = Inr (empty_StatePayload\<lparr>Expires := 9\<rparr>) \<and>
     sig = RawURL_encode ((\<lambda>k m. k @ m) ''k'' body)"
proof -
  let ?p = "empty_StatePayload\<lparr>Expires := 9\<rparr>" and ?s = "\<lparr>signer_key = ''k''\<rparr>"
  let ?body = "RawURL_encode (marshal_StatePayload ?p)"
  have nd: "CHR ''.'' \<notin> set ?body" by (rule url.enc_no_sep)
  have "unmarshal_StatePayload (marshal_StatePayload ?p) = Some ?p"
    by (rule unmarshal_marshal_StatePayload) (simp add: in_int64_def)
  then have ok: "Verify (\<lambda>k m. k @ m) ?s 0 (?body @ ''.'' @ state_mac (\<lambda>k m. k @ m) ?s ?body) = Inr ?p"
    using nd by (auto simp: Verify_Inr_iff url.dec_enc Unix_def)
  from Verify_integrity [OF ok nd] nd ok show ?thesis
    by (metis StateSigner.select_convs(1))
qed

end
