(* ===== verification/Transitions.thy ===== *)
theory Transitions
  imports Main
begin

text \<open>
  The interface shared by the concurrent parts of the program (the step-up token cache, the
  e-mail code table, the JWT-secret bootstrap): a step relation and an invariant that its
  start states have and every step keeps. A client of the interface gets the invariant in
  every state reachable from a start state.
\<close>

locale invariant_system =
  fixes init :: "'s \<Rightarrow> bool" and step :: "'s \<Rightarrow> 's \<Rightarrow> bool" and inv :: "'s \<Rightarrow> bool"
  assumes init_inv: "init s \<Longrightarrow> inv s"
    and step_inv: "step s t \<Longrightarrow> inv s \<Longrightarrow> inv t"
begin

lemma steps_inv: "step\<^sup>*\<^sup>* s t \<Longrightarrow> inv s \<Longrightarrow> inv t"
  by (induction rule: rtranclp_induct) (auto intro: step_inv)

lemma reachable_inv: "init s \<Longrightarrow> step\<^sup>*\<^sup>* s t \<Longrightarrow> inv t"
  using steps_inv init_inv by blast

end

section \<open>First writer wins\<close>

text \<open>
  The contract of an insert that succeeds once per key, which the used step-up tokens, the
  stored JWT secret and the identity rows share: \<open>put\<close> stores the value and says so if the key
  is free, and changes nothing otherwise.
\<close>

locale put_once =
  fixes look :: "'s \<Rightarrow> 'k \<Rightarrow> 'v option" and put :: "'s \<Rightarrow> 'k \<Rightarrow> 'v \<Rightarrow> bool \<times> 's" and wf :: "'s \<Rightarrow> 'k \<Rightarrow> 'v \<Rightarrow> bool"
  assumes put_free: "wf s k v \<Longrightarrow> look s k = None \<Longrightarrow>
      fst (put s k v) \<and> look (snd (put s k v)) k = Some v"
    and put_taken: "look s k = Some w \<Longrightarrow> \<not> fst (put s k v) \<and> look (snd (put s k v)) k = Some w"
begin

text \<open>A sequence of puts at one key; the answers they got, and the final state.\<close>

fun puts :: "'s \<Rightarrow> 'k \<Rightarrow> 'v list \<Rightarrow> bool list \<times> 's" where
  "puts s k [] = ([], s)"
| "puts s k (v # vs) =
     (case put s k v of (b, s') \<Rightarrow> case puts s' k vs of (bs, t) \<Rightarrow> (b # bs, t))"

lemma puts_taken: "look s k = Some w \<Longrightarrow> set (fst (puts s k vs)) \<subseteq> {False} \<and> look (snd (puts s k vs)) k = Some w"
proof (induction vs arbitrary: s)
  case (Cons v vs)
  obtain b s' where p: "put s k v = (b, s')" by fastforce
  then have "\<not> b" "look s' k = Some w" using put_taken [OF Cons.prems, of v] by auto
  with Cons.IH [of s'] p show ?case by (auto split: prod.splits)
qed simp

lemma first_wins:
  assumes "look s k = None" "wf s k v"
  shows "\<exists>bs. fst (puts s k (v # vs)) = True # bs \<and> set bs \<subseteq> {False} \<and> look (snd (puts s k (v # vs))) k = Some v"
proof -
  obtain b s' where p: "put s k v = (b, s')" by fastforce
  then have "b" "look s' k = Some v" using put_free [OF assms(2,1)] by auto
  with puts_taken [of s' k v vs] p show ?thesis by (auto split: prod.splits)
qed

end

end
