(* ===== verification/StepUp.thy ===== *)
theory StepUp
  imports StateSigner Transitions
begin

text \<open>
  \<open>api/internal/auth/stepup.go\<close>: short-lived, single-use tokens that gate credential
  changes. A token is a compact JWS \<open>header.payload.signature\<close> with a fixed header; the
  ids of used tokens sit in a process-wide map (\<open>sync.Map\<close>) from \<open>jti\<close> to expiry, which a
  janitor prunes once a minute.

  The map, every call of \<open>VerifyStepUpToken\<close> and every tick of the janitor form a step
  relation; its invariant gives that no token is accepted twice.
\<close>

section \<open>Tokens\<close>

definition stepUpPurpose :: string where
  "stepUpPurpose = ''credential_change''"

definition StepUpTTL :: int where
  "StepUpTTL = 5 * 60 * second"

text \<open>The header text is \<open>{"alg":"HS256","typ":"step-up"}\<close>.\<close>

definition stepUpHeader_json :: string where
  "stepUpHeader_json = json_print (JObj [(''alg'', JStr ''HS256''), (''typ'', JStr ''step-up'')])"

definition stepUpHeader :: string where
  "stepUpHeader = RawURL_encode stepUpHeader_json"

record stepUpPayload =
  su_UserAccountID :: int
  su_Purpose :: string
  su_JTI :: string
  su_Exp :: int

definition marshal_stepUpPayload :: "stepUpPayload \<Rightarrow> string" where
  "marshal_stepUpPayload p =
     json_print (JObj [(''uaid'', JInt (su_UserAccountID p)), (''p'', JStr (su_Purpose p)),
                       (''jti'', JStr (su_JTI p)), (''exp'', JInt (su_Exp p))])"

definition unmarshal_stepUpPayload :: "string \<Rightarrow> stepUpPayload option" where
  "unmarshal_stepUpPayload b =
     (case json_parse b of
        Some JNull \<Rightarrow> Some \<lparr>su_UserAccountID = 0, su_Purpose = [], su_JTI = [], su_Exp = 0\<rparr>
      | Some (JObj ms) \<Rightarrow>
          (case (json_field ''uaid'' as_int64 0 ms, json_field ''p'' as_string [] ms,
                 json_field ''jti'' as_string [] ms, json_field ''exp'' as_int64 0 ms) of
             (Some u, Some p, Some j, Some e) \<Rightarrow>
               Some \<lparr>su_UserAccountID = u, su_Purpose = p, su_JTI = j, su_Exp = e\<rparr>
           | _ \<Rightarrow> None)
      | _ \<Rightarrow> None)"

datatype stepup_error = ErrStepUpEmptySecret | ErrStepUpRand | ErrStepUpRequired

definition stepup_sig :: "(string \<Rightarrow> string \<Rightarrow> string) \<Rightarrow> string \<Rightarrow> string \<Rightarrow> string" where
  "stepup_sig hmac secret signingInput = RawURL_encode (hmac secret signingInput)"

text \<open>
  \<open>IssueStepUpToken\<close>: \<open>raw\<close> are the sixteen random bytes, \<open>None\<close> when the random
  source fails; the result is the token, its \<open>jti\<close> and the expiry instant.
\<close>

definition IssueStepUpToken ::
  "(string \<Rightarrow> string \<Rightarrow> string) \<Rightarrow> string \<Rightarrow> int \<Rightarrow> int \<Rightarrow> string option \<Rightarrow> instant
   \<Rightarrow> (stepup_error, string \<times> string \<times> instant) result" where
  "IssueStepUpToken hmac secret userAccountID ttl raw now =
     (if secret = [] then Inl ErrStepUpEmptySecret
      else
        (case raw of
           None \<Rightarrow> Inl ErrStepUpRand
         | Some bytes \<Rightarrow>
             let jti = hex_encode bytes;
                 exp = now + ttl;
                 payload = \<lparr>su_UserAccountID = userAccountID, su_Purpose = stepUpPurpose,
                            su_JTI = jti, su_Exp = Unix exp\<rparr>;
                 signingInput = stepUpHeader @ ''.'' @ RawURL_encode (marshal_stepUpPayload payload)
             in Inr (signingInput @ ''.'' @ stepup_sig hmac secret signingInput, jti, exp)))"

section \<open>Verification and the cache of used tokens\<close>

type_synonym consumed_map = "string \<rightharpoonup> int"

text \<open>\<open>sync.Map.LoadOrStore\<close>: whether the key was present, and the map afterwards.\<close>

definition storeConsumedJTI :: "consumed_map \<Rightarrow> string \<Rightarrow> int \<Rightarrow> bool \<times> consumed_map" where
  "storeConsumedJTI consumed jti expUnix =
     (case consumed jti of
        Some _ \<Rightarrow> (True, consumed)
      | None \<Rightarrow> (False, consumed(jti \<mapsto> expUnix)))"

definition isConsumedJTI :: "consumed_map \<Rightarrow> string \<Rightarrow> int \<Rightarrow> bool \<times> consumed_map" where
  "isConsumedJTI consumed jti expUnix = storeConsumedJTI consumed jti expUnix"

text \<open>Everything \<open>VerifyStepUpToken\<close> checks before it touches the cache.\<close>

definition checkStepUpToken ::
  "(string \<Rightarrow> string \<Rightarrow> string) \<Rightarrow> string \<Rightarrow> string \<Rightarrow> int \<Rightarrow> instant
   \<Rightarrow> (stepup_error, stepUpPayload) result" where
  "checkStepUpToken hmac secret token userAccountID now =
     (if secret = [] then Inl ErrStepUpRequired
      else
        (case Split token (CHR ''.'') of
           [header, encodedPayload, sig] \<Rightarrow>
             if header \<noteq> stepUpHeader then Inl ErrStepUpRequired
             else if sig \<noteq> stepup_sig hmac secret (header @ ''.'' @ encodedPayload)
               then Inl ErrStepUpRequired
             else
               (case RawURL_decode encodedPayload of
                  None \<Rightarrow> Inl ErrStepUpRequired
                | Some payloadJSON \<Rightarrow>
                    (case unmarshal_stepUpPayload payloadJSON of
                       None \<Rightarrow> Inl ErrStepUpRequired
                     | Some p \<Rightarrow>
                         if Unix now > su_Exp p then Inl ErrStepUpRequired
                         else if su_Purpose p \<noteq> stepUpPurpose then Inl ErrStepUpRequired
                         else if su_UserAccountID p \<noteq> userAccountID then Inl ErrStepUpRequired
                         else Inr p))
         | _ \<Rightarrow> Inl ErrStepUpRequired))"

definition VerifyStepUpToken ::
  "(string \<Rightarrow> string \<Rightarrow> string) \<Rightarrow> string \<Rightarrow> string \<Rightarrow> int \<Rightarrow> instant \<Rightarrow> consumed_map
   \<Rightarrow> (stepup_error, unit) result \<times> consumed_map" where
  "VerifyStepUpToken hmac secret token userAccountID now consumed =
     (case checkStepUpToken hmac secret token userAccountID now of
        Inl e \<Rightarrow> (Inl e, consumed)
      | Inr p \<Rightarrow>
          (case isConsumedJTI consumed (su_JTI p) (su_Exp p) of
             (True, c) \<Rightarrow> (Inl ErrStepUpRequired, c)
           | (False, c) \<Rightarrow> (Inr (), c)))"

text \<open>One tick of the janitor: entries past their expiry are deleted.\<close>

definition janitor_tick :: "instant \<Rightarrow> consumed_map \<Rightarrow> consumed_map" where
  "janitor_tick now consumed =
     (\<lambda>jti. case consumed jti of
              Some exp \<Rightarrow> if Unix now > exp then None else Some exp
            | None \<Rightarrow> None)"

section \<open>Lemmas\<close>

lemma unmarshal_marshal_stepUpPayload:
  assumes "in_int64 (su_UserAccountID p)" "in_int64 (su_Exp p)"
  shows "unmarshal_stepUpPayload (marshal_stepUpPayload p) = Some p"
  using assms by (simp add: unmarshal_stepUpPayload_def marshal_stepUpPayload_def key_simps)

lemma checkStepUpToken_Inr_iff:
  "checkStepUpToken hmac secret token uid now = Inr p \<longleftrightarrow>
     secret \<noteq> [] \<and>
     (\<exists>enc bytes. CHR ''.'' \<notin> set enc \<and>
        token = (stepUpHeader @ ''.'' @ enc) @ ''.'' @ stepup_sig hmac secret (stepUpHeader @ ''.'' @ enc) \<and>
        RawURL_decode enc = Some bytes \<and> unmarshal_stepUpPayload bytes = Some p) \<and>
     Unix now \<le> su_Exp p \<and> su_Purpose p = stepUpPurpose \<and> su_UserAccountID p = uid"
  (is "?L \<longleftrightarrow> ?R")
proof
  assume ?L
  then obtain enc sig bytes where *: "secret \<noteq> []" "Split token (CHR ''.'') = [stepUpHeader, enc, sig]"
    "sig = stepup_sig hmac secret (stepUpHeader @ ''.'' @ enc)" "RawURL_decode enc = Some bytes"
    "unmarshal_stepUpPayload bytes = Some p" "Unix now \<le> su_Exp p" "su_Purpose p = stepUpPurpose"
    "su_UserAccountID p = uid"
    by (auto simp: checkStepUpToken_def split: list.splits if_splits option.splits)
  moreover have "CHR ''.'' \<notin> set enc"
    using Split_parts_no_sep [of enc token "CHR ''.''"] *(2) by simp
  ultimately show ?R
    using Split_three [OF *(2)] by auto
next
  assume ?R
  then obtain enc bytes where *: "secret \<noteq> []" "CHR ''.'' \<notin> set enc"
    "token = (stepUpHeader @ ''.'' @ enc) @ ''.'' @ stepup_sig hmac secret (stepUpHeader @ ''.'' @ enc)"
    "RawURL_decode enc = Some bytes" "unmarshal_stepUpPayload bytes = Some p"
    "Unix now \<le> su_Exp p" "su_Purpose p = stepUpPurpose" "su_UserAccountID p = uid"
    by blast
  have "CHR ''.'' \<notin> set stepUpHeader"
    by (simp add: stepUpHeader_def url.enc_no_sep)
  then have "Split token (CHR ''.'') = [stepUpHeader, enc, stepup_sig hmac secret (stepUpHeader @ ''.'' @ enc)]"
    using * by (simp add: Split_append Split_no_sep stepup_sig_def url.enc_no_sep)
  then show ?L
    using * by (simp add: checkStepUpToken_def)
qed

text \<open>The payload a token carries does not depend on who checks it, or when.\<close>

lemma checkStepUpToken_payload_unique:
  assumes "checkStepUpToken hmac secret token u now = Inr p"
    and "checkStepUpToken hmac secret token u' now' = Inr q"
  shows "p = q"
  using assms by (auto simp: checkStepUpToken_def split: list.splits if_splits option.splits)

lemma VerifyStepUpToken_Inr_iff:
  "VerifyStepUpToken hmac secret token uid now c = (Inr (), c') \<longleftrightarrow>
     (\<exists>p. checkStepUpToken hmac secret token uid now = Inr p \<and>
          c (su_JTI p) = None \<and> c' = c(su_JTI p \<mapsto> su_Exp p))"
  by (auto simp: VerifyStepUpToken_def isConsumedJTI_def storeConsumedJTI_def
      split: sum.splits option.splits)

lemma VerifyStepUpToken_Inl:
  "VerifyStepUpToken hmac secret token uid now c = (Inl e, c') \<Longrightarrow> e = ErrStepUpRequired \<and> c' = c"
  by (auto simp: VerifyStepUpToken_def isConsumedJTI_def storeConsumedJTI_def checkStepUpToken_def
      split: sum.splits option.splits if_splits list.splits)

lemma checkStepUpToken_issued:
  assumes "IssueStepUpToken hmac secret uid ttl (Some raw) issued = Inr (token, jti, exp)"
    and "in_int64 uid" "in_int64 (Unix exp)"
  shows "checkStepUpToken hmac secret token uid' now =
    (if uid' = uid \<and> Unix now \<le> Unix (issued + ttl)
     then Inr \<lparr>su_UserAccountID = uid, su_Purpose = stepUpPurpose, su_JTI = jti,
               su_Exp = Unix (issued + ttl)\<rparr>
     else Inl ErrStepUpRequired)"
proof -
  define p where "p = \<lparr>su_UserAccountID = uid, su_Purpose = stepUpPurpose, su_JTI = jti, su_Exp = Unix exp\<rparr>"
  have iss: "secret \<noteq> []" "exp = issued + ttl"
    "token = (stepUpHeader @ ''.'' @ RawURL_encode (marshal_stepUpPayload p)) @ ''.'' @
       stepup_sig hmac secret (stepUpHeader @ ''.'' @ RawURL_encode (marshal_stepUpPayload p))"
    using assms(1) by (auto simp: IssueStepUpToken_def Let_def p_def split: if_splits)
  have rt: "RawURL_decode (RawURL_encode (marshal_stepUpPayload p)) = Some (marshal_stepUpPayload p)"
    "unmarshal_stepUpPayload (marshal_stepUpPayload p) = Some p"
    using assms(2,3) by (simp_all add: url.dec_enc unmarshal_marshal_stepUpPayload p_def)
  have "CHR ''.'' \<notin> set stepUpHeader"
    by (simp add: stepUpHeader_def url.enc_no_sep)
  then have split: "Split token (CHR ''.'') = [stepUpHeader, RawURL_encode (marshal_stepUpPayload p),
      stepup_sig hmac secret (stepUpHeader @ ''.'' @ RawURL_encode (marshal_stepUpPayload p))]"
    using iss(3) by (simp add: Split_append Split_no_sep stepup_sig_def url.enc_no_sep)
  show ?thesis
    using iss(1,2) rt split by (auto simp: checkStepUpToken_def p_def)
qed

section \<open>The cache as a step relation\<close>

text \<open>
  The state: the cache, the latest instant any call has read from the clock, and the tokens
  accepted so far (a history variable). The clock never runs backwards.
\<close>

record cache_state =
  cache :: consumed_map
  clock :: instant
  accepted :: "string list"

inductive cache_step ::
  "(string \<Rightarrow> string \<Rightarrow> string) \<Rightarrow> string \<Rightarrow> cache_state \<Rightarrow> cache_state \<Rightarrow> bool"
  for hmac secret where
  accept: "clock s \<le> now \<Longrightarrow> VerifyStepUpToken hmac secret token uid now (cache s) = (Inr (), c) \<Longrightarrow>
     cache_step hmac secret s (s\<lparr>cache := c, clock := now, accepted := token # accepted s\<rparr>)"
| reject: "clock s \<le> now \<Longrightarrow> VerifyStepUpToken hmac secret token uid now (cache s) = (Inl e, c) \<Longrightarrow>
     cache_step hmac secret s (s\<lparr>cache := c, clock := now\<rparr>)"
| prune: "clock s \<le> now \<Longrightarrow>
     cache_step hmac secret s (s\<lparr>cache := janitor_tick now (cache s), clock := now\<rparr>)"

inductive_cases cache_stepE: "cache_step hmac secret s t"

definition cache_init :: "cache_state \<Rightarrow> bool" where
  "cache_init s \<longleftrightarrow> cache s = Map.empty \<and> accepted s = []"

text \<open>
  An accepted token is either past its expiry or still in the cache under its own expiry;
  and no token occurs twice among the accepted ones.
\<close>

definition spent :: "(string \<Rightarrow> string \<Rightarrow> string) \<Rightarrow> string \<Rightarrow> cache_state \<Rightarrow> string \<Rightarrow> bool" where
  "spent hmac secret s token \<longleftrightarrow>
     (\<exists>p uid now. checkStepUpToken hmac secret token uid now = Inr p \<and>
        (su_Exp p < Unix (clock s) \<or> cache s (su_JTI p) = Some (su_Exp p)))"

definition cache_inv :: "(string \<Rightarrow> string \<Rightarrow> string) \<Rightarrow> string \<Rightarrow> cache_state \<Rightarrow> bool" where
  "cache_inv hmac secret s \<longleftrightarrow>
     distinct (accepted s) \<and> (\<forall>token \<in> set (accepted s). spent hmac secret s token)"

lemma spent_rejected:
  assumes "spent hmac secret s token" "clock s \<le> now"
  shows "VerifyStepUpToken hmac secret token uid now (cache s) = (Inl ErrStepUpRequired, cache s)"
proof -
  obtain p u n where p: "checkStepUpToken hmac secret token u n = Inr p"
    and d: "su_Exp p < Unix (clock s) \<or> cache s (su_JTI p) = Some (su_Exp p)"
    using assms(1) by (auto simp: spent_def)
  have "VerifyStepUpToken hmac secret token uid now (cache s) \<noteq> (Inr (), c')" for c'
  proof
    assume "VerifyStepUpToken hmac secret token uid now (cache s) = (Inr (), c')"
    then obtain q where q: "checkStepUpToken hmac secret token uid now = Inr q"
      and n: "cache s (su_JTI q) = None"
      by (auto simp: VerifyStepUpToken_Inr_iff)
    with p have "q = p" by (metis checkStepUpToken_payload_unique)
    moreover have "Unix now \<le> su_Exp q" using q by (simp add: checkStepUpToken_Inr_iff)
    moreover have "Unix (clock s) \<le> Unix now" using assms(2) by (rule Unix_mono)
    ultimately show False using d n by auto
  qed
  then show ?thesis
    using VerifyStepUpToken_Inl [of hmac secret token uid now "cache s"]
    by (cases "VerifyStepUpToken hmac secret token uid now (cache s)"; cases "fst (VerifyStepUpToken hmac secret token uid now (cache s))") auto
qed

lemma spent_later:
  assumes "spent hmac secret s token" "clock s \<le> clock t"
    and "\<And>j e. cache s j = Some e \<Longrightarrow> cache t j = Some e \<or> e < Unix (clock t)"
  shows "spent hmac secret t token"
proof -
  obtain p u n where p: "checkStepUpToken hmac secret token u n = Inr p"
    and d: "su_Exp p < Unix (clock s) \<or> cache s (su_JTI p) = Some (su_Exp p)"
    using assms(1) by (auto simp: spent_def)
  then have "su_Exp p < Unix (clock t) \<or> cache t (su_JTI p) = Some (su_Exp p)"
    using assms(3) [of "su_JTI p" "su_Exp p"] Unix_mono [OF assms(2)] by auto
  with p show ?thesis unfolding spent_def by blast
qed

lemma cache_step_inv:
  assumes "cache_step hmac secret s t" "cache_inv hmac secret s"
  shows "cache_inv hmac secret t"
  using assms(1)
proof cases
  case (accept now token uid c)
  then obtain p where p: "checkStepUpToken hmac secret token uid now = Inr p"
    "cache s (su_JTI p) = None" "c = (cache s)(su_JTI p \<mapsto> su_Exp p)"
    by (auto simp: VerifyStepUpToken_Inr_iff)
  have "token \<notin> set (accepted s)"
    using assms(2) accept spent_rejected [of hmac secret s token now uid]
    by (auto simp: cache_inv_def)
  moreover have "spent hmac secret t token"
    using accept p by (auto simp: spent_def)
  moreover have "spent hmac secret t token'" if "token' \<in> set (accepted s)" for token'
    using that assms(2) accept p
    by (intro spent_later [of hmac secret s token' t]) (auto simp: cache_inv_def)
  ultimately show ?thesis
    using assms(2) accept by (auto simp: cache_inv_def)
next
  case (reject now token uid e c)
  then have "c = cache s" by (auto dest: VerifyStepUpToken_Inl)
  then show ?thesis
    using assms(2) reject spent_later [of hmac secret s _ t]
    by (auto simp: cache_inv_def)
next
  case (prune now)
  then have "cache t j = Some e \<or> e < Unix (clock t)" if "cache s j = Some e" for j e
    using that by (simp add: janitor_tick_def)
  then show ?thesis
    using assms(2) prune spent_later [of hmac secret s _ t]
    by (auto simp: cache_inv_def)
qed

interpretation stepup_cache: invariant_system cache_init "cache_step hmac secret" "cache_inv hmac secret"
  for hmac secret
  by unfold_locales (simp add: cache_init_def cache_inv_def, rule cache_step_inv)

section \<open>Check and record as separate steps\<close>

text \<open>
  Several requests run at once, and \<open>VerifyStepUpToken\<close> reads the clock before it records
  the \<open>jti\<close>. Here the two halves are separate steps: \<open>check\<close> leaves a request waiting with
  its payload, \<open>store\<close> is its \<open>LoadOrStore\<close>, and the janitor may run in between.
\<close>

record race_state = cache_state +
  waiting :: "(string \<times> stepUpPayload) list"

inductive race_step ::
  "(string \<Rightarrow> string \<Rightarrow> string) \<Rightarrow> string \<Rightarrow> race_state \<Rightarrow> race_state \<Rightarrow> bool"
  for hmac secret where
  check: "clock s \<le> now \<Longrightarrow> checkStepUpToken hmac secret token uid now = Inr p \<Longrightarrow>
     race_step hmac secret s (s\<lparr>clock := now, waiting := (token, p) # waiting s\<rparr>)"
| store: "(token, p) \<in> set (waiting s) \<Longrightarrow>
     isConsumedJTI (cache s) (su_JTI p) (su_Exp p) = (False, c) \<Longrightarrow>
     race_step hmac secret s
       (s\<lparr>cache := c, accepted := token # accepted s, waiting := remove1 (token, p) (waiting s)\<rparr>)"
| replay: "(token, p) \<in> set (waiting s) \<Longrightarrow>
     isConsumedJTI (cache s) (su_JTI p) (su_Exp p) = (True, c) \<Longrightarrow>
     race_step hmac secret s (s\<lparr>cache := c, waiting := remove1 (token, p) (waiting s)\<rparr>)"
| tick: "clock s \<le> now \<Longrightarrow>
     race_step hmac secret s (s\<lparr>cache := janitor_tick now (cache s), clock := now\<rparr>)"

definition race_init :: "race_state \<Rightarrow> bool" where
  "race_init s \<longleftrightarrow> cache s = Map.empty \<and> accepted s = [] \<and> waiting s = []"

definition payload_of :: "(string \<Rightarrow> string \<Rightarrow> string) \<Rightarrow> string \<Rightarrow> string \<Rightarrow> stepUpPayload \<Rightarrow> bool" where
  "payload_of hmac secret token p \<longleftrightarrow> (\<exists>uid now. checkStepUpToken hmac secret token uid now = Inr p)"

lemma payload_of_unique: "payload_of hmac secret token p \<Longrightarrow> payload_of hmac secret token q \<Longrightarrow> p = q"
  by (auto simp: payload_of_def dest: checkStepUpToken_payload_unique)

text \<open>
  Up to its expiry, a token that was accepted is in the cache and was accepted once.
\<close>

definition race_inv :: "(string \<Rightarrow> string \<Rightarrow> string) \<Rightarrow> string \<Rightarrow> race_state \<Rightarrow> bool" where
  "race_inv hmac secret s \<longleftrightarrow>
     (\<forall>(token, p) \<in> set (waiting s). payload_of hmac secret token p) \<and>
     (\<forall>token p. payload_of hmac secret token p \<longrightarrow> Unix (clock s) \<le> su_Exp p \<longrightarrow>
        count_list (accepted s) token \<le> 1 \<and>
        (token \<in> set (accepted s) \<longrightarrow> cache s (su_JTI p) = Some (su_Exp p)))"

lemma race_invD:
  assumes "race_inv hmac secret s"
  shows "(token, p) \<in> set (waiting s) \<Longrightarrow> payload_of hmac secret token p"
    and "payload_of hmac secret token p \<Longrightarrow> Unix (clock s) \<le> su_Exp p \<Longrightarrow> count_list (accepted s) token \<le> 1"
    and "payload_of hmac secret token p \<Longrightarrow> Unix (clock s) \<le> su_Exp p \<Longrightarrow> token \<in> set (accepted s)
           \<Longrightarrow> cache s (su_JTI p) = Some (su_Exp p)"
  using assms by (auto simp: race_inv_def)

lemma race_invI:
  assumes "\<And>token p. (token, p) \<in> set (waiting s) \<Longrightarrow> payload_of hmac secret token p"
    and "\<And>token p. payload_of hmac secret token p \<Longrightarrow> Unix (clock s) \<le> su_Exp p \<Longrightarrow>
           count_list (accepted s) token \<le> 1 \<and>
           (token \<in> set (accepted s) \<longrightarrow> cache s (su_JTI p) = Some (su_Exp p))"
  shows "race_inv hmac secret s"
  using assms by (auto simp: race_inv_def)

lemma race_step_inv:
  assumes "race_step hmac secret s t" "race_inv hmac secret s"
  shows "race_inv hmac secret t"
  using assms(1)
proof cases
  case (check now token uid p)
  note inv = race_invD [OF assms(2)]
  have le: "Unix (clock s) \<le> Unix now" using check by (simp add: Unix_mono)
  show ?thesis
  proof (rule race_invI)
    fix tok q
    assume "(tok, q) \<in> set (waiting t)"
    then show "payload_of hmac secret tok q"
      using check inv(1) by (auto simp: payload_of_def)
  next
    fix tok q
    assume "payload_of hmac secret tok q" "Unix (clock t) \<le> su_Exp q"
    then show "count_list (accepted t) tok \<le> 1 \<and>
        (tok \<in> set (accepted t) \<longrightarrow> cache t (su_JTI q) = Some (su_Exp q))"
      using check inv(2,3) [of tok q] le by auto
  qed
next
  case (store token p c)
  note inv = race_invD [OF assms(2)]
  have c: "cache s (su_JTI p) = None" "c = (cache s)(su_JTI p \<mapsto> su_Exp p)"
    using store by (auto simp: isConsumedJTI_def storeConsumedJTI_def split: option.splits)
  have pl: "payload_of hmac secret token p" using store inv(1) by blast
  show ?thesis
  proof (rule race_invI)
    fix tok q
    assume "(tok, q) \<in> set (waiting t)"
    then show "payload_of hmac secret tok q"
      using store inv(1) by (auto dest: set_remove1_subset [THEN subsetD])
  next
    fix tok q
    assume q: "payload_of hmac secret tok q" "Unix (clock t) \<le> su_Exp q"
    then have le: "Unix (clock s) \<le> su_Exp q" using store by simp
    show "count_list (accepted t) tok \<le> 1 \<and>
        (tok \<in> set (accepted t) \<longrightarrow> cache t (su_JTI q) = Some (su_Exp q))"
    proof (cases "tok = token")
      case True
      with q pl have "q = p" by (metis payload_of_unique)
      with True inv(3) [OF q(1) le] c have "token \<notin> set (accepted s)" by auto
      then show ?thesis
        using True \<open>q = p\<close> store c by (auto simp: count_list_0_iff)
    next
      case False
      then show ?thesis
        using store c inv(2,3) [OF q(1) le] by (auto simp: count_list_0_iff)
    qed
  qed
next
  case (replay token p c)
  then have "c = cache s"
    by (auto simp: isConsumedJTI_def storeConsumedJTI_def split: option.splits)
  with replay show ?thesis
    using assms(2) by (auto simp: race_inv_def dest: set_remove1_subset [THEN subsetD])
next
  case (tick now)
  note inv = race_invD [OF assms(2)]
  have le: "Unix (clock s) \<le> Unix now" using tick by (simp add: Unix_mono)
  show ?thesis
  proof (rule race_invI)
    fix tok q
    assume "payload_of hmac secret tok q" "Unix (clock t) \<le> su_Exp q"
    then show "count_list (accepted t) tok \<le> 1 \<and>
        (tok \<in> set (accepted t) \<longrightarrow> cache t (su_JTI q) = Some (su_Exp q))"
      using tick inv(2,3) [of tok q] le by (auto simp: janitor_tick_def)
  qed (use tick inv(1) in auto)
qed

interpretation stepup_race: invariant_system race_init "race_step hmac secret" "race_inv hmac secret"
  for hmac secret
  by unfold_locales (simp add: race_init_def race_inv_def, rule race_step_inv)

section \<open>Properties\<close>

interpretation consumed: put_once "\<lambda>c jti. c jti" "\<lambda>c jti exp. map_prod Not id (storeConsumedJTI c jti exp)" "\<lambda>_ _ _. True"
  by unfold_locales (auto simp: storeConsumedJTI_def)

text \<open>
  C1. Single use of step-up tokens: in every execution of the process (any interleaving of
  verifications of any tokens for any accounts and of janitor ticks, on a clock that never
  runs backwards), no token is accepted twice, although the janitor forgets used tokens.
\<close>

theorem stepup_single_use:
  assumes "cache_init s0" "(cache_step hmac secret)\<^sup>*\<^sup>* s0 s"
  shows "distinct (accepted s)"
  using stepup_cache.reachable_inv [OF assms] by (simp add: cache_inv_def)

theorem stepup_single_use_witness:
  "\<exists>token c. (cache_step (\<lambda>k m. m) ''k'')\<^sup>*\<^sup>*
      \<lparr>cache = Map.empty, clock = 0, accepted = []\<rparr> \<lparr>cache = c, clock = second, accepted = [token]\<rparr> \<and>
     distinct (accepted \<lparr>cache = c, clock = second, accepted = [token]\<rparr>)"
proof -
  let ?s = "\<lparr>cache = Map.empty, clock = 0, accepted = []\<rparr>"
  obtain token jti exp where i:
    "IssueStepUpToken (\<lambda>k m. m) ''k'' 7 StepUpTTL (Some ''0123456789abcdef'') 0 = Inr (token, jti, exp)"
    by (simp add: IssueStepUpToken_def Let_def)
  then have "exp = StepUpTTL" by (simp add: IssueStepUpToken_def Let_def)
  then have "in_int64 7" "in_int64 (Unix exp)"
    by (simp_all add: in_int64_def Unix_def StepUpTTL_def second_def)
  note ck = checkStepUpToken_issued [OF i this, of 7 second]
  have v: "VerifyStepUpToken (\<lambda>k m. m) ''k'' token 7 second (cache ?s) = (Inr (), [jti \<mapsto> 300])"
    unfolding VerifyStepUpToken_def ck
    by (simp add: isConsumedJTI_def storeConsumedJTI_def Unix_def StepUpTTL_def second_def)
  have "cache_step (\<lambda>k m. m) ''k'' ?s \<lparr>cache = [jti \<mapsto> 300], clock = second, accepted = [token]\<rparr>"
    using cache_step.accept [OF _ v] by (simp add: second_def)
  then have r: "(cache_step (\<lambda>k m. m) ''k'')\<^sup>*\<^sup>* ?s \<lparr>cache = [jti \<mapsto> 300], clock = second, accepted = [token]\<rparr>"
    by (rule r_into_rtranclp)
  have "cache_init ?s" by (simp add: cache_init_def)
  from stepup_single_use [OF this r] r show ?thesis by blast
qed

text \<open>
  Single use under interleaving: even when the check of a token and the recording of
  its \<open>jti\<close> are separate steps with other requests and the janitor in between, a token that
  has been accepted twice is past its expiry; up to and including the second of its expiry it
  is accepted at most once.
\<close>

theorem stepup_single_use_until_expiry:
  assumes "race_init s0" "(race_step hmac secret)\<^sup>*\<^sup>* s0 s"
    and "checkStepUpToken hmac secret token uid now = Inr p" "1 < count_list (accepted s) token"
  shows "su_Exp p < Unix (clock s)"
proof (rule ccontr)
  assume "\<not> su_Exp p < Unix (clock s)"
  moreover have "payload_of hmac secret token p" using assms(3) by (auto simp: payload_of_def)
  ultimately show False
    using race_invD(2) [OF stepup_race.reachable_inv [OF assms(1,2)]] assms(4) by fastforce
qed

lemma race_replay_example:
  assumes "IssueStepUpToken hmac secret 7 StepUpTTL (Some raw) 0 = Inr (token, jti, exp)"
  defines "p \<equiv> \<lparr>su_UserAccountID = 7, su_Purpose = stepUpPurpose, su_JTI = jti, su_Exp = 300\<rparr>"
  shows "checkStepUpToken hmac secret token 7 (300 * second) = Inr p"
    and "(race_step hmac secret)\<^sup>*\<^sup>*
      \<lparr>cache = Map.empty, clock = 0, accepted = [], waiting = []\<rparr>
      \<lparr>cache = [jti \<mapsto> 300], clock = 301 * second, accepted = [token, token], waiting = []\<rparr>"
proof -
  have "exp = StepUpTTL"
    using assms(1) by (auto simp: IssueStepUpToken_def Let_def split: if_splits)
  then have "in_int64 7" "in_int64 (Unix exp)"
    by (simp_all add: in_int64_def Unix_def StepUpTTL_def second_def)
  from checkStepUpToken_issued [OF assms(1) this, of 7 "300 * second"]
  show ck: "checkStepUpToken hmac secret token 7 (300 * second) = Inr p"
    by (simp add: p_def Unix_def StepUpTTL_def second_def)
  let ?S = "\<lambda>c t a w. \<lparr>cache = c, clock = t, accepted = a, waiting = w\<rparr>"
  have 1: "race_step hmac secret (?S Map.empty 0 [] []) (?S Map.empty (300 * second) [] [(token, p)])"
    using race_step.check [OF _ ck, of "?S Map.empty 0 [] []"] by (simp add: second_def)
  have 2: "race_step hmac secret (?S Map.empty (300 * second) [] [(token, p)])
      (?S Map.empty (300 * second) [] [(token, p), (token, p)])"
    using race_step.check [OF _ ck, of "?S Map.empty (300 * second) [] [(token, p)]"] by simp
  have 3: "race_step hmac secret (?S Map.empty (300 * second) [] [(token, p), (token, p)])
      (?S [jti \<mapsto> 300] (300 * second) [token] [(token, p)])"
    using race_step.store [of token p "?S Map.empty (300 * second) [] [(token, p), (token, p)]"
        "[jti \<mapsto> 300]" hmac secret]
    by (simp add: isConsumedJTI_def storeConsumedJTI_def p_def)
  have "janitor_tick (301 * second) [jti \<mapsto> 300] = Map.empty"
    by (rule ext) (simp add: janitor_tick_def Unix_def second_def)
  then have 4: "race_step hmac secret (?S [jti \<mapsto> 300] (300 * second) [token] [(token, p)])
      (?S Map.empty (301 * second) [token] [(token, p)])"
    using race_step.tick [of "?S [jti \<mapsto> 300] (300 * second) [token] [(token, p)]" "301 * second" hmac secret]
    by (simp add: second_def)
  have 5: "race_step hmac secret (?S Map.empty (301 * second) [token] [(token, p)])
      (?S [jti \<mapsto> 300] (301 * second) [token, token] [])"
    using race_step.store [of token p "?S Map.empty (301 * second) [token] [(token, p)]"
        "[jti \<mapsto> 300]" hmac secret]
    by (simp add: isConsumedJTI_def storeConsumedJTI_def p_def)
  show "(race_step hmac secret)\<^sup>*\<^sup>* (?S Map.empty 0 [] []) (?S [jti \<mapsto> 300] (301 * second) [token, token] [])"
    using 1 2 3 4 5 by (meson converse_rtranclp_into_rtranclp rtranclp.rtrancl_refl)
qed

theorem stepup_single_use_until_expiry_witness:
  "\<exists>token c. (race_step (\<lambda>k m. m) ''k'')\<^sup>*\<^sup>*
      \<lparr>cache = Map.empty, clock = 0, accepted = [], waiting = []\<rparr>
      \<lparr>cache = c, clock = 301 * second, accepted = [token, token], waiting = []\<rparr> \<and>
     300 < Unix (301 * second)"
proof -
  obtain token jti exp where i:
    "IssueStepUpToken (\<lambda>k m. m) ''k'' 7 StepUpTTL (Some ''0123456789abcdef'') 0 = Inr (token, jti, exp)"
    by (simp add: IssueStepUpToken_def Let_def)
  note ex = race_replay_example [OF i]
  have "race_init \<lparr>cache = Map.empty, clock = 0, accepted = [], waiting = []\<rparr>"
    by (simp add: race_init_def)
  from stepup_single_use_until_expiry [OF this ex(2) ex(1)] ex(2) show ?thesis
    by auto
qed

text \<open>
  The residual race: there is an execution in which one step-up token authorises two
  requests. Both requests pass the expiry check in the last second of the token's life, the
  first records the \<open>jti\<close>, the janitor prunes it one second later, and the second request's
  \<open>LoadOrStore\<close> then finds no entry. The comment on \<open>StartStepUpJanitor\<close> takes pruning to
  be harmless because \<open>VerifyStepUpToken\<close> rejects expired tokens regardless.
\<close>

theorem stepup_replay_race:
  "\<exists>hmac secret s0 s token. race_init s0 \<and> (race_step hmac secret)\<^sup>*\<^sup>* s0 s \<and>
     count_list (accepted s) token = 2"
proof -
  obtain token jti exp where i:
    "IssueStepUpToken (\<lambda>k m. m) ''k'' 7 StepUpTTL (Some ''0123456789abcdef'') 0 = Inr (token, jti, exp)"
    by (simp add: IssueStepUpToken_def Let_def)
  have "race_init \<lparr>cache = Map.empty, clock = 0, accepted = [], waiting = []\<rparr>"
    by (simp add: race_init_def)
  with race_replay_example(2) [OF i] show ?thesis
    by (intro exI [of _ "\<lambda>k m. m"] exI [of _ "''k''"] exI conjI) auto
qed

text \<open>
  What an accepted step-up token proves: the signing secret is not empty, the token is
  \<open>header.payload.signature\<close> with the fixed header and the MAC of the first two parts, its
  purpose is \<open>credential_change\<close>, it is bound to the account it is presented for, it has not
  expired, its \<open>jti\<close> had not been used, and the \<open>jti\<close> is recorded; a refused token changes
  nothing.
\<close>

theorem VerifyStepUpToken_sound:
  "(VerifyStepUpToken hmac secret token uid now c = (Inr (), c') \<longleftrightarrow>
     secret \<noteq> [] \<and>
     (\<exists>enc bytes p. CHR ''.'' \<notin> set enc \<and>
        token = stepUpHeader @ ''.'' @ enc @ ''.'' @ RawURL_encode (hmac secret (stepUpHeader @ ''.'' @ enc)) \<and>
        RawURL_decode enc = Some bytes \<and> unmarshal_stepUpPayload bytes = Some p \<and>
        su_Purpose p = ''credential_change'' \<and> su_UserAccountID p = uid \<and> Unix now \<le> su_Exp p \<and>
        c (su_JTI p) = None \<and> c' = c(su_JTI p \<mapsto> su_Exp p))) \<and>
   (\<forall>e. VerifyStepUpToken hmac secret token uid now c = (Inl e, c') \<longrightarrow> c' = c)"
  using VerifyStepUpToken_Inl [of hmac secret token uid now c]
  by (auto simp: VerifyStepUpToken_Inr_iff checkStepUpToken_Inr_iff stepup_sig_def stepUpPurpose_def)

theorem VerifyStepUpToken_sound_witness:
  "snd (VerifyStepUpToken (\<lambda>k m. m) ''k'' ''a.b'' 1 0 Map.empty) = Map.empty"
proof -
  have "VerifyStepUpToken (\<lambda>k m. m) ''k'' ''a.b'' 1 0 Map.empty = (Inl ErrStepUpRequired, Map.empty)"
    by (simp add: VerifyStepUpToken_def checkStepUpToken_def)
  with VerifyStepUpToken_sound [of "\<lambda>k m. m" "''k''" "''a.b''" 1 0 Map.empty Map.empty]
  show ?thesis by simp
qed

text \<open>
  Issue then verify: a token issued for an account is accepted for that account up to and
  including the second of its expiry while its \<open>jti\<close> is unused, and is refused for every
  other account, after its expiry, and once used. (Account id and expiry fit \<open>int64\<close>.)
\<close>

theorem IssueStepUpToken_verifies:
  assumes "IssueStepUpToken hmac secret uid ttl (Some raw) issued = Inr (token, jti, exp)"
    and "in_int64 uid" "in_int64 (Unix exp)"
  shows "VerifyStepUpToken hmac secret token uid' now c =
    (if uid' = uid \<and> Unix now \<le> Unix (issued + ttl) \<and> c jti = None
     then (Inr (), c(jti \<mapsto> Unix (issued + ttl))) else (Inl ErrStepUpRequired, c))"
  by (auto simp: VerifyStepUpToken_def checkStepUpToken_issued [OF assms] isConsumedJTI_def
      storeConsumedJTI_def split: option.splits)

theorem IssueStepUpToken_verifies_witness:
  "\<exists>token jti exp.
     IssueStepUpToken (\<lambda>k m. k @ m) ''k'' 7 StepUpTTL (Some ''0123456789abcdef'') 0 = Inr (token, jti, exp) \<and>
     VerifyStepUpToken (\<lambda>k m. k @ m) ''k'' token 7 second Map.empty = (Inr (), [jti \<mapsto> 300])"
proof -
  obtain token jti exp where i:
    "IssueStepUpToken (\<lambda>k m. k @ m) ''k'' 7 StepUpTTL (Some ''0123456789abcdef'') 0 = Inr (token, jti, exp)"
    by (simp add: IssueStepUpToken_def Let_def)
  then have e: "exp = StepUpTTL" by (simp add: IssueStepUpToken_def Let_def)
  have b: "in_int64 7" "in_int64 (Unix exp)"
    by (simp_all add: in_int64_def e Unix_def StepUpTTL_def second_def)
  show ?thesis
    using i IssueStepUpToken_verifies [OF i b, of 7 second Map.empty]
    by (auto simp: Unix_def StepUpTTL_def second_def)
qed

end
