(* ===== verification/Jwt.thy ===== *)
theory Jwt
  imports StepUp
begin

text \<open>
  Local JWTs: \<open>api/internal/auth/jwt.go\<close> (the verifier), \<open>signer.go\<close>, \<open>local_jwt.go\<close>
  and \<open>derived_keys.go\<close> of the same package, and \<open>ValidateKID\<close> of
  \<open>api/internal/config/jwt_signing.go\<close>.

  The cryptographic primitives are the fields of a record \<open>crypto\<close> that every definition
  takes. The JWT library (\<open>github.com/golang-jwt/jwt\<close>) is the argument \<open>jwt_sign\<close>, and the
  OIDC library's discovery and token verification are arguments too. Claims are JSON members;
  a numeric claim is an integer.
\<close>

record crypto =
  hmac_sha256 :: "string \<Rightarrow> string \<Rightarrow> string"           \<comment> \<open>key, message\<close>
  ed_public :: "string \<Rightarrow> string"                         \<comment> \<open>public half of a private key\<close>
  ed_verify :: "string \<Rightarrow> string \<Rightarrow> string \<Rightarrow> bool"       \<comment> \<open>public key, message, signature\<close>
  ed_seed :: "string \<Rightarrow> string"                           \<comment> \<open>seed of a private key\<close>
  hkdf_key :: "string \<Rightarrow> string \<Rightarrow> nat \<Rightarrow> string option"  \<comment> \<open>seed, label, length\<close>

section \<open>Local-auth configuration\<close>

definition JWTAlgHS256 :: string where "JWTAlgHS256 = ''HS256''"
definition JWTAlgEdDSA :: string where "JWTAlgEdDSA = ''EdDSA''"
definition ed25519_PrivateKeySize :: nat where "ed25519_PrivateKeySize = 64"
definition ed25519_PublicKeySize :: nat where "ed25519_PublicKeySize = 32"
definition ed25519_SignatureSize :: nat where "ed25519_SignatureSize = 64"
definition maxJWTKIDLen :: nat where "maxJWTKIDLen = 128"
definition maxVerifyKeys :: nat where "maxVerifyKeys = 32"

text \<open>
  A Go map of keys is a list of entries with distinct keys, in the order a \<open>range\<close> loop
  happens to visit them. A nil signing key is the empty string.
\<close>

record LocalAuthConfig =
  JWTSecret :: string
  JWTAlg :: string
  JWTSigningKey :: string
  JWTSigningKID :: string
  JWTVerifyPublicKeys :: "(string \<times> string) list"
  EmailCodeTTL :: int
  PasswordResetTTL :: int
  LocalIssuer :: string

datatype jwt_error =
    KIDTooLong | KIDChars | EmptyHS256Secret | NoPublicKeys | BadKID jwt_error
  | BadPublicKeyLength | DuplicateKID | TooManyKeys | NoTokenSource | LocalIssuerRequired
  | InvalidSigningKey | KIDConflict | UnsupportedJWTAlg | DiscoveryFailed
  | InvalidFormat | InvalidHeader | StepUpNotBearer | HS256NotAccepted | InvalidSignature
  | EdDSANotAccepted | InvalidKid | UnknownKid | UnsupportedAlg | DecodePayload
  | UnmarshalClaims | IssuerMismatch | TokenExpired | ParseOIDCClaims | VerificationFailed
  | NilSigner | SignFailed | DerivedKeyInvalid | DerivedKeyDerive | DerivedKeyUnavailable

definition ValidateKID :: "string \<Rightarrow> (jwt_error, unit) result" where
  "ValidateKID kid =
     (if length kid > maxJWTKIDLen then Inl KIDTooLong
      else if \<exists>c \<in> set kid. byte c \<le> 32 \<or> 127 \<le> byte c then Inl KIDChars
      else Inr ())"

section \<open>Derived keys\<close>

definition LabelOAuthState :: string where "LabelOAuthState = ''mod-users/v1/oauth-state''"
definition LabelStepUp :: string where "LabelStepUp = ''mod-users/v1/step-up''"
definition derivedKeyLen :: nat where "derivedKeyLen = 32"

definition deriveKey :: "crypto \<Rightarrow> string \<Rightarrow> string \<Rightarrow> (jwt_error, string) result" where
  "deriveKey C key label =
     (if length key \<noteq> ed25519_PrivateKeySize then Inl DerivedKeyInvalid
      else (case hkdf_key C (ed_seed C key) label derivedKeyLen of
              None \<Rightarrow> Inl DerivedKeyDerive
            | Some out \<Rightarrow> Inr out))"

definition resolveKey :: "crypto \<Rightarrow> LocalAuthConfig \<Rightarrow> string \<Rightarrow> (jwt_error, string) result" where
  "resolveKey C lc label =
     (if TrimSpace (JWTSecret lc) \<noteq> [] then Inr (JWTSecret lc)
      else if JWTAlg lc = JWTAlgEdDSA \<and> JWTSigningKey lc \<noteq> [] then
        (case deriveKey C (JWTSigningKey lc) label of
           Inl e \<Rightarrow> Inl e
         | Inr k \<Rightarrow> if k = [] then Inl DerivedKeyDerive else Inr k)
      else Inl DerivedKeyUnavailable)"

definition OAuthStateKey :: "crypto \<Rightarrow> LocalAuthConfig \<Rightarrow> (jwt_error, string) result" where
  "OAuthStateKey C lc = resolveKey C lc LabelOAuthState"

definition StepUpKey :: "crypto \<Rightarrow> LocalAuthConfig \<Rightarrow> (jwt_error, string) result" where
  "StepUpKey C lc = resolveKey C lc LabelStepUp"

section \<open>Building a verifier\<close>

type_synonym claims = "(string \<times> json) list"

text \<open>The OIDC token verifier of the library: the token's claims, or a failure.\<close>

type_synonym oidc_verifier = "string \<Rightarrow> (jwt_error, claims) result option"

record Verifier =
  oidcVerifier :: "oidc_verifier option"
  localSecret :: string
  localIssuer :: string
  edKeys :: "string \<rightharpoonup> string"

record verifierConfig =
  vc_issuerURL :: string
  vc_clientID :: string
  vc_secret :: string
  vc_localIssuer :: string
  vc_edKeys :: "(string \<times> string) list"
  vc_insecureSkipTLSVerify :: bool

definition empty_verifierConfig :: verifierConfig where
  "empty_verifierConfig =
     \<lparr>vc_issuerURL = [], vc_clientID = [], vc_secret = [], vc_localIssuer = [], vc_edKeys = [],
      vc_insecureSkipTLSVerify = False\<rparr>"

type_synonym VerifierOption = "verifierConfig \<Rightarrow> (jwt_error, verifierConfig) result"

definition WithOIDC :: "string \<Rightarrow> string \<Rightarrow> VerifierOption" where
  "WithOIDC issuerURL clientID c = Inr (c\<lparr>vc_issuerURL := issuerURL, vc_clientID := clientID\<rparr>)"

definition WithInsecureSkipTLSVerify :: VerifierOption where
  "WithInsecureSkipTLSVerify c = Inr (c\<lparr>vc_insecureSkipTLSVerify := True\<rparr>)"

definition WithHS256Secret :: "string \<Rightarrow> VerifierOption" where
  "WithHS256Secret secret c =
     (if secret = [] then Inl EmptyHS256Secret else Inr (c\<lparr>vc_secret := secret\<rparr>))"

definition WithLocalIssuer :: "string \<Rightarrow> VerifierOption" where
  "WithLocalIssuer issuer c = Inr (c\<lparr>vc_localIssuer := issuer\<rparr>)"

fun add_ed_keys :: "(string \<times> string) list \<Rightarrow> VerifierOption" where
  "add_ed_keys [] c = Inr c"
| "add_ed_keys ((kid, k) # ks) c =
     (case ValidateKID kid of
        Inl e \<Rightarrow> Inl (BadKID e)
      | Inr _ \<Rightarrow>
          if length k \<noteq> ed25519_PublicKeySize then Inl BadPublicKeyLength
          else if kid \<in> fst ` set (vc_edKeys c) then Inl DuplicateKID
          else if length (vc_edKeys c) \<ge> maxVerifyKeys then Inl TooManyKeys
          else add_ed_keys ks (c\<lparr>vc_edKeys := (kid, k) # vc_edKeys c\<rparr>))"

definition WithEd25519PublicKeys :: "(string \<times> string) list \<Rightarrow> VerifierOption" where
  "WithEd25519PublicKeys keys c = (if keys = [] then Inl NoPublicKeys else add_ed_keys keys c)"

definition WithEd25519PublicKey :: "string \<Rightarrow> VerifierOption" where
  "WithEd25519PublicKey key = WithEd25519PublicKeys [([], key)]"

type_synonym discovery = "bool \<Rightarrow> string \<Rightarrow> string \<Rightarrow> oidc_verifier option"

text \<open>\<open>newVerifier\<close>: \<open>discover\<close> is the library's provider discovery, \<open>None\<close> on failure.\<close>

definition newVerifier :: "discovery \<Rightarrow> verifierConfig \<Rightarrow> (jwt_error, Verifier) result" where
  "newVerifier discover c =
     (let v = \<lparr>oidcVerifier = None, localSecret = vc_secret c, localIssuer = vc_localIssuer c,
               edKeys = map_of (vc_edKeys c)\<rparr>
      in if vc_issuerURL c \<noteq> [] then
           (case discover (vc_insecureSkipTLSVerify c \<and> HasPrefix (vc_issuerURL c) ''https://'')
                   (vc_issuerURL c) (vc_clientID c) of
              None \<Rightarrow> Inl DiscoveryFailed
            | Some ov \<Rightarrow> Inr (v\<lparr>oidcVerifier := Some ov\<rparr>))
         else Inr v)"

fun apply_options :: "VerifierOption option list \<Rightarrow> VerifierOption" where
  "apply_options [] c = Inr c"
| "apply_options (None # opts) c = apply_options opts c"
| "apply_options (Some opt # opts) c =
     (case opt c of Inl e \<Rightarrow> Inl e | Inr c' \<Rightarrow> apply_options opts c')"

definition NewVerifierWithOptions ::
  "discovery \<Rightarrow> VerifierOption option list \<Rightarrow> (jwt_error, Verifier) result" where
  "NewVerifierWithOptions discover opts =
     (case apply_options opts empty_verifierConfig of
        Inl e \<Rightarrow> Inl e
      | Inr c \<Rightarrow>
          let local = (vc_secret c \<noteq> [] \<or> vc_edKeys c \<noteq> [])
          in if \<not> local \<and> vc_issuerURL c = [] then Inl NoTokenSource
             else if local \<and> vc_localIssuer c = [] then Inl LocalIssuerRequired
             else newVerifier discover c)"

text \<open>Storing into a Go map: replace the entry of a present key, else add one.\<close>

definition map_put :: "string \<Rightarrow> 'v \<Rightarrow> (string \<times> 'v) list \<Rightarrow> (string \<times> 'v) list" where
  "map_put k v m = (k, v) # filter (\<lambda>e. fst e \<noteq> k) m"

definition NewLocalVerifier ::
  "crypto \<Rightarrow> discovery \<Rightarrow> LocalAuthConfig \<Rightarrow> (jwt_error, Verifier) result" where
  "NewLocalVerifier C discover lc =
     (let opts = [Some (WithLocalIssuer (LocalIssuer lc))];
          keys = JWTVerifyPublicKeys lc;
          finish = (\<lambda>opts keys. NewVerifierWithOptions discover
                     (opts @ (if keys \<noteq> [] then [Some (WithEd25519PublicKeys keys)] else [])))
      in if JWTAlg lc = [] \<or> JWTAlg lc = JWTAlgHS256 then
           finish (opts @ [Some (WithHS256Secret (JWTSecret lc))]) keys
         else if JWTAlg lc = JWTAlgEdDSA then
           (if length (JWTSigningKey lc) \<noteq> ed25519_PrivateKeySize then Inl InvalidSigningKey
            else let pub = ed_public C (JWTSigningKey lc)
                 in if map_of keys (JWTSigningKID lc) \<notin> {None, Some pub} then Inl KIDConflict
                    else finish opts (map_put (JWTSigningKID lc) pub keys))
         else Inl UnsupportedJWTAlg)"

definition NewVerifier ::
  "discovery \<Rightarrow> string \<Rightarrow> string \<Rightarrow> string \<Rightarrow> string \<Rightarrow> (jwt_error, Verifier) result" where
  "NewVerifier discover issuerURL clientID jwtSecret issuer =
     (if jwtSecret \<noteq> [] \<and> issuer = [] then Inl LocalIssuerRequired
      else newVerifier discover
        (empty_verifierConfig\<lparr>vc_issuerURL := issuerURL, vc_clientID := clientID,
           vc_secret := jwtSecret, vc_localIssuer := issuer\<rparr>))"

section \<open>Verifying a token\<close>

definition algHS256 :: string where "algHS256 = ''HS256''"
definition algEdDSA :: string where "algEdDSA = ''EdDSA''"
definition stepUpTyp :: string where "stepUpTyp = ''step-up''"

record jws_header =
  hdr_alg :: string
  hdr_typ :: string
  hdr_kid :: "json option"  \<comment> \<open>\<open>json.RawMessage\<close>: the raw value, if the member occurs\<close>

fun json_raw :: "string \<Rightarrow> json option \<Rightarrow> (string \<times> json) list \<Rightarrow> json option" where
  "json_raw name x [] = x"
| "json_raw name x ((k, v) # ms) = json_raw name (if EqualFold k name then Some v else x) ms"

definition unmarshal_header :: "string \<Rightarrow> jws_header option" where
  "unmarshal_header b =
     (case json_parse b of
        Some JNull \<Rightarrow> Some \<lparr>hdr_alg = [], hdr_typ = [], hdr_kid = None\<rparr>
      | Some (JObj ms) \<Rightarrow>
          (case (json_field ''alg'' as_string [] ms, json_field ''typ'' as_string [] ms) of
             (Some a, Some t) \<Rightarrow> Some \<lparr>hdr_alg = a, hdr_typ = t, hdr_kid = json_raw ''kid'' None ms\<rparr>
           | _ \<Rightarrow> None)
      | _ \<Rightarrow> None)"

text \<open>\<open>json.Unmarshal\<close> into \<open>map[string]any\<close>, and \<open>claims[k]\<close> (the last duplicate wins).\<close>

definition unmarshal_claims :: "string \<Rightarrow> claims option" where
  "unmarshal_claims b =
     (case json_parse b of Some JNull \<Rightarrow> Some [] | Some (JObj ms) \<Rightarrow> Some ms | _ \<Rightarrow> None)"

definition claim :: "claims \<Rightarrow> string \<Rightarrow> json option" where
  "claim ms k = map_of (rev ms) k"

definition claim_string :: "claims \<Rightarrow> string \<Rightarrow> string" where
  "claim_string ms k = (case claim ms k of Some (JStr s) \<Rightarrow> s | _ \<Rightarrow> [])"

text \<open>The signature check, by the header's algorithm and the configured key material.\<close>

definition check_signature ::
  "crypto \<Rightarrow> Verifier \<Rightarrow> jws_header \<Rightarrow> string \<Rightarrow> string \<Rightarrow> (jwt_error, unit) result" where
  "check_signature C v header signingInput sigPart =
     (if hdr_alg header = algHS256 then
        (if localSecret v = [] then Inl HS256NotAccepted
         else if sigPart \<noteq> RawURL_encode (hmac_sha256 C (localSecret v) signingInput)
           then Inl InvalidSignature
         else Inr ())
      else if hdr_alg header = algEdDSA then
        (if edKeys v = Map.empty then Inl EdDSANotAccepted
         else
           (case (case hdr_kid header of
                    None \<Rightarrow> Some []
                  | Some JNull \<Rightarrow> Some []
                  | Some (JStr s) \<Rightarrow> Some s
                  | Some _ \<Rightarrow> None) of
              None \<Rightarrow> Inl InvalidKid
            | Some kid \<Rightarrow>
                (case edKeys v kid of
                   None \<Rightarrow> Inl UnknownKid
                 | Some key \<Rightarrow>
                     (case RawURL_decode sigPart of
                        None \<Rightarrow> Inl InvalidSignature
                      | Some sig \<Rightarrow>
                          if length sig \<noteq> ed25519_SignatureSize then Inl InvalidSignature
                          else if \<not> ed_verify C key signingInput sig then Inl InvalidSignature
                          else Inr ()))))
      else Inl UnsupportedAlg)"

definition verifyLocal :: "crypto \<Rightarrow> Verifier \<Rightarrow> instant \<Rightarrow> string \<Rightarrow> (jwt_error, claims) result" where
  "verifyLocal C v now rawToken =
     (case Split rawToken (CHR ''.'') of
        [p0, p1, p2] \<Rightarrow>
          (case Option.bind (RawURL_decode p0) unmarshal_header of
             None \<Rightarrow> Inl InvalidHeader
           | Some header \<Rightarrow>
               if EqualFold (hdr_typ header) stepUpTyp then Inl StepUpNotBearer
               else
                 (case check_signature C v header (p0 @ ''.'' @ p1) p2 of
                    Inl e \<Rightarrow> Inl e
                  | Inr _ \<Rightarrow>
                      (case RawURL_decode p1 of
                         None \<Rightarrow> Inl DecodePayload
                       | Some payload \<Rightarrow>
                           (case unmarshal_claims payload of
                              None \<Rightarrow> Inl UnmarshalClaims
                            | Some cl \<Rightarrow>
                                if claim_string cl ''iss'' \<noteq> localIssuer v then Inl IssuerMismatch
                                else
                                  (case claim cl ''exp'' of
                                     Some (JInt exp) \<Rightarrow>
                                       if exp * second < now then Inl TokenExpired else Inr cl
                                   | _ \<Rightarrow> Inl TokenExpired)))))
      | _ \<Rightarrow> Inl InvalidFormat)"

text \<open>\<open>Verifier.Verify\<close>: local verification first, then the OIDC verifier if there is one.\<close>

definition Verifier_Verify :: "crypto \<Rightarrow> Verifier \<Rightarrow> instant \<Rightarrow> string \<Rightarrow> (jwt_error, claims) result" where
  "Verifier_Verify C v now rawToken =
     (case verifyLocal C v now rawToken of
        Inr cl \<Rightarrow> Inr cl
      | Inl _ \<Rightarrow>
          (case oidcVerifier v of
             None \<Rightarrow> Inl VerificationFailed
           | Some ov \<Rightarrow>
               (case ov rawToken of
                  None \<Rightarrow> Inl VerificationFailed
                | Some (Inl _) \<Rightarrow> Inl ParseOIDCClaims
                | Some (Inr cl) \<Rightarrow> Inr cl)))"

section \<open>Signing\<close>

datatype signing_key = HS256Key string | EdDSAKey string

record Signer =
  sg_key :: signing_key
  sg_kid :: string

definition NewHS256Signer :: "string \<Rightarrow> string \<Rightarrow> (jwt_error, Signer) result" where
  "NewHS256Signer secret kid =
     (if secret = [] then Inl EmptyHS256Secret else Inr \<lparr>sg_key = HS256Key secret, sg_kid = kid\<rparr>)"

definition NewEdDSASigner :: "string \<Rightarrow> string \<Rightarrow> (jwt_error, Signer) result" where
  "NewEdDSASigner key kid =
     (if length key \<noteq> ed25519_PrivateKeySize then Inl InvalidSigningKey
      else Inr \<lparr>sg_key = EdDSAKey key, sg_kid = kid\<rparr>)"

definition NewSigner :: "LocalAuthConfig \<Rightarrow> (jwt_error, Signer) result" where
  "NewSigner lc =
     (if JWTAlg lc = [] \<or> JWTAlg lc = JWTAlgHS256 then NewHS256Signer (JWTSecret lc) (JWTSigningKID lc)
      else if JWTAlg lc = JWTAlgEdDSA then NewEdDSASigner (JWTSigningKey lc) (JWTSigningKID lc)
      else Inl UnsupportedJWTAlg)"

definition Alg :: "Signer \<Rightarrow> string" where
  "Alg s = (case sg_key s of HS256Key _ \<Rightarrow> algHS256 | EdDSAKey _ \<Rightarrow> algEdDSA)"

text \<open>
  The library call: the header members beyond \<open>alg\<close> and \<open>typ\<close>, and the claims; \<open>None\<close> is a
  signing error.
\<close>

type_synonym jwt_lib = "signing_key \<Rightarrow> (string \<times> json) list \<Rightarrow> claims \<Rightarrow> string option"

definition Signer_Sign :: "jwt_lib \<Rightarrow> Signer option \<Rightarrow> claims \<Rightarrow> (jwt_error, string) result" where
  "Signer_Sign jwt_sign s cl =
     (case s of
        None \<Rightarrow> Inl NilSigner
      | Some s \<Rightarrow>
          (case jwt_sign (sg_key s) (if sg_kid s \<noteq> [] then [(''kid'', JStr (sg_kid s))] else []) cl of
             None \<Rightarrow> Inl SignFailed
           | Some t \<Rightarrow> Inr t))"

definition day :: int where
  "day = 24 * 60 * 60 * second"

text \<open>\<open>localClaims\<close>: registered claims first, then roles and the \<open>omitempty\<close> extras.\<close>

record localClaims =
  lc_iss :: string
  lc_sub :: string
  lc_exp :: int
  lc_iat :: int
  lc_roles :: "string list"
  lc_sudo :: string
  lc_anon :: bool

definition localClaims_members :: "localClaims \<Rightarrow> claims" where
  "localClaims_members c =
     (if lc_iss c \<noteq> [] then [(''iss'', JStr (lc_iss c))] else [])
     @ (if lc_sub c \<noteq> [] then [(''sub'', JStr (lc_sub c))] else [])
     @ [(''exp'', JInt (lc_exp c)), (''iat'', JInt (lc_iat c)),
        (''roles'', JArr (map JStr (lc_roles c)))]
     @ (if lc_sudo c \<noteq> [] then [(''sudo_user_uuid'', JStr (lc_sudo c))] else [])
     @ (if lc_anon c then [(''is_anonymous'', JBool True)] else [])"

definition local_claims :: "string \<Rightarrow> string \<Rightarrow> instant \<Rightarrow> localClaims" where
  "local_claims uuid issuer now =
     \<lparr>lc_iss = issuer, lc_sub = uuid, lc_exp = Unix (now + day), lc_iat = Unix now,
      lc_roles = [], lc_sudo = [], lc_anon = False\<rparr>"

definition IssueLocalJWTWithSigner ::
  "jwt_lib \<Rightarrow> string \<Rightarrow> Signer option \<Rightarrow> string \<Rightarrow> instant \<Rightarrow> (jwt_error, string) result" where
  "IssueLocalJWTWithSigner jwt_sign uuid signer issuer now =
     Signer_Sign jwt_sign signer (localClaims_members (local_claims uuid issuer now))"

definition IssueAnonymousJWTWithSigner ::
  "jwt_lib \<Rightarrow> string \<Rightarrow> Signer option \<Rightarrow> string \<Rightarrow> instant \<Rightarrow> (jwt_error, string) result" where
  "IssueAnonymousJWTWithSigner jwt_sign uuid signer issuer now =
     Signer_Sign jwt_sign signer
       (localClaims_members ((local_claims uuid issuer now)\<lparr>lc_anon := True\<rparr>))"

definition IssueAssumeJWTWithSigner ::
  "jwt_lib \<Rightarrow> string \<Rightarrow> string \<Rightarrow> Signer option \<Rightarrow> string \<Rightarrow> instant \<Rightarrow> (jwt_error, string) result" where
  "IssueAssumeJWTWithSigner jwt_sign sudoUUID actorUUID signer issuer now =
     Signer_Sign jwt_sign signer
       (localClaims_members
          ((local_claims sudoUUID issuer now)\<lparr>lc_roles := [''admin''], lc_sudo := actorUUID\<rparr>))"

definition IssueLocalJWT :: "jwt_lib \<Rightarrow> string \<Rightarrow> string \<Rightarrow> string \<Rightarrow> instant \<Rightarrow> (jwt_error, string) result" where
  "IssueLocalJWT jwt_sign uuid secret issuer now =
     (case NewHS256Signer secret [] of
        Inl e \<Rightarrow> Inl e
      | Inr s \<Rightarrow> IssueLocalJWTWithSigner jwt_sign uuid (Some s) issuer now)"

definition IssueAnonymousJWT :: "jwt_lib \<Rightarrow> string \<Rightarrow> string \<Rightarrow> string \<Rightarrow> instant \<Rightarrow> (jwt_error, string) result" where
  "IssueAnonymousJWT jwt_sign uuid secret issuer now =
     (case NewHS256Signer secret [] of
        Inl e \<Rightarrow> Inl e
      | Inr s \<Rightarrow> IssueAnonymousJWTWithSigner jwt_sign uuid (Some s) issuer now)"

definition IssueAssumeJWT ::
  "jwt_lib \<Rightarrow> string \<Rightarrow> string \<Rightarrow> string \<Rightarrow> string \<Rightarrow> instant \<Rightarrow> (jwt_error, string) result" where
  "IssueAssumeJWT jwt_sign sudoUUID actorUUID secret issuer now =
     (case NewHS256Signer secret [] of
        Inl e \<Rightarrow> Inl e
      | Inr s \<Rightarrow> IssueAssumeJWTWithSigner jwt_sign sudoUUID actorUUID (Some s) issuer now)"

section \<open>The documented token format\<close>

text \<open>
  What the JWT library documents of a signed token: three base64url parts, a header object
  with \<open>alg\<close>, the extra members and \<open>typ\<close> (keys in sorted order), the claims object, and a
  signature over the first two parts that verifies under the key.
\<close>

definition compact_jws :: "crypto \<Rightarrow> signing_key \<Rightarrow> (string \<times> json) list \<Rightarrow> claims \<Rightarrow> string \<Rightarrow> bool" where
  "compact_jws C key extra cl tok \<longleftrightarrow>
     (let alg = (case key of HS256Key _ \<Rightarrow> algHS256 | EdDSAKey _ \<Rightarrow> algEdDSA);
          input = RawURL_encode (json_print (JObj ((''alg'', JStr alg) # extra @ [(''typ'', JStr ''JWT'')]))) @
                  ''.'' @ RawURL_encode (json_print (JObj cl))
      in \<exists>sig. tok = input @ ''.'' @ RawURL_encode sig \<and>
           (case key of
              HS256Key secret \<Rightarrow> sig = hmac_sha256 C secret input
            | EdDSAKey k \<Rightarrow> length sig = 64 \<and> ed_verify C (ed_public C k) input sig))"

text \<open>
  A concrete instance of the parameters, for evaluation: a MAC that is its key, signatures of
  64 zero digits, and a token library that builds exactly the documented format.
\<close>

definition demo_crypto :: crypto where
  "demo_crypto =
     \<lparr>hmac_sha256 = (\<lambda>key msg. key @ msg), ed_public = take 32,
      ed_verify = (\<lambda>key msg sig. sig = replicate 64 (CHR ''0'')),
      ed_seed = take 32, hkdf_key = (\<lambda>seed label len. Some (take len (seed @ label)))\<rparr>"

definition demo_sign :: jwt_lib where
  "demo_sign key extra cl =
     (let alg = (case key of HS256Key _ \<Rightarrow> algHS256 | EdDSAKey _ \<Rightarrow> algEdDSA);
          input = RawURL_encode (json_print (JObj ((''alg'', JStr alg) # extra @ [(''typ'', JStr ''JWT'')]))) @
                  ''.'' @ RawURL_encode (json_print (JObj cl))
      in Some (input @ ''.'' @ RawURL_encode
           (case key of HS256Key secret \<Rightarrow> hmac_sha256 demo_crypto secret input
                      | EdDSAKey _ \<Rightarrow> replicate 64 (CHR ''0''))))"

definition demo_config :: "string \<Rightarrow> LocalAuthConfig" where
  "demo_config alg =
     \<lparr>JWTSecret = ''s'', JWTAlg = alg, JWTSigningKey = replicate 64 (CHR ''k''), JWTSigningKID = ''a'',
      JWTVerifyPublicKeys = [], EmailCodeTTL = 0, PasswordResetTTL = 0, LocalIssuer = ''urn:mod-users''\<rparr>"

section \<open>Lemmas\<close>

lemma algs_distinct [simp]: "algHS256 \<noteq> algEdDSA" "algEdDSA \<noteq> algHS256"
  by (simp_all add: algHS256_def algEdDSA_def)

lemma jwt_algs [simp]: "JWTAlgHS256 \<noteq> JWTAlgEdDSA" "JWTAlgEdDSA \<noteq> JWTAlgHS256" "JWTAlgEdDSA \<noteq> []" "[] \<noteq> JWTAlgEdDSA"
  by (simp_all add: JWTAlgHS256_def JWTAlgEdDSA_def)

lemma add_ed_keys_Inr:
  "add_ed_keys ks c = Inr c' \<Longrightarrow>
     c' = c\<lparr>vc_edKeys := rev ks @ vc_edKeys c\<rparr> \<and>
     (distinct (map fst (vc_edKeys c)) \<longrightarrow> distinct (map fst (rev ks @ vc_edKeys c)))"
proof (induction ks c rule: add_ed_keys.induct)
  case (2 kid k ks c)
  then show ?case
    by (auto split: sum.splits if_splits)
qed simp

lemma map_of_rev_distinct: "distinct (map fst xs) \<Longrightarrow> map_of (rev xs) = map_of xs"
  by (simp add: map_of_inject_set rev_map [symmetric])

lemma NewVerifierWithOptions_local:
  assumes "NewVerifierWithOptions discover
      (Some (WithLocalIssuer issuer) # opts @ (if keys \<noteq> [] then [Some (WithEd25519PublicKeys keys)] else []))
    = Inr v"
    and "opts = [] \<or> opts = [Some (WithHS256Secret secret)]" "distinct (map fst keys)"
  shows "localIssuer v = issuer" "issuer \<noteq> []" "oidcVerifier v = None" "edKeys v = map_of keys"
    and "localSecret v = (if opts = [] then [] else secret)"
    and "opts \<noteq> [] \<Longrightarrow> secret \<noteq> []"
proof -
  obtain c where c: "apply_options (Some (WithLocalIssuer issuer) # opts @
        (if keys \<noteq> [] then [Some (WithEd25519PublicKeys keys)] else [])) empty_verifierConfig = Inr c"
    using assms(1) by (auto simp: NewVerifierWithOptions_def split: sum.splits)
  have f: "vc_issuerURL c = []" "vc_localIssuer c = issuer" "vc_edKeys c = rev keys"
    "vc_secret c = (if opts = [] then [] else secret)" "opts \<noteq> [] \<Longrightarrow> secret \<noteq> []"
    using c assms(2)
    by (auto simp: WithLocalIssuer_def WithHS256Secret_def WithEd25519PublicKeys_def
        empty_verifierConfig_def split: sum.splits if_splits dest!: add_ed_keys_Inr)
  have "newVerifier discover c = Inr v" "vc_secret c \<noteq> [] \<or> vc_edKeys c \<noteq> [] \<longrightarrow> vc_localIssuer c \<noteq> []"
    "vc_secret c \<noteq> [] \<or> vc_edKeys c \<noteq> []"
    using assms(1) c f(1) by (auto simp: NewVerifierWithOptions_def Let_def split: if_splits)
  then show "localIssuer v = issuer" "issuer \<noteq> []" "oidcVerifier v = None" "edKeys v = map_of keys"
    and "localSecret v = (if opts = [] then [] else secret)" "opts \<noteq> [] \<Longrightarrow> secret \<noteq> []"
    using f assms(3) by (auto simp: newVerifier_def Let_def map_of_rev_distinct)
qed

lemma distinct_map_put: "distinct (map fst m) \<Longrightarrow> distinct (map fst (map_put k v m))"
  by (auto simp: map_put_def distinct_map_filter)

lemma map_of_map_put [simp]: "map_of (map_put k v m) = (map_of m)(k \<mapsto> v)"
proof (rule ext)
  have "x \<noteq> k \<Longrightarrow> map_of (filter (\<lambda>e. fst e \<noteq> k) m) x = map_of m x" for x
    by (induction m) auto
  then show "map_of (map_put k v m) x = ((map_of m)(k \<mapsto> v)) x" for x
    by (simp add: map_put_def)
qed

text \<open>What \<open>NewLocalVerifier\<close> builds, by algorithm.\<close>

lemma NewLocalVerifier_Inr:
  assumes "NewLocalVerifier C discover lc = Inr v" "distinct (map fst (JWTVerifyPublicKeys lc))"
  shows "localIssuer v = LocalIssuer lc" "LocalIssuer lc \<noteq> []" "oidcVerifier v = None"
    and "JWTAlg lc = JWTAlgEdDSA \<Longrightarrow> localSecret v = [] \<and>
       edKeys v = (map_of (JWTVerifyPublicKeys lc))(JWTSigningKID lc \<mapsto> ed_public C (JWTSigningKey lc))"
    and "JWTAlg lc \<noteq> JWTAlgEdDSA \<Longrightarrow> JWTAlg lc \<in> {[], JWTAlgHS256} \<and> localSecret v = JWTSecret lc \<and>
       JWTSecret lc \<noteq> [] \<and> edKeys v = map_of (JWTVerifyPublicKeys lc)"
proof -
  consider (ed) "JWTAlg lc = JWTAlgEdDSA" | (hs) "JWTAlg lc \<in> {[], JWTAlgHS256}"
    using assms(1) by (auto simp: NewLocalVerifier_def Let_def split: if_splits)
  then have "localIssuer v = LocalIssuer lc \<and> LocalIssuer lc \<noteq> [] \<and> oidcVerifier v = None \<and>
     (JWTAlg lc = JWTAlgEdDSA \<longrightarrow> localSecret v = [] \<and>
       edKeys v = (map_of (JWTVerifyPublicKeys lc))(JWTSigningKID lc \<mapsto> ed_public C (JWTSigningKey lc))) \<and>
     (JWTAlg lc \<noteq> JWTAlgEdDSA \<longrightarrow> JWTAlg lc \<in> {[], JWTAlgHS256} \<and> localSecret v = JWTSecret lc \<and>
       JWTSecret lc \<noteq> [] \<and> edKeys v = map_of (JWTVerifyPublicKeys lc))"
  proof cases
    case ed
    let ?k = "map_put (JWTSigningKID lc) (ed_public C (JWTSigningKey lc)) (JWTVerifyPublicKeys lc)"
    have "NewVerifierWithOptions discover
        (Some (WithLocalIssuer (LocalIssuer lc)) # [] @
         (if ?k \<noteq> [] then [Some (WithEd25519PublicKeys ?k)] else [])) = Inr v"
      using assms(1) ed by (auto simp: NewLocalVerifier_def Let_def split: if_splits)
    note N = NewVerifierWithOptions_local [OF this _ distinct_map_put [OF assms(2)]]
    from N(1-5) ed show ?thesis by simp
  next
    case hs
    let ?k = "JWTVerifyPublicKeys lc"
    have "NewVerifierWithOptions discover
        (Some (WithLocalIssuer (LocalIssuer lc)) # [Some (WithHS256Secret (JWTSecret lc))] @
         (if ?k \<noteq> [] then [Some (WithEd25519PublicKeys ?k)] else [])) = Inr v"
      using assms(1) hs by (auto simp: NewLocalVerifier_def Let_def split: if_splits)
    note N = NewVerifierWithOptions_local [OF this _ assms(2), where secret = "JWTSecret lc"]
    from N(1-6) hs show ?thesis by auto
  qed
  then show "localIssuer v = LocalIssuer lc" "LocalIssuer lc \<noteq> []" "oidcVerifier v = None"
    and "JWTAlg lc = JWTAlgEdDSA \<Longrightarrow> localSecret v = [] \<and>
       edKeys v = (map_of (JWTVerifyPublicKeys lc))(JWTSigningKID lc \<mapsto> ed_public C (JWTSigningKey lc))"
    and "JWTAlg lc \<noteq> JWTAlgEdDSA \<Longrightarrow> JWTAlg lc \<in> {[], JWTAlgHS256} \<and> localSecret v = JWTSecret lc \<and>
       JWTSecret lc \<noteq> [] \<and> edKeys v = map_of (JWTVerifyPublicKeys lc)"
    by auto
qed

lemma verifyLocal_InrE:
  assumes "verifyLocal C v now tok = Inr cl"
  obtains p0 p1 p2 hb h pb exp where "Split tok (CHR ''.'') = [p0, p1, p2]"
    "RawURL_decode p0 = Some hb" "unmarshal_header hb = Some h"
    "\<not> EqualFold (hdr_typ h) stepUpTyp" "check_signature C v h (p0 @ ''.'' @ p1) p2 = Inr ()"
    "RawURL_decode p1 = Some pb" "unmarshal_claims pb = Some cl"
    "claim_string cl ''iss'' = localIssuer v" "claim cl ''exp'' = Some (JInt exp)" "now \<le> exp * second"
  using assms
  by (auto simp: verifyLocal_def bind_eq_Some_conv
      split: list.splits option.splits if_splits sum.splits json.splits)

lemma check_signature_Inr:
  assumes "check_signature C v h input sigPart = Inr ()"
  shows "(hdr_alg h = algHS256 \<and> localSecret v \<noteq> [] \<and>
          sigPart = RawURL_encode (hmac_sha256 C (localSecret v) input)) \<or>
         (hdr_alg h = algEdDSA \<and> (\<exists>kid key sig. edKeys v kid = Some key \<and>
          RawURL_decode sigPart = Some sig \<and> length sig = 64 \<and> ed_verify C key input sig))"
  using assms
  by (auto simp: check_signature_def ed25519_SignatureSize_def
      split: if_splits option.splits json.splits)

lemma unmarshal_header_stepUp:
  "unmarshal_header stepUpHeader_json = Some \<lparr>hdr_alg = ''HS256'', hdr_typ = ''step-up'', hdr_kid = None\<rparr>"
  by (simp add: unmarshal_header_def stepUpHeader_json_def key_simps)

lemma unmarshal_header_jwt:
  "unmarshal_header (json_print (JObj ((''alg'', JStr a) # (if k \<noteq> [] then [(''kid'', JStr k)] else []) @ [(''typ'', JStr ''JWT'')])))
     = Some \<lparr>hdr_alg = a, hdr_typ = ''JWT'', hdr_kid = (if k \<noteq> [] then Some (JStr k) else None)\<rparr>"
  by (simp add: unmarshal_header_def key_simps)

lemma not_stepUpTyp_JWT: "\<not> EqualFold ''JWT'' stepUpTyp"
  by (simp add: stepUpTyp_def key_simps)

lemma verifyLocal_signed:
  assumes "compact_jws C (sg_key s) (if sg_kid s \<noteq> [] then [(''kid'', JStr (sg_kid s))] else []) cl tok"
    and "case sg_key s of
           HS256Key secret \<Rightarrow> localSecret v = secret \<and> secret \<noteq> []
         | EdDSAKey k \<Rightarrow> edKeys v (sg_kid s) = Some (ed_public C k)"
  shows "verifyLocal C v now tok =
    (if claim_string cl ''iss'' \<noteq> localIssuer v then Inl IssuerMismatch
     else (case claim cl ''exp'' of
             Some (JInt exp) \<Rightarrow> if exp * second < now then Inl TokenExpired else Inr cl
           | _ \<Rightarrow> Inl TokenExpired))"
proof -
  define alg where "alg = (case sg_key s of HS256Key _ \<Rightarrow> algHS256 | EdDSAKey _ \<Rightarrow> algEdDSA)"
  define hd where "hd = json_print (JObj ((''alg'', JStr alg) #
      (if sg_kid s \<noteq> [] then [(''kid'', JStr (sg_kid s))] else []) @ [(''typ'', JStr ''JWT'')]))"
  define pl where "pl = json_print (JObj cl)"
  obtain sig where tok: "tok = (RawURL_encode hd @ ''.'' @ RawURL_encode pl) @ ''.'' @ RawURL_encode sig"
    and sig: "case sg_key s of
        HS256Key secret \<Rightarrow> sig = hmac_sha256 C secret (RawURL_encode hd @ ''.'' @ RawURL_encode pl)
      | EdDSAKey k \<Rightarrow> length sig = 64 \<and>
          ed_verify C (ed_public C k) (RawURL_encode hd @ ''.'' @ RawURL_encode pl) sig"
    using assms(1) unfolding compact_jws_def alg_def hd_def pl_def Let_def
    by (auto split: signing_key.splits)
  have split: "Split tok (CHR ''.'') = [RawURL_encode hd, RawURL_encode pl, RawURL_encode sig]"
    using url.Split_enc_triple [of hd pl sig] by (simp add: tok)
  have hdr: "Option.bind (RawURL_decode (RawURL_encode hd)) unmarshal_header =
      Some \<lparr>hdr_alg = alg, hdr_typ = ''JWT'', hdr_kid = (if sg_kid s \<noteq> [] then Some (JStr (sg_kid s)) else None)\<rparr>"
    unfolding hd_def by (simp only: url.dec_enc bind.bind_lunit unmarshal_header_jwt)
  have "edKeys v (sg_kid s) = Some x \<Longrightarrow> edKeys v \<noteq> Map.empty" for x by auto
  then have chk: "check_signature C v \<lparr>hdr_alg = alg, hdr_typ = ''JWT'',
        hdr_kid = (if sg_kid s \<noteq> [] then Some (JStr (sg_kid s)) else None)\<rparr>
      (RawURL_encode hd @ ''.'' @ RawURL_encode pl) (RawURL_encode sig) = Inr ()"
    using sig assms(2)
    by (cases "sg_key s"; cases "sg_kid s = []")
       (simp_all add: check_signature_def alg_def url.dec_enc ed25519_SignatureSize_def)
  have "RawURL_decode (RawURL_encode pl) = Some pl" "unmarshal_claims pl = Some cl"
    by (simp_all add: url.dec_enc unmarshal_claims_def pl_def)
  then show ?thesis
    using split hdr chk
    by (simp add: verifyLocal_def not_stepUpTyp_JWT cong: option.case_cong)
qed

lemma claim_local_claims:
  assumes "issuer \<noteq> []"
  shows "claim_string (localClaims_members (local_claims uuid issuer now)) ''iss'' = issuer"
    and "claim (localClaims_members (local_claims uuid issuer now)) ''exp'' = Some (JInt (Unix (now + day)))"
    and "claim_string (localClaims_members (local_claims uuid issuer now)) ''sub'' = uuid"
  using assms by (auto simp: claim_string_def claim_def localClaims_members_def local_claims_def)

lemma compact_jws_demo: "demo_sign key extra cl = Some t \<Longrightarrow> compact_jws demo_crypto key extra cl t"
  by (auto simp: demo_sign_def compact_jws_def Let_def demo_crypto_def split: signing_key.splits)

lemma demo_verifier:
  "NewLocalVerifier demo_crypto d (demo_config ''HS256'') =
     Inr \<lparr>oidcVerifier = None, localSecret = ''s'', localIssuer = ''urn:mod-users'', edKeys = Map.empty\<rparr>"
  "NewLocalVerifier demo_crypto d (demo_config ''EdDSA'') =
     Inr \<lparr>oidcVerifier = None, localSecret = [], localIssuer = ''urn:mod-users'',
          edKeys = [''a'' \<mapsto> replicate 32 (CHR ''k'')]\<rparr>"
  by (simp_all add: NewLocalVerifier_def demo_config_def JWTAlgHS256_def JWTAlgEdDSA_def Let_def
      NewVerifierWithOptions_def WithLocalIssuer_def WithHS256Secret_def WithEd25519PublicKeys_def
      empty_verifierConfig_def newVerifier_def ed25519_PrivateKeySize_def map_put_def demo_crypto_def
      ValidateKID_def maxJWTKIDLen_def maxVerifyKeys_def ed25519_PublicKeySize_def byte_def)

lemma demo_signer:
  "NewSigner (demo_config ''HS256'') = Inr \<lparr>sg_key = HS256Key ''s'', sg_kid = ''a''\<rparr>"
  "NewSigner (demo_config ''EdDSA'') = Inr \<lparr>sg_key = EdDSAKey (replicate 64 (CHR ''k'')), sg_kid = ''a''\<rparr>"
  by (simp_all add: NewSigner_def demo_config_def JWTAlgHS256_def JWTAlgEdDSA_def NewHS256Signer_def
      NewEdDSASigner_def ed25519_PrivateKeySize_def)

text \<open>A token the configured signer made of a set of local claims, at the matching verifier.\<close>

lemma signed_claims_verify:
  assumes sgn: "NewSigner lc = Inr s"
    and vrf: "NewLocalVerifier C discover lc = Inr v"
    and dk: "distinct (map fst (JWTVerifyPublicKeys lc))"
    and jlib: "\<And>key extra cl t. jwt_sign key extra cl = Some t \<Longrightarrow> compact_jws C key extra cl t"
    and iss: "Signer_Sign jwt_sign (Some s) (localClaims_members c) = Inr tok" "lc_iss c = LocalIssuer lc"
  shows "verifyLocal C v now tok =
      (if now \<le> lc_exp c * second then Inr (localClaims_members c) else Inl TokenExpired)"
proof -
  note V = NewLocalVerifier_Inr [OF vrf dk]
  let ?cl = "localClaims_members c"
  have jws: "compact_jws C (sg_key s) (if sg_kid s \<noteq> [] then [(''kid'', JStr (sg_kid s))] else []) ?cl tok"
    using iss by (auto simp: Signer_Sign_def intro!: jlib split: option.splits)
  have key: "case sg_key s of
       HS256Key secret \<Rightarrow> localSecret v = secret \<and> secret \<noteq> []
     | EdDSAKey k \<Rightarrow> edKeys v (sg_kid s) = Some (ed_public C k)"
    using sgn V(4,5)
    by (auto simp: NewSigner_def NewHS256Signer_def NewEdDSASigner_def split: if_splits)
  have "claim_string ?cl ''iss'' = lc_iss c" "claim ?cl ''exp'' = Some (JInt (lc_exp c))"
    using V(2) iss(2) by (simp_all add: claim_string_def claim_def localClaims_members_def)
  with verifyLocal_signed [OF jws key, of now] V(1) iss(2) show ?thesis by simp
qed

section \<open>Properties\<close>

text \<open>
  C2. What an accepted local token proves: it has three parts; its header does not declare
  a step-up token; its algorithm is HS256 with a configured, non-empty secret whose MAC it
  carries, or EdDSA with a signature that verifies under one of the configured public keys (no
  other algorithm, in particular not \<open>none\<close>, is ever accepted); its issuer is the local
  issuer; and its expiry is not in the past.
\<close>

theorem verifyLocal_sound:
  assumes "verifyLocal C v now tok = Inr cl"
  shows "\<exists>p0 p1 p2 h.
     tok = p0 @ ''.'' @ p1 @ ''.'' @ p2 \<and>
     Option.bind (RawURL_decode p0) unmarshal_header = Some h \<and>
     Option.bind (RawURL_decode p1) unmarshal_claims = Some cl \<and>
     \<not> EqualFold (hdr_typ h) ''step-up'' \<and>
     (hdr_alg h = ''HS256'' \<and> localSecret v \<noteq> [] \<and>
        p2 = RawURL_encode (hmac_sha256 C (localSecret v) (p0 @ ''.'' @ p1)) \<or>
      hdr_alg h = ''EdDSA'' \<and> (\<exists>kid key sig. edKeys v kid = Some key \<and> RawURL_decode p2 = Some sig \<and>
        length sig = 64 \<and> ed_verify C key (p0 @ ''.'' @ p1) sig)) \<and>
     claim_string cl ''iss'' = localIssuer v \<and>
     (\<exists>exp. claim cl ''exp'' = Some (JInt exp) \<and> now \<le> exp * second)"
  using assms
proof (rule verifyLocal_InrE)
  fix p0 p1 p2 hb h pb exp
  assume split: "Split tok (CHR ''.'') = [p0, p1, p2]"
    and dec: "RawURL_decode p0 = Some hb" "unmarshal_header hb = Some h"
      "RawURL_decode p1 = Some pb" "unmarshal_claims pb = Some cl"
    and ty: "\<not> EqualFold (hdr_typ h) stepUpTyp"
    and chk: "check_signature C v h (p0 @ ''.'' @ p1) p2 = Inr ()"
    and cl: "claim_string cl ''iss'' = localIssuer v" "claim cl ''exp'' = Some (JInt exp)" "now \<le> exp * second"
  have "tok = p0 @ ''.'' @ p1 @ ''.'' @ p2"
    using Split_three [OF split] by simp
  with dec ty check_signature_Inr [OF chk] cl show ?thesis
    by (intro exI [of _ p0] exI [of _ p1] exI [of _ p2] exI [of _ h])
       (simp add: algHS256_def algEdDSA_def stepUpTyp_def)
qed

theorem verifyLocal_sound_witness:
  "\<exists>v tok cl. verifyLocal demo_crypto v 0 tok = Inr cl \<and> claim_string cl ''iss'' = localIssuer v"
proof -
  let ?cl = "localClaims_members (local_claims ''u1'' ''urn:mod-users'' 0)"
  let ?v = "\<lparr>oidcVerifier = None, localSecret = ''s'', localIssuer = ''urn:mod-users'', edKeys = Map.empty\<rparr>"
  obtain tok where "demo_sign (HS256Key ''s'') [(''kid'', JStr ''a'')] ?cl = Some tok"
    by (simp add: demo_sign_def Let_def)
  then have "compact_jws demo_crypto (HS256Key ''s'') [(''kid'', JStr ''a'')] ?cl tok"
    by (rule compact_jws_demo)
  then have "verifyLocal demo_crypto ?v 0 tok = Inr ?cl"
    using verifyLocal_signed [of demo_crypto "\<lparr>sg_key = HS256Key ''s'', sg_kid = ''a''\<rparr>" ?cl tok ?v 0]
    by (simp add: claim_local_claims Unix_def day_def second_def)
  with verifyLocal_sound [OF this] show ?thesis by blast
qed

text \<open>
  Issue then verify: a token the configured signer issues for an account is accepted by
  the verifier built from the same configuration, under HS256 and under EdDSA, until 24 hours
  later (to the second), and its subject is the account's UUID. The hypothesis on the JWT
  library is its documented token format.
\<close>

theorem issued_token_verifies:
  assumes sgn: "NewSigner lc = Inr s"
    and vrf: "NewLocalVerifier C discover lc = Inr v"
    and dk: "distinct (map fst (JWTVerifyPublicKeys lc))"
    and jlib: "\<And>key extra cl t. jwt_sign key extra cl = Some t \<Longrightarrow> compact_jws C key extra cl t"
    and iss: "IssueLocalJWTWithSigner jwt_sign uuid (Some s) (LocalIssuer lc) now = Inr tok"
  shows "verifyLocal C v now' tok =
      (if now' \<le> Unix (now + day) * second
       then Inr (localClaims_members (local_claims uuid (LocalIssuer lc) now)) else Inl TokenExpired) \<and>
    claim_string (localClaims_members (local_claims uuid (LocalIssuer lc) now)) ''sub'' = uuid"
proof -
  have "lc_iss (local_claims uuid (LocalIssuer lc) now) = LocalIssuer lc" "lc_exp (local_claims uuid (LocalIssuer lc) now) = Unix (now + day)"
    by (simp_all add: local_claims_def)
  with signed_claims_verify [OF sgn vrf dk jlib iss [unfolded IssueLocalJWTWithSigner_def], of now']
    NewLocalVerifier_Inr(2) [OF vrf dk]
  show ?thesis by (simp add: claim_local_claims)
qed

theorem issued_token_verifies_witness:
  "\<exists>v tok. NewLocalVerifier demo_crypto (\<lambda>_ _ _. None) (demo_config ''EdDSA'') = Inr v \<and>
     is_ok (verifyLocal demo_crypto v 0 tok) \<and>
     verifyLocal demo_crypto v (day + 1) tok = Inl TokenExpired"
proof -
  let ?s = "\<lparr>sg_key = EdDSAKey (replicate 64 (CHR ''k'')), sg_kid = ''a''\<rparr>"
  obtain tok where "IssueLocalJWTWithSigner demo_sign ''u1'' (Some ?s) (LocalIssuer (demo_config ''EdDSA'')) 0 = Inr tok"
    by (simp add: IssueLocalJWTWithSigner_def Signer_Sign_def demo_sign_def Let_def)
  note i = issued_token_verifies [OF demo_signer(2) demo_verifier(2) [of "\<lambda>_ _ _. None"] _ compact_jws_demo this]
  have "distinct (map fst (JWTVerifyPublicKeys (demo_config ''EdDSA'')))"
    by (simp add: demo_config_def)
  from i [OF this, of 0] i [OF this, of "day + 1"] show ?thesis
    by (simp add: demo_verifier(2) Unix_def day_def second_def) (auto intro!: exI [of _ tok])
qed

text \<open>
  Algorithm confusion is excluded by configuration: a verifier built for EdDSA accepts no
  HS256 token whatever its signature, and a verifier built for HS256 without extra public keys
  accepts no EdDSA token.
\<close>

theorem no_algorithm_confusion:
  assumes "NewLocalVerifier C discover lc = Inr v" "distinct (map fst (JWTVerifyPublicKeys lc))"
    and "Split tok (CHR ''.'') = [p0, p1, p2]"
    and "Option.bind (RawURL_decode p0) unmarshal_header = Some h"
    and "if JWTAlg lc = ''EdDSA'' then hdr_alg h \<noteq> ''EdDSA''
         else JWTVerifyPublicKeys lc = [] \<and> hdr_alg h \<noteq> ''HS256''"
  shows "\<not> is_ok (verifyLocal C v now tok)"
proof -
  note V = NewLocalVerifier_Inr [OF assms(1,2)]
  have chk: "\<not> is_ok (verifyLocal C v now tok)"
    if "\<And>input sig. check_signature C v h input sig \<noteq> Inr ()"
  proof (cases "verifyLocal C v now tok")
    case (Inr cl)
    then show ?thesis
      by (rule verifyLocal_InrE) (use assms(3,4) that in \<open>auto simp: bind_eq_Some_conv\<close>)
  qed simp
  show ?thesis
    using V(4,5) assms(5)
    by (intro chk) (auto simp: check_signature_def JWTAlgEdDSA_def algEdDSA_def algHS256_def split: if_splits)
qed

theorem no_algorithm_confusion_witness:
  "\<exists>v. NewLocalVerifier demo_crypto (\<lambda>_ _ _. None) (demo_config ''EdDSA'') = Inr v \<and>
     \<not> is_ok (verifyLocal demo_crypto v 0 (stepUpHeader @ ''.a.b''))"
proof -
  have "Split (stepUpHeader @ ''.a.b'') (CHR ''.'') = [stepUpHeader, ''a'', ''b'']"
    using Split_append [of "CHR ''.''" stepUpHeader "''a.b''"]
    by (simp add: stepUpHeader_def url.enc_no_sep)
  moreover have "Option.bind (RawURL_decode stepUpHeader) unmarshal_header =
      Some \<lparr>hdr_alg = ''HS256'', hdr_typ = ''step-up'', hdr_kid = None\<rparr>"
    by (simp add: stepUpHeader_def url.dec_enc unmarshal_header_stepUp)
  ultimately show ?thesis
    using no_algorithm_confusion [OF demo_verifier(2) [of "\<lambda>_ _ _. None"] _, of "stepUpHeader @ ''.a.b''" stepUpHeader "''a''" "''b''"
        "\<lparr>hdr_alg = ''HS256'', hdr_typ = ''step-up'', hdr_kid = None\<rparr>" 0]
    by (simp add: demo_verifier(2)) (simp add: demo_config_def)
qed

text \<open>
  C3. Step-up tokens and session tokens never stand in for each other: whatever the keys
  and whatever the verifier, a token the step-up check accepts is refused by the bearer check,
  with the reason that it is a step-up token.
\<close>

theorem stepup_token_is_no_bearer:
  assumes "checkStepUpToken hmac secret tok uid t = Inr p"
  shows "verifyLocal C v now tok = Inl StepUpNotBearer"
proof -
  obtain enc where "CHR ''.'' \<notin> set enc"
    "tok = (stepUpHeader @ ''.'' @ enc) @ ''.'' @ stepup_sig hmac secret (stepUpHeader @ ''.'' @ enc)"
    using assms by (auto simp: checkStepUpToken_Inr_iff)
  then have "Split tok (CHR ''.'') =
      [stepUpHeader, enc, stepup_sig hmac secret (stepUpHeader @ ''.'' @ enc)]"
    by (simp add: Split_append Split_no_sep stepup_sig_def stepUpHeader_def url.enc_no_sep)
  moreover have "Option.bind (RawURL_decode stepUpHeader) unmarshal_header =
      Some \<lparr>hdr_alg = ''HS256'', hdr_typ = ''step-up'', hdr_kid = None\<rparr>"
    by (simp add: stepUpHeader_def url.dec_enc unmarshal_header_stepUp)
  ultimately show ?thesis
    by (simp add: verifyLocal_def stepUpTyp_def)
qed

theorem stepup_token_is_no_bearer_witness:
  "\<exists>tok p. checkStepUpToken (\<lambda>k m. k @ m) ''k'' tok 7 second = Inr p \<and>
     (\<forall>v now. verifyLocal demo_crypto v now tok = Inl StepUpNotBearer)"
proof -
  obtain token jti exp where i:
    "IssueStepUpToken (\<lambda>k m. k @ m) ''k'' 7 StepUpTTL (Some ''0123456789abcdef'') 0 = Inr (token, jti, exp)"
    by (simp add: IssueStepUpToken_def Let_def)
  then have e: "exp = StepUpTTL" by (simp add: IssueStepUpToken_def Let_def)
  have b: "in_int64 7" "in_int64 (Unix exp)"
    by (simp_all add: in_int64_def e Unix_def StepUpTTL_def second_def)
  obtain p where "checkStepUpToken (\<lambda>k m. k @ m) ''k'' token 7 second = Inr p"
    using checkStepUpToken_issued [OF i b, of 7 second]
    by (auto simp: e Unix_def StepUpTTL_def second_def)
  with stepup_token_is_no_bearer [OF this] show ?thesis by blast
qed

text \<open>
  Key resolution: a key for the state signer or the step-up tokens is never empty and
  never a blank \<open>JWT_SECRET\<close>; a non-blank secret is used byte for byte; otherwise the key is
  the one derived from the Ed25519 signing key under the label of its purpose; and HS256 with
  a blank secret gives no key.
\<close>

theorem resolveKey_spec:
  "(\<forall>k. resolveKey C lc label = Inr k \<longrightarrow> k \<noteq> [] \<and>
      (if TrimSpace (JWTSecret lc) \<noteq> [] then k = JWTSecret lc
       else JWTAlg lc = ''EdDSA'' \<and> length (JWTSigningKey lc) = 64 \<and>
            hkdf_key C (ed_seed C (JWTSigningKey lc)) label 32 = Some k)) \<and>
   (TrimSpace (JWTSecret lc) = [] \<longrightarrow> JWTAlg lc \<noteq> ''EdDSA'' \<longrightarrow>
      resolveKey C lc label = Inl DerivedKeyUnavailable)"
proof -
  have "TrimSpace [] = []" by (simp add: TrimSpace_eq_Nil_iff)
  then show ?thesis
    by (auto simp: resolveKey_def deriveKey_def JWTAlgEdDSA_def ed25519_PrivateKeySize_def
        derivedKeyLen_def split: if_splits sum.splits option.splits)
qed

theorem resolveKey_spec_witness:
  "resolveKey demo_crypto (demo_config ''EdDSA'') LabelStepUp = Inr ''s'' \<and>
   (''s'' :: string) \<noteq> [] \<and>
   resolveKey demo_crypto ((demo_config ''HS256'')\<lparr>JWTSecret := []\<rparr>) LabelStepUp = Inl DerivedKeyUnavailable"
proof -
  have r: "resolveKey demo_crypto (demo_config ''EdDSA'') LabelStepUp = Inr ''s''"
    by (simp add: resolveKey_def demo_config_def TrimSpace_eq_Nil_iff is_space_def byte_def)
  then show ?thesis
    using resolveKey_spec [of demo_crypto "demo_config ''EdDSA''" LabelStepUp]
      resolveKey_spec [of demo_crypto "(demo_config ''HS256'')\<lparr>JWTSecret := []\<rparr>" LabelStepUp]
    by (simp add: demo_config_def TrimSpace_eq_Nil_iff)
qed

end
