(* ===== verification/Password.thy ===== *)
theory Password
  imports Encoding "HOL-Library.Word"
begin

text \<open>
  \<open>api/internal/auth/password.go\<close> (argon2id hashes in PHC form) and
  \<open>api/internal/auth/setup_token.go\<close> (the one-time setup token).

  The argon2 implementation (\<open>golang.org/x/crypto/argon2\<close>) is the argument \<open>IDKey\<close>: the
  key for a password, salt, time, memory, threads and key length, \<open>None\<close> where the library
  panics (it does for zero rounds or zero threads). SHA-256 is the argument \<open>sha256\<close>.
  Parameters read from a stored hash are converted to \<open>uint32\<close> and \<open>uint8\<close>, so they wrap.
\<close>

section \<open>\<open>fmt.Sscanf\<close>\<close>

text \<open>A literal piece of the format, and \<open>%d\<close> into an \<open>int\<close> (64 bits).\<close>

definition scan_lit :: "string \<Rightarrow> string \<Rightarrow> string option" where
  "scan_lit lit s = (if HasPrefix s lit then Some (drop (length lit) s) else None)"

definition scan_int :: "string \<Rightarrow> (int \<times> string) option" where
  "scan_int s =
     (let s1 = dropWhile (\<lambda>c. is_space c \<and> byte c \<noteq> 10) s;
          neg = (s1 \<noteq> [] \<and> hd s1 = CHR ''-'');
          s2 = (if s1 \<noteq> [] \<and> (hd s1 = CHR ''-'' \<or> hd s1 = CHR ''+'') then tl s1 else s1);
          ds = takeWhile is_ascii_digit s2;
          v = (if neg then - int (digits_val ds) else int (digits_val ds))
      in if ds = [] \<or> v < - (2 ^ 63) \<or> 2 ^ 63 \<le> v then None
         else Some (v, drop (length ds) s2))"

section \<open>Password hashes\<close>

definition argonMemory :: nat where "argonMemory = 64 * 1024"
definition argonTime :: nat where "argonTime = 3"
definition argonThreads :: nat where "argonThreads = 2"
definition argonSaltLen :: nat where "argonSaltLen = 16"
definition argonHashLen :: nat where "argonHashLen = 32"
definition argon2_Version :: nat where "argon2_Version = 19"

type_synonym id_key =
  "string \<Rightarrow> string \<Rightarrow> 32 word \<Rightarrow> 32 word \<Rightarrow> 8 word \<Rightarrow> 32 word \<Rightarrow> string option"

datatype password_error =
    SaltRand | ArgonPanic | PHCParts | PHCAlgorithm | PHCVersion | PHCParams | PHCSalt | PHCHash

definition phc_string :: "string \<Rightarrow> string \<Rightarrow> string" where
  "phc_string salt hash =
     ''$argon2id$v='' @ show_nat argon2_Version @ ''$m='' @ show_nat argonMemory @
     '',t='' @ show_nat argonTime @ '',p='' @ show_nat argonThreads @ ''$'' @
     RawStd_encode salt @ ''$'' @ RawStd_encode hash"

text \<open>\<open>HashPassword\<close>: \<open>salt\<close> is what the random source delivers, \<open>None\<close> on failure.\<close>

definition HashPassword :: "id_key \<Rightarrow> string option \<Rightarrow> string \<Rightarrow> (password_error, string) result" where
  "HashPassword IDKey salt plain =
     (case salt of
        None \<Rightarrow> Inl SaltRand
      | Some s \<Rightarrow>
          (case IDKey plain s (of_nat argonTime) (of_nat argonMemory) (of_nat argonThreads)
                  (of_nat argonHashLen) of
             None \<Rightarrow> Inl ArgonPanic
           | Some hash \<Rightarrow> Inr (phc_string s hash)))"

record phc =
  phc_salt :: string
  phc_hash :: string
  phc_m :: "32 word"
  phc_t :: "32 word"
  phc_p :: "8 word"

definition scan_params :: "string \<Rightarrow> (int \<times> int \<times> int) option" where
  "scan_params s =
     Option.bind (scan_lit ''m='' s) (\<lambda>s1.
     Option.bind (scan_int s1) (\<lambda>(m, s2).
     Option.bind (scan_lit '',t='' s2) (\<lambda>s3.
     Option.bind (scan_int s3) (\<lambda>(t, s4).
     Option.bind (scan_lit '',p='' s4) (\<lambda>s5.
     Option.bind (scan_int s5) (\<lambda>(p, s6). Some (m, t, p)))))))"

definition parseArgon2PHC :: "string \<Rightarrow> (password_error, phc) result" where
  "parseArgon2PHC encoded =
     (case Split encoded (CHR ''$'') of
        [p0, p1, p2, p3, p4, p5] \<Rightarrow>
          if p1 \<noteq> ''argon2id'' then Inl PHCAlgorithm
          else if Option.bind (scan_lit ''v='' p2) scan_int = None then Inl PHCVersion
          else
            (case scan_params p3 of
               None \<Rightarrow> Inl PHCParams
             | Some (mVal, tVal, pVal) \<Rightarrow>
                 (case RawStd_decode p4 of
                    None \<Rightarrow> Inl PHCSalt
                  | Some salt \<Rightarrow>
                      (case RawStd_decode p5 of
                         None \<Rightarrow> Inl PHCHash
                       | Some hash \<Rightarrow>
                           Inr \<lparr>phc_salt = salt, phc_hash = hash, phc_m = of_int mVal,
                                phc_t = of_int tVal, phc_p = of_int pVal\<rparr>)))
      | _ \<Rightarrow> Inl PHCParts)"

definition VerifyPassword :: "id_key \<Rightarrow> string \<Rightarrow> string \<Rightarrow> (password_error, bool) result" where
  "VerifyPassword IDKey plain encoded =
     (case parseArgon2PHC encoded of
        Inl e \<Rightarrow> Inl e
      | Inr h \<Rightarrow>
          (case IDKey plain (phc_salt h) (phc_t h) (phc_m h) (phc_p h)
                  (of_nat (length (phc_hash h))) of
             None \<Rightarrow> Inl ArgonPanic
           | Some candidate \<Rightarrow> Inr (phc_hash h = candidate)))"

section \<open>Setup tokens\<close>

definition setupTokenBytes :: nat where "setupTokenBytes = 32"

definition HashSetupToken :: "(string \<Rightarrow> string) \<Rightarrow> string \<Rightarrow> string" where
  "HashSetupToken sha256 plain = hex_encode (sha256 plain)"

text \<open>
  \<open>generateSetupTokenFrom\<close>: \<open>io.ReadFull\<close> takes exactly 32 bytes of the source, or fails.
\<close>

definition generateSetupTokenFrom ::
  "(string \<Rightarrow> string) \<Rightarrow> string \<Rightarrow> (password_error, string \<times> string) result" where
  "generateSetupTokenFrom sha256 src =
     (if length src < setupTokenBytes then Inl SaltRand
      else let plain = hex_encode (take setupTokenBytes src)
           in Inr (plain, HashSetupToken sha256 plain))"

definition VerifySetupToken :: "(string \<Rightarrow> string) \<Rightarrow> string \<Rightarrow> string \<Rightarrow> bool" where
  "VerifySetupToken sha256 plain storedHash =
     (if storedHash = [] then False else HashSetupToken sha256 plain = storedHash)"

section \<open>Lemmas\<close>

lemma byte_decimal [simp]: "byte (CHR ''='') = 61" "byte (CHR ''m'') = 109" "byte (CHR ''v'') = 118"
  by (simp_all add: byte_def)

lemma takeWhile_show_nat:
  assumes "rest = [] \<or> \<not> is_ascii_digit (hd rest)"
  shows "takeWhile is_ascii_digit (show_nat n @ rest) = show_nat n"
proof (cases rest)
  case Nil
  then show ?thesis by (simp add: takeWhile_eq_all_conv show_nat_digits)
next
  case (Cons c r)
  then show ?thesis using assms by (simp add: takeWhile_append2 show_nat_digits)
qed

lemma scan_int_show_nat:
  assumes "rest = [] \<or> \<not> is_ascii_digit (hd rest)" "int n < 2 ^ 63"
  shows "scan_int (show_nat n @ rest) = Some (int n, rest)"
proof -
  obtain d ds where d: "show_nat n = d # ds" by (cases "show_nat n") auto
  then have dg: "is_ascii_digit d" using show_nat_digits [of d n] by simp
  then have ne: "d \<noteq> CHR ''-''" "d \<noteq> CHR ''+''" "\<not> is_space d"
    by (auto simp: is_ascii_digit_def is_space_def byte_def)
  have "takeWhile is_ascii_digit (d # ds @ rest) = d # ds"
    using takeWhile_show_nat [OF assms(1), of n] d by simp
  moreover have "digits_val (d # ds) = n" using d digits_val_show_nat [of n] by simp
  ultimately show ?thesis
    using d ne dg assms(2) by (simp add: scan_int_def Let_def)
qed

lemma digit_neq: "\<not> is_ascii_digit (CHR '','')" "\<not> is_ascii_digit (CHR ''$'')"
  by (simp_all add: is_ascii_digit_def byte_def)

lemma show_nat_no_dollar: "CHR ''$'' \<notin> set (show_nat n)"
  using show_nat_digits digit_neq by blast

lemma Split_phc_string:
  "Split (phc_string salt hash) (CHR ''$'') =
     [[], ''argon2id'', ''v='' @ show_nat 19,
      ''m='' @ show_nat 65536 @ '',t='' @ show_nat 3 @ '',p='' @ show_nat 2,
      RawStd_encode salt, RawStd_encode hash]"
proof -
  have "phc_string salt hash = CHR ''$'' # ''argon2id'' @ CHR ''$'' # (''v='' @ show_nat 19) @ CHR ''$'' #
      (''m='' @ show_nat 65536 @ '',t='' @ show_nat 3 @ '',p='' @ show_nat 2) @ CHR ''$'' #
      RawStd_encode salt @ CHR ''$'' # RawStd_encode hash"
    by (simp add: phc_string_def argon2_Version_def argonMemory_def argonTime_def argonThreads_def)
  moreover have "CHR ''$'' \<notin> set ''argon2id''" "CHR ''$'' \<notin> set (''v='' @ show_nat 19)"
    "CHR ''$'' \<notin> set (''m='' @ show_nat 65536 @ '',t='' @ show_nat 3 @ '',p='' @ show_nat 2)"
    by (simp_all add: show_nat_no_dollar)
  ultimately show ?thesis
    by (simp only: Split.simps Split_append Split_no_sep std.enc_no_sep if_True not_False_eq_True
        simp_thms)
qed

lemma scan_params_phc:
  "scan_params (''m='' @ show_nat 65536 @ '',t='' @ show_nat 3 @ '',p='' @ show_nat 2) = Some (65536, 3, 2)"
proof -
  have "scan_int (show_nat 65536 @ '',t='' @ r) = Some (65536, '',t='' @ r)"
    "scan_int (show_nat 3 @ '',p='' @ r) = Some (3, '',p='' @ r)"
    "scan_int (show_nat 2) = Some (2, [])" for r
    using scan_int_show_nat [of "'',t='' @ r" 65536] scan_int_show_nat [of "'',p='' @ r" 3]
      scan_int_show_nat [of "[]" 2] by (simp_all add: digit_neq)
  then show ?thesis by (simp add: scan_params_def scan_lit_def HasPrefix_def)
qed

lemma parseArgon2PHC_phc_string:
  "parseArgon2PHC (phc_string salt hash) =
     Inr \<lparr>phc_salt = salt, phc_hash = hash, phc_m = 65536, phc_t = 3, phc_p = 2\<rparr>"
proof -
  have "scan_int (show_nat 19) = Some (19, [])"
    using scan_int_show_nat [of "[]" 19] by simp
  then show ?thesis
    by (simp add: parseArgon2PHC_def Split_phc_string scan_params_phc [simplified] scan_lit_def HasPrefix_def
        std.dec_enc)
qed

lemma VerifyPassword_hashed:
  assumes "HashPassword IDKey (Some salt) plain = Inr encoded"
    and "\<And>pw s t m p n k. IDKey pw s t m p n = Some k \<Longrightarrow> length k = unat n"
    and "IDKey pw salt 3 65536 2 32 \<noteq> None"
  shows "VerifyPassword IDKey pw encoded = Inr (IDKey pw salt 3 65536 2 32 = IDKey plain salt 3 65536 2 32)"
proof -
  obtain hash where h: "IDKey plain salt 3 65536 2 32 = Some hash" "encoded = phc_string salt hash"
    using assms(1)
    by (auto simp: HashPassword_def argonTime_def argonMemory_def argonThreads_def argonHashLen_def
        split: option.splits)
  have "length hash = 32" using assms(2) [OF h(1)] by simp
  then show ?thesis
    using h assms(3) by (auto simp: VerifyPassword_def parseArgon2PHC_phc_string split: option.splits)
qed

section \<open>Properties\<close>

text \<open>
  C4. Password hashes round-trip: a hash made by \<open>HashPassword\<close> parses, with exactly the
  salt and cost parameters it was made with, and \<open>VerifyPassword\<close> answers (never an
  error) whether the offered password gives the stored key; so the password itself is
  accepted. The named hypotheses are what argon2 documents: it returns a key of the requested
  length, and it panics for no parameters the program uses.
\<close>

theorem VerifyPassword_HashPassword:
  assumes hashed: "HashPassword IDKey (Some salt) plain = Inr encoded"
    and key_len: "\<And>pw s t m p n k. IDKey pw s t m p n = Some k \<Longrightarrow> length k = unat n"
    and no_panic: "\<And>pw s. IDKey pw s 3 65536 2 32 \<noteq> None"
  shows "VerifyPassword IDKey plain' encoded =
           Inr (IDKey plain' salt 3 65536 2 32 = IDKey plain salt 3 65536 2 32) \<and>
         VerifyPassword IDKey plain encoded = Inr True"
  using VerifyPassword_hashed [OF hashed key_len no_panic] by simp

theorem VerifyPassword_HashPassword_witness:
  "\<exists>encoded. HashPassword (\<lambda>pw s t m p n. Some (take (unat n) (pw @ replicate (unat n) CHR ''0'')))
       (Some ''salt'') ''correct horse'' = Inr encoded \<and>
     VerifyPassword (\<lambda>pw s t m p n. Some (take (unat n) (pw @ replicate (unat n) CHR ''0'')))
       ''correct horse'' encoded = Inr True"
proof -
  let ?k = "\<lambda>(pw::string) (s::string) (t::32 word) (m::32 word) (p::8 word) (n::32 word).
      Some (take (unat n) (pw @ replicate (unat n) CHR ''0''))"
  obtain encoded where h: "HashPassword ?k (Some ''salt'') ''correct horse'' = Inr encoded"
    by (simp add: HashPassword_def)
  have "VerifyPassword ?k ''correct horse'' encoded = Inr True"
    by (rule VerifyPassword_HashPassword [OF h, THEN conjunct2]) auto
  with h show ?thesis by blast
qed

text \<open>
  A setup token: the plaintext has 64 hexadecimal digits, the stored hash is the SHA-256
  of the plaintext, the token verifies against it, an empty stored hash accepts nothing,
  and a different plaintext is accepted only if its SHA-256 is the same.
\<close>

theorem setup_token_verifies:
  assumes "generateSetupTokenFrom sha256 src = Inr (plain, hash)"
    and "\<And>m. sha256 m \<noteq> []"
  shows "length plain = 64 \<and> hash = HashSetupToken sha256 plain \<and> VerifySetupToken sha256 plain hash \<and>
    \<not> VerifySetupToken sha256 plain' [] \<and>
    (VerifySetupToken sha256 plain' hash \<longleftrightarrow> sha256 plain' = sha256 plain)"
proof -
  have plain: "plain = hex_encode (take 32 src)" "hash = hex_encode (sha256 plain)" "32 \<le> length src"
    using assms(1)
    by (auto simp: generateSetupTokenFrom_def setupTokenBytes_def HashSetupToken_def Let_def
        split: if_splits)
  moreover have "hash \<noteq> []"
    using plain(2) assms(2) [of plain] by (cases "sha256 plain") auto
  ultimately show ?thesis
    by (auto simp: VerifySetupToken_def HashSetupToken_def hex_encode_inject)
qed

theorem setup_token_verifies_witness:
  "\<exists>plain hash. generateSetupTokenFrom (\<lambda>m. ''h'' @ m) (replicate 32 CHR ''x'') = Inr (plain, hash) \<and>
     VerifySetupToken (\<lambda>m. ''h'' @ m) plain hash"
proof -
  obtain plain hash where g:
    "generateSetupTokenFrom (\<lambda>m. ''h'' @ m) (replicate 32 CHR ''x'') = Inr (plain, hash)"
    by (simp add: generateSetupTokenFrom_def setupTokenBytes_def Let_def del: hex_encode.simps)
  from setup_token_verifies [OF g, of plain] g show ?thesis by auto
qed

end
