(* ===== verification/Claims.thy ===== *)
theory Claims
  imports Jwt
begin

text \<open>
  Claim mappers: \<open>api/internal/auth/claims.go\<close>, \<open>claims_helpers.go\<close> and the eight
  \<open>claims_<provider>.go\<close> files, with the types of \<open>principal.go\<close>.

  Raw claims are the members of the decoded JSON object; \<open>claim\<close> of \<open>Jwt\<close> is the map lookup.
  A nil slice and an empty slice are both the empty list. The order in which a Go \<open>range\<close> loop
  visits the keys of a map is not specified by the language: it is the argument \<open>visit\<close> of the
  one mapper that depends on it. The interface \<open>ClaimMapper\<close> is the locale \<open>claim_mapper\<close>,
  interpreted on each of the eight mappers.
\<close>

section \<open>Types\<close>

record Principal =
  Subject :: string
  Issuer :: string
  Email :: string
  EmailVerified :: bool
  Roles :: "string list"
  SudoUserUUID :: string

record MapperOptions =
  AdminRole :: string
  RolesNamespace :: string
  RolesPath :: string
  EmailPath :: string

datatype claim_error =
    MissingSub | MissingIss | NoEmailPath | NoRolesPath | UnknownClaimStyle string

section \<open>Helpers\<close>

definition getString :: "claims \<Rightarrow> string \<Rightarrow> string" where
  "getString cl key =
     (case claim cl key of None \<Rightarrow> [] | Some v \<Rightarrow> (case v of JStr s \<Rightarrow> s | _ \<Rightarrow> []))"

text \<open>The string elements of an array, in order; other elements are skipped.\<close>

fun string_elems :: "json list \<Rightarrow> string list" where
  "string_elems [] = []"
| "string_elems (JStr s # xs) = s # string_elems xs"
| "string_elems (x # xs) = string_elems xs"

definition string_slice :: "json option \<Rightarrow> string list" where
  "string_slice v = (case v of Some (JArr xs) \<Rightarrow> string_elems xs | _ \<Rightarrow> [])"

definition getStringSlice :: "claims \<Rightarrow> string \<Rightarrow> string list" where
  "getStringSlice cl key = string_slice (claim cl key)"

fun getNestedStringSlice :: "claims \<Rightarrow> string list \<Rightarrow> string list" where
  "getNestedStringSlice cl [] = []"
| "getNestedStringSlice cl [k] = getStringSlice cl k"
| "getNestedStringSlice cl (k # k' # ks) =
     (case claim cl k of
        Some (JObj ms) \<Rightarrow> getNestedStringSlice ms (k' # ks)
      | _ \<Rightarrow> [])"

text \<open>\<open>strings.SplitN(path, ".", 2)\<close> is the text before the first dot and the text after it.\<close>

function getByPath :: "claims \<Rightarrow> string \<Rightarrow> json option" where
  "getByPath cl path =
     (if path = [] then None
      else
        (case claim cl (takeWhile (\<lambda>c. c \<noteq> CHR ''.'') path) of
           None \<Rightarrow> None
         | Some v \<Rightarrow>
             (case dropWhile (\<lambda>c. c \<noteq> CHR ''.'') path of
                [] \<Rightarrow> Some v
              | _ # rest \<Rightarrow> (case v of JObj ms \<Rightarrow> getByPath ms rest | _ \<Rightarrow> None))))"
  by pat_completeness auto
termination
proof (relation "measure (length \<circ> snd)", simp_all)
  fix path :: string and x21 rest
  assume "dropWhile (\<lambda>c. c \<noteq> CHR ''.'') path = x21 # rest"
  then have "Suc (length rest) \<le> length path"
    using length_dropWhile_le [of "\<lambda>c. c \<noteq> CHR ''.''" path] by simp
  then show "length rest < length path" by simp
qed

declare getByPath.simps [simp del]

definition getStringByPath :: "claims \<Rightarrow> string \<Rightarrow> string" where
  "getStringByPath cl path = (case getByPath cl path of Some (JStr s) \<Rightarrow> s | _ \<Rightarrow> [])"

definition getStringSliceByPath :: "claims \<Rightarrow> string \<Rightarrow> string list" where
  "getStringSliceByPath cl path = string_slice (getByPath cl path)"

definition lowercaseAll :: "string list \<Rightarrow> string list" where
  "lowercaseAll ss = map ToLower ss"

definition coerceBoolClaim :: "claims \<Rightarrow> string \<Rightarrow> bool" where
  "coerceBoolClaim cl key =
     (case claim cl key of
        Some (JBool b) \<Rightarrow> b
      | Some (JStr s) \<Rightarrow> s = ''true''
      | _ \<Rightarrow> False)"

definition extractRequired :: "claims \<Rightarrow> (claim_error, string \<times> string) result" where
  "extractRequired cl =
     (let sub = getString cl ''sub'' in
      if sub = [] then Inl MissingSub
      else let iss = getString cl ''iss'' in
           if iss = [] then Inl MissingIss else Inr (sub, iss))"

section \<open>The mappers\<close>

type_synonym mapper = "MapperOptions \<Rightarrow> claims \<Rightarrow> (claim_error, Principal) result"

text \<open>The principal all mappers return, but for e-mail, roles and sudo user.\<close>

definition basic_principal :: "claims \<Rightarrow> string \<times> string \<Rightarrow> string \<Rightarrow> string list \<Rightarrow> Principal" where
  "basic_principal cl si email roles =
     \<lparr>Subject = fst si, Issuer = snd si, Email = email,
      EmailVerified = coerceBoolClaim cl ''email_verified'', Roles = roles, SudoUserUUID = []\<rparr>"

definition googleMapper_Map :: mapper where
  "googleMapper_Map opts cl =
     (case extractRequired cl of
        Inl e \<Rightarrow> Inl e
      | Inr si \<Rightarrow> Inr (basic_principal cl si (getString cl ''email'') []))"

definition azureAdminWIDs :: "string list" where
  "azureAdminWIDs =
     [''62e90394-69f5-4237-9190-012177145e10'',
      ''194ae4cb-b126-40b2-bd5b-6091b380977d'',
      ''f28a1f50-f6e7-4571-818b-6a12f2af6b6c'']"

definition microsoft_roles :: "MapperOptions \<Rightarrow> claims \<Rightarrow> string list" where
  "microsoft_roles opts cl =
     (let roles = lowercaseAll (getStringSlice cl ''roles'');
          wids = getStringSlice cl ''wids''
      in if wids \<noteq> [] \<and> AdminRole opts \<notin> set roles \<and> (\<exists>w \<in> set wids. w \<in> set azureAdminWIDs)
         then roles @ [AdminRole opts] else roles)"

definition microsoftMapper_Map :: mapper where
  "microsoftMapper_Map opts cl =
     (case extractRequired cl of
        Inl e \<Rightarrow> Inl e
      | Inr si \<Rightarrow>
          let email = getString cl ''email'';
              email = (if email = [] then getString cl ''preferred_username'' else email)
          in Inr (basic_principal cl si email (microsoft_roles opts cl)))"

text \<open>The second loop of the Authelia mapper: append the groups not seen yet.\<close>

fun append_unseen :: "string list \<Rightarrow> string list \<Rightarrow> string list" where
  "append_unseen roles [] = roles"
| "append_unseen roles (g # gs) =
     (if g \<in> set roles then append_unseen roles gs else append_unseen (roles @ [g]) gs)"

definition authelia_roles :: "MapperOptions \<Rightarrow> claims \<Rightarrow> string list" where
  "authelia_roles opts cl =
     (let groups = lowercaseAll (getStringSlice cl ''groups'')
      in append_unseen (if AdminRole opts \<in> set groups then [AdminRole opts] else []) groups)"

definition autheliaMapper_Map :: mapper where
  "autheliaMapper_Map opts cl =
     (case extractRequired cl of
        Inl e \<Rightarrow> Inl e
      | Inr si \<Rightarrow> Inr (basic_principal cl si (getString cl ''email'') (authelia_roles opts cl)))"

definition keycloakMapper_Map :: mapper where
  "keycloakMapper_Map opts cl =
     (case extractRequired cl of
        Inl e \<Rightarrow> Inl e
      | Inr si \<Rightarrow> Inr (basic_principal cl si (getString cl ''email'')
                  (lowercaseAll (getNestedStringSlice cl [''realm_access'', ''roles'']))))"

definition cognitoMapper_Map :: mapper where
  "cognitoMapper_Map opts cl =
     (case extractRequired cl of
        Inl e \<Rightarrow> Inl e
      | Inr si \<Rightarrow> Inr (basic_principal cl si (getString cl ''email'')
                  (lowercaseAll (getStringSlice cl ''cognito:groups''))))"

text \<open>The keys of the claims map, and the loop over them in the order \<open>visit\<close> gives.\<close>

definition claim_keys :: "claims \<Rightarrow> string list" where
  "claim_keys cl = remdups (map fst cl)"

fun probe_roles :: "claims \<Rightarrow> string list \<Rightarrow> string list" where
  "probe_roles cl [] = []"
| "probe_roles cl (k # ks) =
     (if HasSuffix k ''/roles'' \<and> getStringSlice cl k \<noteq> []
      then lowercaseAll (getStringSlice cl k) else probe_roles cl ks)"

definition auth0_extractRoles :: "(string list \<Rightarrow> string list) \<Rightarrow> MapperOptions \<Rightarrow> claims \<Rightarrow> string list" where
  "auth0_extractRoles visit opts cl =
     (let key = TrimRight (\<lambda>c. c = CHR ''/'') (RolesNamespace opts) @ ''/roles'';
          rest = (if probe_roles cl (visit (claim_keys cl)) \<noteq> [] then probe_roles cl (visit (claim_keys cl))
                  else lowercaseAll (getStringSlice cl ''roles''))
      in if RolesNamespace opts \<noteq> [] \<and> getStringSlice cl key \<noteq> []
         then lowercaseAll (getStringSlice cl key) else rest)"

definition auth0Mapper_Map :: "(string list \<Rightarrow> string list) \<Rightarrow> mapper" where
  "auth0Mapper_Map visit opts cl =
     (case extractRequired cl of
        Inl e \<Rightarrow> Inl e
      | Inr si \<Rightarrow> Inr (basic_principal cl si (getString cl ''email'') (auth0_extractRoles visit opts cl)))"

definition firebase_roles :: "MapperOptions \<Rightarrow> claims \<Rightarrow> string list" where
  "firebase_roles opts cl =
     (let roles = lowercaseAll (getStringSlice cl ''roles'')
      in if claim cl ''admin'' = Some (JBool True) \<and> AdminRole opts \<notin> set roles
         then roles @ [AdminRole opts] else roles)"

definition firebaseMapper_Map :: mapper where
  "firebaseMapper_Map opts cl =
     (case extractRequired cl of
        Inl e \<Rightarrow> Inl e
      | Inr si \<Rightarrow> Inr (basic_principal cl si (getString cl ''email'') (firebase_roles opts cl)))"

definition genericMapper_Map :: mapper where
  "genericMapper_Map opts cl =
     (case extractRequired cl of
        Inl e \<Rightarrow> Inl e
      | Inr si \<Rightarrow>
          if EmailPath opts = [] then Inl NoEmailPath
          else if RolesPath opts = [] then Inl NoRolesPath
          else Inr ((basic_principal cl si (getStringByPath cl (EmailPath opts))
                      (lowercaseAll (getStringSliceByPath cl (RolesPath opts))))
                    \<lparr>SudoUserUUID := getString cl ''sudo_user_uuid''\<rparr>))"

text \<open>The constructor fills in the default admin role and picks the mapper of a style.\<close>

definition with_default_admin :: "MapperOptions \<Rightarrow> MapperOptions" where
  "with_default_admin opts = (if AdminRole opts = [] then opts\<lparr>AdminRole := ''admin''\<rparr> else opts)"

definition NewClaimMapper ::
  "(string list \<Rightarrow> string list) \<Rightarrow> string \<Rightarrow> MapperOptions
     \<Rightarrow> (claim_error, claims \<Rightarrow> (claim_error, Principal) result) result" where
  "NewClaimMapper visit style opts =
     (let opts = with_default_admin opts in
      if style = ''google'' then Inr (googleMapper_Map opts)
      else if style = ''microsoft'' then Inr (microsoftMapper_Map opts)
      else if style = ''authelia'' then Inr (autheliaMapper_Map opts)
      else if style = ''keycloak'' then Inr (keycloakMapper_Map opts)
      else if style = ''cognito'' then Inr (cognitoMapper_Map opts)
      else if style = ''auth0'' then Inr (auth0Mapper_Map visit opts)
      else if style = ''firebase'' then Inr (firebaseMapper_Map opts)
      else if style = ''generic'' then Inr (genericMapper_Map opts)
      else Inl (UnknownClaimStyle style))"

section \<open>The mapper interface\<close>

definition lower_opts :: "MapperOptions \<Rightarrow> bool" where
  "lower_opts opts \<longleftrightarrow> ToLower (AdminRole opts) = AdminRole opts"

definition mapped_ok :: "MapperOptions \<Rightarrow> claims \<Rightarrow> Principal \<Rightarrow> bool" where
  "mapped_ok opts cl p \<longleftrightarrow>
     Subject p = getString cl ''sub'' \<and> Subject p \<noteq> [] \<and>
     Issuer p = getString cl ''iss'' \<and> Issuer p \<noteq> [] \<and>
     (EmailVerified p \<longleftrightarrow> claim cl ''email_verified'' \<in> {Some (JBool True), Some (JStr ''true'')}) \<and>
     (lower_opts opts \<longrightarrow> (\<forall>r \<in> set (Roles p). ToLower r = r))"

lemma coerce_iff:
  "coerceBoolClaim cl k \<longleftrightarrow> claim cl k \<in> {Some (JBool True), Some (JStr ''true'')}"
  by (auto simp: coerceBoolClaim_def split: option.splits json.splits)

text \<open>
  The contract of \<open>ClaimMapper\<close>: the required claims decide between the two errors and the
  rest, subject, issuer and the verified flag are read off the token alone, and all roles are
  lower case when the admin role is.
\<close>

locale claim_mapper =
  fixes Map :: mapper
  assumes required: "extractRequired cl = Inl e \<Longrightarrow> Map opts cl = Inl e"
    and identity: "Map opts cl = Inr p \<Longrightarrow> extractRequired cl = Inr (Subject p, Issuer p)"
    and verified: "Map opts cl = Inr p \<Longrightarrow> EmailVerified p = coerceBoolClaim cl ''email_verified''"
    and lower: "lower_opts opts \<Longrightarrow> Map opts cl = Inr p \<Longrightarrow> r \<in> set (Roles p) \<Longrightarrow> ToLower r = r"
begin

lemma contract: "Map opts cl = Inr p \<Longrightarrow> mapped_ok opts cl p"
  using identity [of opts cl p] verified [of opts cl p] lower [of opts cl p]
  by (auto simp: mapped_ok_def extractRequired_def Let_def coerce_iff split: if_splits)

lemma refuses: "getString cl ''sub'' = [] \<or> getString cl ''iss'' = [] \<Longrightarrow> \<not> is_ok (Map opts cl)"
  using required [of cl MissingSub opts] required [of cl MissingIss opts]
  by (cases "getString cl ''sub'' = []") (auto simp: extractRequired_def)

end

lemma lowercaseAll_lower: "r \<in> set (lowercaseAll ss) \<Longrightarrow> ToLower r = r"
  by (auto simp: lowercaseAll_def)

lemma lowercaseAll_Nil_iff [simp]: "lowercaseAll ss = [] \<longleftrightarrow> ss = []"
  by (simp add: lowercaseAll_def)

lemma set_append_unseen [simp]: "set (append_unseen roles gs) = set roles \<union> set gs"
  by (induction roles gs rule: append_unseen.induct) auto

lemma distinct_append_unseen: "distinct roles \<Longrightarrow> distinct (append_unseen roles gs)"
  by (induction roles gs rule: append_unseen.induct) auto

lemma probe_roles_lower: "r \<in> set (probe_roles cl ks) \<Longrightarrow> ToLower r = r"
  by (induction ks) (auto simp: lowercaseAll_lower split: if_splits)

lemma microsoft_roles_lower: "lower_opts opts \<Longrightarrow> r \<in> set (microsoft_roles opts cl) \<Longrightarrow> ToLower r = r"
  by (auto simp: microsoft_roles_def Let_def lower_opts_def lowercaseAll_lower split: if_splits)

lemma set_authelia_roles: "set (authelia_roles opts cl) = set (lowercaseAll (getStringSlice cl ''groups''))"
  by (auto simp: authelia_roles_def Let_def)

lemma auth0_roles_lower: "r \<in> set (auth0_extractRoles visit opts cl) \<Longrightarrow> ToLower r = r"
  by (auto simp: auth0_extractRoles_def Let_def probe_roles_lower lowercaseAll_lower split: if_splits)

lemma firebase_roles_lower: "lower_opts opts \<Longrightarrow> r \<in> set (firebase_roles opts cl) \<Longrightarrow> ToLower r = r"
  by (auto simp: firebase_roles_def Let_def lower_opts_def lowercaseAll_lower split: if_splits)

lemma basic_principal_sel [simp]:
  "Subject (basic_principal cl si e rs) = fst si" "Issuer (basic_principal cl si e rs) = snd si"
  "EmailVerified (basic_principal cl si e rs) = coerceBoolClaim cl ''email_verified''"
  "Roles (basic_principal cl si e rs) = rs" "Email (basic_principal cl si e rs) = e"
  "SudoUserUUID (basic_principal cl si e rs) = []"
  by (simp_all add: basic_principal_def)

interpretation google: claim_mapper googleMapper_Map
  by unfold_locales (auto simp: googleMapper_Map_def split: sum.splits)

interpretation microsoft: claim_mapper microsoftMapper_Map
  by unfold_locales
    (auto simp: microsoftMapper_Map_def Let_def intro: microsoft_roles_lower split: sum.splits)

interpretation authelia: claim_mapper autheliaMapper_Map
  by unfold_locales
    (auto simp: autheliaMapper_Map_def set_authelia_roles lowercaseAll_lower split: sum.splits)

interpretation keycloak: claim_mapper keycloakMapper_Map
  by unfold_locales (auto simp: keycloakMapper_Map_def lowercaseAll_lower split: sum.splits)

interpretation cognito: claim_mapper cognitoMapper_Map
  by unfold_locales (auto simp: cognitoMapper_Map_def lowercaseAll_lower split: sum.splits)

interpretation auth0: claim_mapper "auth0Mapper_Map visit" for visit
  by unfold_locales (auto simp: auth0Mapper_Map_def intro: auth0_roles_lower split: sum.splits)

interpretation firebase: claim_mapper firebaseMapper_Map
  by unfold_locales (auto simp: firebaseMapper_Map_def intro: firebase_roles_lower split: sum.splits)

interpretation generic: claim_mapper genericMapper_Map
  by unfold_locales (auto simp: genericMapper_Map_def lowercaseAll_lower split: sum.splits if_splits)

lemma NewClaimMapper_cases [consumes 1, case_names google microsoft authelia keycloak cognito auth0 firebase generic]:
  assumes "NewClaimMapper visit style opts = Inr mp"
  obtains "style = ''google''" "mp = googleMapper_Map (with_default_admin opts)"
  | "style = ''microsoft''" "mp = microsoftMapper_Map (with_default_admin opts)"
  | "style = ''authelia''" "mp = autheliaMapper_Map (with_default_admin opts)"
  | "style = ''keycloak''" "mp = keycloakMapper_Map (with_default_admin opts)"
  | "style = ''cognito''" "mp = cognitoMapper_Map (with_default_admin opts)"
  | "style = ''auth0''" "mp = auth0Mapper_Map visit (with_default_admin opts)"
  | "style = ''firebase''" "mp = firebaseMapper_Map (with_default_admin opts)"
  | "style = ''generic''" "mp = genericMapper_Map (with_default_admin opts)"
  using assms unfolding NewClaimMapper_def Let_def by (force split: if_splits)

section \<open>Properties\<close>

text \<open>
  C17. The mapper contract, for every provider style: \<open>NewClaimMapper\<close> knows exactly the
  eight documented styles, and a principal that its mapper returns has the token's non-empty
  \<open>sub\<close> and \<open>iss\<close>, is e-mail verified exactly if the token asserts it (as a boolean or as
  the string \<open>true\<close>), and has lower-case roles if the configured admin role is lower case.
\<close>

theorem NewClaimMapper_contract:
  "(is_ok (NewClaimMapper visit style opts) \<longleftrightarrow>
      style \<in> {''google'', ''microsoft'', ''authelia'', ''keycloak'', ''cognito'', ''auth0'', ''firebase'', ''generic''}) \<and>
   (\<forall>mp cl p. NewClaimMapper visit style opts = Inr mp \<longrightarrow> mp cl = Inr p \<longrightarrow>
      mapped_ok (with_default_admin opts) cl p)"
proof (intro conjI allI impI)
  show "is_ok (NewClaimMapper visit style opts) \<longleftrightarrow>
      style \<in> {''google'', ''microsoft'', ''authelia'', ''keycloak'', ''cognito'', ''auth0'', ''firebase'', ''generic''}"
    unfolding NewClaimMapper_def Let_def by (auto split: if_splits)
  fix mp cl p
  assume "NewClaimMapper visit style opts = Inr mp" "mp cl = Inr p"
  then show "mapped_ok (with_default_admin opts) cl p"
    unfolding NewClaimMapper_def Let_def
    by (auto split: if_splits intro: google.contract microsoft.contract authelia.contract
        keycloak.contract cognito.contract auth0.contract firebase.contract generic.contract)
qed

theorem NewClaimMapper_contract_witness:
  "\<exists>mp p. NewClaimMapper id ''google'' \<lparr>AdminRole = [], RolesNamespace = [], RolesPath = [], EmailPath = []\<rparr> = Inr mp \<and>
     mp [(''sub'', JStr ''1''), (''iss'', JStr ''g'')] = Inr p \<and> \<not> EmailVerified p"
proof -
  let ?o = "\<lparr>AdminRole = [], RolesNamespace = [], RolesPath = [], EmailPath = []\<rparr>"
  let ?cl = "[(''sub'', JStr ''1''), (''iss'', JStr ''g'')]"
  have n: "NewClaimMapper id ''google'' ?o = Inr (googleMapper_Map (with_default_admin ?o))"
    by (simp add: NewClaimMapper_def)
  obtain p where p: "googleMapper_Map (with_default_admin ?o) ?cl = Inr p"
    by (simp add: googleMapper_Map_def extractRequired_def getString_def claim_def)
  have "mapped_ok (with_default_admin ?o) ?cl p"
    using NewClaimMapper_contract [of id "''google''" ?o] n p by blast
  then show ?thesis
    using n p by (auto simp: mapped_ok_def claim_def)
qed

text \<open>
  Who is an admin by claims: with \<open>a\<close> the configured admin role (\<open>admin\<close> by default), a
  Google token never confers it; Microsoft confers it by an application role or by one of the
  known directory-role ids; Authelia by a group; Keycloak by a realm role; Cognito by a group;
  Firebase by a role or the boolean \<open>admin\<close> claim; the generic mapper by the roles at the
  configured path.
\<close>

theorem admin_role_iff:
  assumes "NewClaimMapper visit style opts = Inr mp" "mp cl = Inr p" "style \<noteq> ''auth0''"
  shows "AdminRole (with_default_admin opts) \<in> set (Roles p) \<longleftrightarrow>
    (let a = AdminRole (with_default_admin opts);
         holds = (\<lambda>rs. a \<in> ToLower ` set rs)
     in (style = ''microsoft'' \<and> (holds (getStringSlice cl ''roles'') \<or>
           (\<exists>w. w \<in> set (getStringSlice cl ''wids'') \<and> w \<in> set azureAdminWIDs))) \<or>
        (style = ''authelia'' \<and> holds (getStringSlice cl ''groups'')) \<or>
        (style = ''keycloak'' \<and> holds (getNestedStringSlice cl [''realm_access'', ''roles''])) \<or>
        (style = ''cognito'' \<and> holds (getStringSlice cl ''cognito:groups'')) \<or>
        (style = ''firebase'' \<and> (holds (getStringSlice cl ''roles'') \<or> claim cl ''admin'' = Some (JBool True))) \<or>
        (style = ''generic'' \<and> holds (getStringSliceByPath cl (RolesPath opts))))"
proof -
  have path: "RolesPath (with_default_admin opts) = RolesPath opts"
    by (simp add: with_default_admin_def)
  have ms: "AdminRole o' \<in> set (microsoft_roles o' cl) \<longleftrightarrow>
      AdminRole o' \<in> ToLower ` set (getStringSlice cl ''roles'') \<or>
      (\<exists>w. w \<in> set (getStringSlice cl ''wids'') \<and> w \<in> set azureAdminWIDs)" for o'
    unfolding microsoft_roles_def Let_def lowercaseAll_def
    by (cases "getStringSlice cl ''wids''") (simp, simp only: Bex_def, simp, blast)
  have fb: "AdminRole o' \<in> set (firebase_roles o' cl) \<longleftrightarrow>
      AdminRole o' \<in> ToLower ` set (getStringSlice cl ''roles'') \<or> claim cl ''admin'' = Some (JBool True)" for o'
    unfolding firebase_roles_def Let_def lowercaseAll_def by (simp, blast)
  from assms(1) show ?thesis
  proof (cases rule: NewClaimMapper_cases)
    case google
    then show ?thesis using assms(2) by (auto simp: googleMapper_Map_def split: sum.splits)
  next
    case microsoft
    then have "Roles p = microsoft_roles (with_default_admin opts) cl"
      using assms(2) by (auto simp: microsoftMapper_Map_def Let_def split: sum.splits)
    with microsoft(1) show ?thesis by (simp add: ms)
  next
    case authelia
    then have "set (Roles p) = ToLower ` set (getStringSlice cl ''groups'')"
      using assms(2) by (auto simp: autheliaMapper_Map_def set_authelia_roles lowercaseAll_def split: sum.splits)
    with authelia(1) show ?thesis by simp
  next
    case keycloak
    then have "set (Roles p) = ToLower ` set (getNestedStringSlice cl [''realm_access'', ''roles''])"
      using assms(2) by (auto simp: keycloakMapper_Map_def lowercaseAll_def simp del: getNestedStringSlice.simps split: sum.splits)
    with keycloak(1) show ?thesis by (simp del: getNestedStringSlice.simps)
  next
    case cognito
    then have "set (Roles p) = ToLower ` set (getStringSlice cl ''cognito:groups'')"
      using assms(2) by (auto simp: cognitoMapper_Map_def lowercaseAll_def split: sum.splits)
    with cognito(1) show ?thesis by simp
  next
    case firebase
    then have "Roles p = firebase_roles (with_default_admin opts) cl"
      using assms(2) by (auto simp: firebaseMapper_Map_def Let_def split: sum.splits)
    with firebase(1) show ?thesis by (simp add: fb)
  next
    case generic
    then have "set (Roles p) = ToLower ` set (getStringSliceByPath cl (RolesPath opts))"
      using assms(2) by (auto simp: genericMapper_Map_def lowercaseAll_def path split: sum.splits if_splits)
    with generic(1) show ?thesis by simp
  qed (use assms(3) in simp)
qed

theorem admin_role_iff_witness:
  "\<exists>mp p. NewClaimMapper id ''firebase'' \<lparr>AdminRole = [], RolesNamespace = [], RolesPath = [], EmailPath = []\<rparr> = Inr mp \<and>
     mp [(''sub'', JStr ''1''), (''iss'', JStr ''f''), (''admin'', JBool True)] = Inr p \<and> ''admin'' \<in> set (Roles p)"
proof -
  let ?o = "\<lparr>AdminRole = [], RolesNamespace = [], RolesPath = [], EmailPath = []\<rparr>"
  let ?cl = "[(''sub'', JStr ''1''), (''iss'', JStr ''f''), (''admin'', JBool True)]"
  have n: "NewClaimMapper id ''firebase'' ?o = Inr (firebaseMapper_Map (with_default_admin ?o))"
    by (simp add: NewClaimMapper_def)
  obtain p where p: "firebaseMapper_Map (with_default_admin ?o) ?cl = Inr p"
    by (simp add: firebaseMapper_Map_def extractRequired_def getString_def claim_def)
  from admin_role_iff [OF n p] n p show ?thesis
    by (auto simp: with_default_admin_def claim_def)
qed

text \<open>
  The Auth0 mapper with a configured roles namespace is not confined to it: a token that
  has no roles under the configured namespace gets the roles of another claim whose name
  ends in \<open>/roles\<close>, the admin role included.
\<close>

theorem auth0_namespace_not_exclusive:
  "\<exists>cl p. claim cl ''https://ours/roles'' = None \<and> claim cl ''roles'' = None \<and>
     auth0Mapper_Map id
       \<lparr>AdminRole = ''admin'', RolesNamespace = ''https://ours'', RolesPath = [], EmailPath = []\<rparr> cl = Inr p \<and>
     Roles p = [''admin'']"
proof -
  let ?cl = "[(''sub'', JStr ''1''), (''iss'', JStr ''a''), (''https://other/roles'', JArr [JStr ''admin''])]"
  let ?o = "\<lparr>AdminRole = ''admin'', RolesNamespace = ''https://ours'', RolesPath = [], EmailPath = []\<rparr>"
  have low: "ToLower ''admin'' = ''admin''"
    by (simp add: ToLower_def lower_char_def is_ascii_upper_def byte_def)
  have cl: "claim ?cl ''https://ours/roles'' = None" "claim ?cl ''roles'' = None"
    "claim ?cl ''https://other/roles'' = Some (JArr [JStr ''admin''])"
    "claim ?cl ''sub'' = Some (JStr ''1'')" "claim ?cl ''iss'' = Some (JStr ''a'')"
    by (simp_all add: claim_def)
  have suf: "\<not> HasSuffix ''sub'' ''/roles''" "\<not> HasSuffix ''iss'' ''/roles''"
    "HasSuffix ''https://other/roles'' ''/roles''"
    "TrimRight (\<lambda>c. c = CHR ''/'') ''https://ours'' @ ''/roles'' = ''https://ours/roles''"
    "claim_keys ?cl = [''sub'', ''iss'', ''https://other/roles'']"
    by (simp_all add: HasSuffix_def TrimRight_def claim_keys_def)
  have sl: "getStringSlice ?cl ''https://ours/roles'' = []"
    "getStringSlice ?cl ''https://other/roles'' = [''admin'']"
    by (simp_all only: getStringSlice_def cl string_slice_def option.case json.case string_elems.simps)
  have "probe_roles ?cl (claim_keys ?cl) = [''admin'']"
    unfolding suf(5) by (simp only: probe_roles.simps suf(1,2,3) sl lowercaseAll_def list.map low) simp
  then have ex: "auth0_extractRoles id ?o ?cl = [''admin'']"
    unfolding auth0_extractRoles_def Let_def MapperOptions.select_convs suf(4) sl id_def by simp
  have "extractRequired ?cl = Inr (''1'', ''a'')"
    unfolding extractRequired_def getString_def cl by simp
  then have "auth0Mapper_Map id ?o ?cl = Inr (basic_principal ?cl (''1'', ''a'') (getString ?cl ''email'') [''admin''])"
    unfolding auth0Mapper_Map_def ex by simp
  with cl(1,2) show ?thesis
    by (intro exI [of _ ?cl] exI conjI) (assumption | simp)+
qed

end
