(* ===== verification/Providers.thy ===== *)
theory Providers
  imports Claims "HOL-Library.List_Lexorder" "HOL-Library.Char_ord"
begin

text \<open>
  OIDC provider configuration: \<open>api/internal/config/providers.go\<close> (the environment),
  \<open>provider_merge.go\<close> (database overrides over the environment), \<open>oidc_state.go\<close> (the boot
  verdict), \<open>cookie_path.go\<close> and \<open>api/internal/auth/oidc_cookie_path.go\<close>.

  The process environment is the list of its variables in the order of \<open>os.Environ\<close>, each
  name once. A registry (a Go map) is a list of entries with distinct keys; no definition
  depends on its order. \<open>pgtype.Text\<close> is an option. The rows of \<open>oidc_providers\<close> are what
  the querier returned, an argument.
\<close>

section \<open>The environment\<close>

type_synonym environ = "(string \<times> string) list"

definition Getenv :: "environ \<Rightarrow> string \<Rightarrow> string" where
  "Getenv env k = (case map_of env k of None \<Rightarrow> [] | Some v \<Rightarrow> v)"

record Provider =
  pr_ID :: string
  pr_DisplayName :: string
  pr_IssuerURL :: string
  pr_ClientID :: string
  pr_ClientSecret :: string
  pr_ClaimStyle :: string
  pr_Scopes :: "string list"
  pr_MultiTenantIssuer :: bool

type_synonym ProviderRegistry = "(string \<times> Provider) list"

definition IDs :: "ProviderRegistry \<Rightarrow> string list" where
  "IDs r = sort (map fst r)"

record providerDefaults =
  def_IssuerURL :: string
  def_ClaimStyle :: string
  def_DisplayName :: string

definition wellKnownProviders :: "string \<rightharpoonup> providerDefaults" where
  "wellKnownProviders =
     [''google'' \<mapsto> \<lparr>def_IssuerURL = ''https://accounts.google.com'', def_ClaimStyle = ''google'',
                     def_DisplayName = ''Google''\<rparr>,
      ''microsoft'' \<mapsto> \<lparr>def_IssuerURL = ''https://login.microsoftonline.com/common/v2.0'',
                        def_ClaimStyle = ''microsoft'', def_DisplayName = ''Microsoft''\<rparr>]"

definition empty_defaults :: providerDefaults where
  "empty_defaults = \<lparr>def_IssuerURL = [], def_ClaimStyle = [], def_DisplayName = []\<rparr>"

definition defaultScopes :: "string list" where
  "defaultScopes = [''openid'', ''email'', ''profile'']"

definition isMultiTenantIssuer :: "string \<Rightarrow> bool" where
  "isMultiTenantIssuer issuerURL \<longleftrightarrow>
     issuerURL \<in> {''https://login.microsoftonline.com/common/v2.0'',
                  ''https://login.microsoftonline.com/organizations/v2.0'',
                  ''https://login.microsoftonline.com/consumers/v2.0''}"

definition env_inner :: "string \<Rightarrow> string" where
  "env_inner key = TrimSuffix (TrimPrefix key ''AUTH_PROVIDER_'') ''_CLIENT_ID''"

text \<open>
  Both loops of \<open>candidateProviderIDs\<close> collect each new identifier once, in order of
  appearance; the identifiers discovered in the environment are sorted.
\<close>

definition candidateProviderIDs :: "environ \<Rightarrow> string list" where
  "candidateProviderIDs env =
     (let raw = Getenv env ''AUTH_PROVIDERS'' in
      if raw \<noteq> [] then
        append_unseen [] (filter (\<lambda>t. t \<noteq> []) (map (\<lambda>t. TrimSpace (ToLower t)) (Split raw (CHR '',''))))
      else
        sort (append_unseen []
          (map (\<lambda>k. ToLower (env_inner k))
            (filter (\<lambda>k. k \<noteq> [] \<and> HasPrefix k ''AUTH_PROVIDER_'' \<and> HasSuffix k ''_CLIENT_ID'' \<and> env_inner k \<noteq> [])
              (map fst env)))))"

fun firstNonEmpty :: "string list \<Rightarrow> string" where
  "firstNonEmpty [] = []"
| "firstNonEmpty (v # vs) = (if v \<noteq> [] then v else firstNonEmpty vs)"

definition titleCase :: "string \<Rightarrow> string" where
  "titleCase pid = (case pid of [] \<Rightarrow> [] | c # cs \<Rightarrow> ToUpper [c] @ cs)"

definition parseScopes :: "string \<Rightarrow> string list" where
  "parseScopes raw =
     (if raw = [] then [] else filter (\<lambda>p. p \<noteq> []) (map TrimSpace (Split raw (CHR '',''))))"

definition envKey :: "string \<Rightarrow> string \<Rightarrow> string" where
  "envKey pid field = ''AUTH_PROVIDER_'' @ ToUpper pid @ ''_'' @ field"

datatype provider_error =
    MissingClientSecret string | MissingIssuerURL string | MissingClaimStyle string

definition loadProvider :: "environ \<Rightarrow> string \<Rightarrow> (provider_error, Provider option) result" where
  "loadProvider env pid =
     (let clientID = Getenv env (envKey pid ''CLIENT_ID'');
          clientSecret = Getenv env (envKey pid ''CLIENT_SECRET'');
          defaults = (case wellKnownProviders pid of Some d \<Rightarrow> d | None \<Rightarrow> empty_defaults);
          issuerURL = firstNonEmpty [Getenv env (envKey pid ''ISSUER_URL''), def_IssuerURL defaults];
          claimStyle = firstNonEmpty [Getenv env (envKey pid ''CLAIM_STYLE''), def_ClaimStyle defaults];
          displayName = firstNonEmpty [Getenv env (envKey pid ''DISPLAY_NAME''), def_DisplayName defaults, titleCase pid];
          scopes = parseScopes (Getenv env (envKey pid ''SCOPES''))
      in if clientID = [] then Inr None
         else if clientSecret = [] then Inl (MissingClientSecret pid)
         else if issuerURL = [] then Inl (MissingIssuerURL pid)
         else if claimStyle = [] then Inl (MissingClaimStyle pid)
         else Inr (Some
           \<lparr>pr_ID = pid, pr_DisplayName = displayName, pr_IssuerURL = issuerURL, pr_ClientID = clientID,
            pr_ClientSecret = clientSecret, pr_ClaimStyle = claimStyle,
            pr_Scopes = (if scopes = [] then defaultScopes else scopes),
            pr_MultiTenantIssuer = isMultiTenantIssuer issuerURL\<rparr>))"

fun load_loop :: "environ \<Rightarrow> string list \<Rightarrow> ProviderRegistry \<Rightarrow> provider_error list
    \<Rightarrow> ProviderRegistry \<times> provider_error list" where
  "load_loop env [] registry problems = (registry, problems)"
| "load_loop env (pid # ids) registry problems =
     (case loadProvider env pid of
        Inl e \<Rightarrow> load_loop env ids registry (problems @ [e])
      | Inr None \<Rightarrow> load_loop env ids registry problems
      | Inr (Some p) \<Rightarrow> load_loop env ids (map_put pid p registry) problems)"

definition LoadProviders :: "environ \<Rightarrow> (provider_error list, ProviderRegistry) result" where
  "LoadProviders env =
     (let candidates = candidateProviderIDs env in
      if candidates = [] then Inr []
      else (case load_loop env candidates [] [] of
              (registry, problems) \<Rightarrow> if problems \<noteq> [] then Inl problems else Inr registry))"

section \<open>Database overrides\<close>

record OidcProvider =
  op_ID :: string
  op_DisplayName :: "string option"
  op_IssuerUrl :: "string option"
  op_ClientID :: "string option"
  op_ClientSecret :: "string option"
  op_ClaimStyle :: "string option"
  op_Scopes :: "string list option"
  op_Enabled :: bool

record DBProviderRow =
  row_ID :: string
  row_DisplayName :: "string option"
  row_IssuerURL :: "string option"
  row_ClientID :: "string option"
  row_ClientSecret :: "string option"
  row_ClaimStyle :: "string option"
  row_Scopes :: "string list"
  row_ScopesSet :: bool
  row_Enabled :: bool

record MergedProvider =
  mp_ID :: string
  Effective :: Provider
  DBOverride :: "DBProviderRow option"
  EnvValues :: "Provider option"
  WellKnownDefaults :: "providerDefaults option"
  HasClientSecret :: bool

definition pgtypeText :: "string option \<Rightarrow> string \<times> bool" where
  "pgtypeText t = (case t of None \<Rightarrow> ([], False) | Some s \<Rightarrow> if s = [] then ([], False) else (s, True))"

definition nullableStr :: "DBProviderRow option \<Rightarrow> (DBProviderRow \<Rightarrow> string option) \<Rightarrow> string" where
  "nullableStr r fn =
     (case r of None \<Rightarrow> [] | Some r \<Rightarrow> (case pgtypeText (fn r) of (v, ok) \<Rightarrow> if ok then v else []))"

definition envStr :: "Provider option \<Rightarrow> (Provider \<Rightarrow> string) \<Rightarrow> string" where
  "envStr p fn = (case p of None \<Rightarrow> [] | Some p \<Rightarrow> fn p)"

definition defaultsStr :: "providerDefaults option \<Rightarrow> (providerDefaults \<Rightarrow> string) \<Rightarrow> string" where
  "defaultsStr d fn = (case d of None \<Rightarrow> [] | Some d \<Rightarrow> fn d)"

fun pickStr :: "string list \<Rightarrow> string" where
  "pickStr [] = []"
| "pickStr (c # cs) = (if c \<noteq> [] then c else pickStr cs)"

definition pickScopes :: "DBProviderRow option \<Rightarrow> Provider option \<Rightarrow> string list \<Rightarrow> string list" where
  "pickScopes dbRow env fallback =
     (case dbRow of
        Some r \<Rightarrow>
          if row_ScopesSet r \<and> row_Scopes r \<noteq> [] then row_Scopes r
          else (case env of Some p \<Rightarrow> if pr_Scopes p \<noteq> [] then pr_Scopes p else fallback | None \<Rightarrow> fallback)
      | None \<Rightarrow> (case env of Some p \<Rightarrow> if pr_Scopes p \<noteq> [] then pr_Scopes p else fallback | None \<Rightarrow> fallback))"

definition toDBProviderRow :: "OidcProvider \<Rightarrow> DBProviderRow" where
  "toDBProviderRow r =
     \<lparr>row_ID = op_ID r, row_DisplayName = op_DisplayName r, row_IssuerURL = op_IssuerUrl r,
      row_ClientID = op_ClientID r, row_ClientSecret = op_ClientSecret r, row_ClaimStyle = op_ClaimStyle r,
      row_Scopes = (case op_Scopes r of None \<Rightarrow> [] | Some ss \<Rightarrow> ss),
      row_ScopesSet = (op_Scopes r \<noteq> None), row_Enabled = op_Enabled r\<rparr>"

definition mergeFields ::
  "string \<Rightarrow> Provider option \<Rightarrow> DBProviderRow option \<Rightarrow> providerDefaults option \<Rightarrow> MergedProvider" where
  "mergeFields pid env dbRow defaults =
     (let issuer = pickStr [nullableStr dbRow row_IssuerURL, envStr env pr_IssuerURL, defaultsStr defaults def_IssuerURL];
          effective =
            \<lparr>pr_ID = pid,
             pr_DisplayName = pickStr [nullableStr dbRow row_DisplayName, envStr env pr_DisplayName,
                                       defaultsStr defaults def_DisplayName, titleCase pid],
             pr_IssuerURL = issuer,
             pr_ClientID = pickStr [nullableStr dbRow row_ClientID, envStr env pr_ClientID],
             pr_ClientSecret = pickStr [nullableStr dbRow row_ClientSecret, envStr env pr_ClientSecret],
             pr_ClaimStyle = pickStr [nullableStr dbRow row_ClaimStyle, envStr env pr_ClaimStyle,
                                      defaultsStr defaults def_ClaimStyle],
             pr_Scopes = pickScopes dbRow env defaultScopes,
             pr_MultiTenantIssuer = isMultiTenantIssuer issuer\<rparr>
      in \<lparr>mp_ID = pid, Effective = effective, DBOverride = dbRow, EnvValues = env,
          WellKnownDefaults = defaults, HasClientSecret = (pr_ClientSecret effective \<noteq> [])\<rparr>)"

definition rows_by_id :: "OidcProvider list \<Rightarrow> string \<rightharpoonup> DBProviderRow" where
  "rows_by_id rows = map_of (rev (map (\<lambda>r. (op_ID r, toDBProviderRow r)) rows))"

definition LoadMergedProviders ::
  "ProviderRegistry \<Rightarrow> ('e, OidcProvider list) result \<Rightarrow> ('e, (string \<times> MergedProvider) list) result" where
  "LoadMergedProviders envRegistry list_result =
     (case list_result of
        Inl e \<Rightarrow> Inl e
      | Inr dbRows \<Rightarrow>
          Inr (map (\<lambda>pid. (pid, mergeFields pid (map_of envRegistry pid) (rows_by_id dbRows pid) (wellKnownProviders pid)))
                 (remdups (map fst envRegistry @ map op_ID dbRows))))"

definition MergedEnabled :: "MergedProvider \<Rightarrow> bool" where
  "MergedEnabled m = (case DBOverride m of Some r \<Rightarrow> row_Enabled r | None \<Rightarrow> True)"

definition MergedRegistry :: "(string \<times> MergedProvider) list \<Rightarrow> ProviderRegistry" where
  "MergedRegistry merged =
     map (\<lambda>(pid, m). (pid, Effective m))
       (filter (\<lambda>(pid, m). MergedEnabled m \<and> pr_ClientID (Effective m) \<noteq> [] \<and>
                  pr_IssuerURL (Effective m) \<noteq> [] \<and> pr_ClaimStyle (Effective m) \<noteq> []) merged)"

section \<open>The boot verdict\<close>

datatype BootState = BootStateConfirmedOK | BootStateConfirmedOptOut | BootStateInitFailed | BootStateNoEnvNoFlag

definition Confirmed :: "BootState \<Rightarrow> bool" where
  "Confirmed s \<longleftrightarrow> s = BootStateConfirmedOK \<or> s = BootStateConfirmedOptOut"

record ProviderInitView =
  view_ID :: string
  Configured :: bool
  Enabled :: bool
  InitOK :: bool

record BootStateResult =
  State :: BootState
  EnabledIDs :: "string list"

text \<open>The counting loop: enabled identifiers in order, number initialised, number configured.\<close>

fun count_views :: "ProviderInitView list \<Rightarrow> string list \<times> nat \<times> nat \<Rightarrow> string list \<times> nat \<times> nat" where
  "count_views [] acc = acc"
| "count_views (p # ps) (enabled, initOK, candidates) =
     (if \<not> Configured p then count_views ps (enabled, initOK, candidates)
      else if \<not> Enabled p then count_views ps (enabled, initOK, Suc candidates)
      else count_views ps (enabled @ [view_ID p], if InitOK p then Suc initOK else initOK, Suc candidates))"

definition DetermineBootState :: "ProviderInitView list \<Rightarrow> bool \<Rightarrow> bool \<Rightarrow> BootStateResult" where
  "DetermineBootState providers dbOptOut envNoOIDCAccounts =
     (case count_views providers ([], 0, 0) of
        (enabled, initOKCount, candidateCount) \<Rightarrow>
          \<lparr>State =
             (if candidateCount = 0 then
                (if dbOptOut \<or> envNoOIDCAccounts then BootStateConfirmedOptOut else BootStateNoEnvNoFlag)
              else if enabled = [] then
                (if dbOptOut then BootStateConfirmedOptOut else BootStateInitFailed)
              else if int (length enabled) - int initOKCount > 0 then BootStateInitFailed
              else BootStateConfirmedOK),
           EnabledIDs = enabled\<rparr>)"

section \<open>The state cookie's path\<close>

datatype cookie_path_error = NoLeadingSlash | NoSegment | EmptySegment | DotSegment | BadSegmentByte nat

definition isCookiePathSegmentByte :: "char \<Rightarrow> bool" where
  "isCookiePathSegmentByte b \<longleftrightarrow>
     is_ascii_lower b \<or> is_ascii_upper b \<or> is_ascii_digit b \<or> b \<in> {CHR ''-'', CHR ''.'', CHR ''_'', CHR ''~''}"

fun bad_byte :: "string \<Rightarrow> nat option" where
  "bad_byte [] = None"
| "bad_byte (b # bs) = (if \<not> isCookiePathSegmentByte b then Some 0 else map_option Suc (bad_byte bs))"

fun check_segments :: "string list \<Rightarrow> (cookie_path_error, unit) result" where
  "check_segments [] = Inr ()"
| "check_segments (seg # segs) =
     (if seg = [] then Inl EmptySegment
      else if seg = ''.'' \<or> seg = ''..'' then Inl DotSegment
      else (case bad_byte seg of Some i \<Rightarrow> Inl (BadSegmentByte i) | None \<Rightarrow> check_segments segs))"

definition ValidateCookieBasePath :: "string \<Rightarrow> (cookie_path_error, unit) result" where
  "ValidateCookieBasePath p =
     (case p of
        [] \<Rightarrow> Inr ()
      | c # rest \<Rightarrow>
          if c \<noteq> CHR ''/'' then Inl NoLeadingSlash
          else if rest = [] then Inl NoSegment
          else check_segments (Split rest (CHR ''/'')))"

definition oidcStateCookieMarker :: string where
  "oidcStateCookieMarker = ''/v1/auth/oidc/''"

text \<open>The request is present as the path of its URL, \<open>None\<close> for a nil request or URL.\<close>

definition OIDCStateCookiePath :: "string option \<Rightarrow> string \<Rightarrow> string" where
  "OIDCStateCookiePath url_path basePath =
     (if basePath \<noteq> [] \<and> is_ok (ValidateCookieBasePath basePath) then basePath @ oidcStateCookieMarker
      else
        (case url_path of
           None \<Rightarrow> oidcStateCookieMarker
         | Some path \<Rightarrow>
             (case Index path oidcStateCookieMarker of
                None \<Rightarrow> oidcStateCookieMarker
              | Some i \<Rightarrow> take i path @ oidcStateCookieMarker)))"

section \<open>Lemmas\<close>

lemma load_loop_snd:
  "snd (load_loop env ids reg probs) = probs @ concat (map (\<lambda>i. case loadProvider env i of Inl e \<Rightarrow> [e] | _ \<Rightarrow> []) ids)"
  by (induction env ids reg probs rule: load_loop.induct) (auto split: sum.splits option.splits)

lemma load_loop_fst:
  "map_of (fst (load_loop env ids reg probs)) i =
     (if i \<in> set ids \<and> (\<exists>p. loadProvider env i = Inr (Some p))
      then (case loadProvider env i of Inr p \<Rightarrow> p | Inl _ \<Rightarrow> None) else map_of reg i)"
  by (induction env ids reg probs rule: load_loop.induct) (auto split: sum.splits option.splits)

lemma load_loop_distinct:
  "distinct (map fst reg) \<Longrightarrow> distinct (map fst (fst (load_loop env ids reg probs)))"
  by (induction env ids reg probs rule: load_loop.induct)
     (auto split: sum.splits option.splits simp: distinct_map_put)

lemma distinct_candidates: "distinct (candidateProviderIDs env)"
  by (simp add: candidateProviderIDs_def Let_def distinct_append_unseen)

lemma ToLower_eq_Nil: "ToLower t = [] \<longleftrightarrow> t = []"
  by (simp add: ToLower_def)

lemma TrimSpace_lower: "ToLower t = t \<Longrightarrow> ToLower (TrimSpace t) = TrimSpace t"
  by (metis TrimSpace_ToLower)

lemma candidate_lower:
  assumes "i \<in> set (candidateProviderIDs env)"
  shows "i \<noteq> [] \<and> ToLower i = i"
  using assms
  by (auto simp: candidateProviderIDs_def Let_def TrimSpace_lower ToLower_eq_Nil split: if_splits)

lemma loadProvider_Some:
  assumes "loadProvider env i = Inr (Some p)"
  shows "pr_ID p = i \<and> pr_ClientID p = Getenv env (envKey i ''CLIENT_ID'') \<and> pr_ClientID p \<noteq> [] \<and>
    pr_ClientSecret p \<noteq> [] \<and> pr_IssuerURL p \<noteq> [] \<and> pr_ClaimStyle p \<noteq> [] \<and> pr_Scopes p \<noteq> [] \<and>
    pr_MultiTenantIssuer p = isMultiTenantIssuer (pr_IssuerURL p)"
  using assms unfolding loadProvider_def Let_def
  by (simp del: firstNonEmpty.simps split: if_split_asm) (auto simp: defaultScopes_def)

lemma loadProvider_None: "loadProvider env i = Inr None \<longleftrightarrow> Getenv env (envKey i ''CLIENT_ID'') = []"
  by (simp add: loadProvider_def Let_def)

lemma count_views_eq:
  "count_views ps (en, ok, n) =
     (en @ map view_ID (filter (\<lambda>p. Configured p \<and> Enabled p) ps),
      ok + length (filter (\<lambda>p. Configured p \<and> Enabled p \<and> InitOK p) ps),
      n + length (filter Configured ps))"
  by (induction ps arbitrary: en ok n) auto

lemma length_filter_eq_iff: "length (filter P xs) = length xs \<longleftrightarrow> list_all P xs"
proof (induction xs)
  case (Cons x xs)
  moreover have "length (filter P xs) \<noteq> Suc (length xs)"
    using length_filter_le [of P xs] by linarith
  ultimately show ?case by auto
qed simp

lemma map_of_MergedRegistry:
  assumes "distinct (map fst merged)"
  shows "map_of (MergedRegistry merged) i = Some p \<longleftrightarrow>
    (\<exists>m. map_of merged i = Some m \<and> Effective m = p \<and> MergedEnabled m \<and>
         pr_ClientID p \<noteq> [] \<and> pr_IssuerURL p \<noteq> [] \<and> pr_ClaimStyle p \<noteq> [])"
  using assms
proof (induction merged)
  case (Cons e merged)
  obtain j m where e: "e = (j, m)" by (cases e)
  have "j \<notin> fst ` set merged" using Cons.prems e by simp
  then have "map_of merged j = None" "map_of (MergedRegistry merged) j = None"
    by (force simp: map_of_eq_None_iff MergedRegistry_def)+
  then show ?case
    using Cons e by (auto simp: MergedRegistry_def)
qed (simp add: MergedRegistry_def)

lemma bad_byte_None: "bad_byte s = None \<longleftrightarrow> (\<forall>b \<in> set s. isCookiePathSegmentByte b)"
  by (induction s) auto

lemma check_segments_ok:
  "is_ok (check_segments segs) \<longleftrightarrow>
     (\<forall>s \<in> set segs. s \<noteq> [] \<and> s \<noteq> ''.'' \<and> s \<noteq> ''..'' \<and> (\<forall>b \<in> set s. isCookiePathSegmentByte b))"
  by (induction segs) (auto split: option.splits simp: bad_byte_None [symmetric])

lemma not_segment_slash: "\<not> isCookiePathSegmentByte (CHR ''/'')"
  by (simp add: isCookiePathSegmentByte_def is_ascii_lower_def is_ascii_upper_def is_ascii_digit_def byte_def)

lemma Split_append_sep: "Split (a @ c # b) c = Split a c @ Split b c"
  by (induction a) (auto split: list.splits)

lemma in_Split_imp: "b \<in> set s \<Longrightarrow> b \<noteq> c \<Longrightarrow> \<exists>p \<in> set (Split s c). b \<in> set p"
  by (induction s) (auto split: list.splits)

lemma ValidateCookieBasePath_ok:
  assumes "is_ok (ValidateCookieBasePath p)" "p \<noteq> []"
  obtains rest where "p = CHR ''/'' # rest"
    "\<forall>s \<in> set (Split rest (CHR ''/'')).
       s \<noteq> [] \<and> s \<noteq> ''.'' \<and> s \<noteq> ''..'' \<and> (\<forall>b \<in> set s. isCookiePathSegmentByte b)"
  using assms by (cases p) (auto simp: ValidateCookieBasePath_def check_segments_ok split: if_splits)

section \<open>Properties\<close>

text \<open>
  Loading the providers from the environment: it succeeds exactly if no candidate
  is misconfigured; the registry then has exactly the candidates with a client id, each once
  and under its own identifier, and each has a client id, a secret, an issuer, a claim style and
  scopes. Candidate identifiers are distinct, non-empty and lower case.
\<close>

theorem LoadProviders_spec:
  "distinct (candidateProviderIDs env) \<and>
   (\<forall>i. i \<in> set (candidateProviderIDs env) \<longrightarrow> i \<noteq> [] \<and> ToLower i = i) \<and>
   (is_ok (LoadProviders env) \<longleftrightarrow> (\<forall>i. i \<in> set (candidateProviderIDs env) \<longrightarrow> is_ok (loadProvider env i))) \<and>
   (\<forall>reg. LoadProviders env = Inr reg \<longrightarrow>
      distinct (map fst reg) \<and>
      fst ` set reg = {i. i \<in> set (candidateProviderIDs env) \<and> Getenv env (envKey i ''CLIENT_ID'') \<noteq> []} \<and>
      (\<forall>i p. map_of reg i = Some p \<longrightarrow> loadProvider env i = Inr (Some p) \<and> pr_ID p = i \<and>
         pr_ClientID p \<noteq> [] \<and> pr_ClientSecret p \<noteq> [] \<and> pr_IssuerURL p \<noteq> [] \<and>
         pr_ClaimStyle p \<noteq> [] \<and> pr_Scopes p \<noteq> []))"
proof (intro conjI)
  let ?c = "candidateProviderIDs env"
  define r where "r = load_loop env ?c [] []"
  have L: "LoadProviders env = (if snd r \<noteq> [] then Inl (snd r) else Inr (fst r))"
    by (auto simp: LoadProviders_def Let_def r_def split: prod.splits)
  have probs: "snd r = [] \<longleftrightarrow> (\<forall>i. i \<in> set ?c \<longrightarrow> is_ok (loadProvider env i))"
    by (auto simp: r_def load_loop_snd split: sum.splits) (metis is_ok_simps(1) sum.exhaust)
  show "is_ok (LoadProviders env) \<longleftrightarrow> (\<forall>i. i \<in> set ?c \<longrightarrow> is_ok (loadProvider env i))"
    using L probs by simp
  show "\<forall>reg. LoadProviders env = Inr reg \<longrightarrow>
      distinct (map fst reg) \<and>
      fst ` set reg = {i. i \<in> set ?c \<and> Getenv env (envKey i ''CLIENT_ID'') \<noteq> []} \<and>
      (\<forall>i p. map_of reg i = Some p \<longrightarrow> loadProvider env i = Inr (Some p) \<and> pr_ID p = i \<and>
         pr_ClientID p \<noteq> [] \<and> pr_ClientSecret p \<noteq> [] \<and> pr_IssuerURL p \<noteq> [] \<and>
         pr_ClaimStyle p \<noteq> [] \<and> pr_Scopes p \<noteq> [])"
  proof (intro allI impI)
    fix reg
    assume "LoadProviders env = Inr reg"
    then have reg: "reg = fst r" and ok: "\<And>i. i \<in> set ?c \<Longrightarrow> is_ok (loadProvider env i)"
      using L probs by (auto split: if_splits)
    have look: "map_of reg i = Some p \<longleftrightarrow> i \<in> set ?c \<and> loadProvider env i = Inr (Some p)" for i p
      by (auto simp: reg r_def load_loop_fst split: if_splits)
    have "i \<in> fst ` set reg \<longleftrightarrow> i \<in> set ?c \<and> Getenv env (envKey i ''CLIENT_ID'') \<noteq> []" for i
    proof -
      have "i \<in> fst ` set reg \<longleftrightarrow> (\<exists>p. map_of reg i = Some p)"
        by (metis map_of_eq_None_iff not_None_eq)
      also have "\<dots> \<longleftrightarrow> i \<in> set ?c \<and> (\<exists>p. loadProvider env i = Inr (Some p))"
        using look by blast
      also have "\<dots> \<longleftrightarrow> i \<in> set ?c \<and> Getenv env (envKey i ''CLIENT_ID'') \<noteq> []"
        using ok [of i] loadProvider_None [of env i] by (auto simp: is_ok_iff)
      finally show ?thesis .
    qed
    moreover have "distinct (map fst reg)"
      by (simp add: reg r_def load_loop_distinct)
    ultimately show "distinct (map fst reg) \<and>
      fst ` set reg = {i. i \<in> set ?c \<and> Getenv env (envKey i ''CLIENT_ID'') \<noteq> []} \<and>
      (\<forall>i p. map_of reg i = Some p \<longrightarrow> loadProvider env i = Inr (Some p) \<and> pr_ID p = i \<and>
         pr_ClientID p \<noteq> [] \<and> pr_ClientSecret p \<noteq> [] \<and> pr_IssuerURL p \<noteq> [] \<and>
         pr_ClaimStyle p \<noteq> [] \<and> pr_Scopes p \<noteq> [])"
      using look loadProvider_Some by blast
  qed
qed (use distinct_candidates candidate_lower in blast)+

theorem LoadProviders_spec_witness:
  "\<exists>reg. LoadProviders [(''AUTH_PROVIDERS'', ''x'')] = Inr reg \<and> fst ` set reg = {}"
proof -
  let ?e = "[(''AUTH_PROVIDERS'', ''x'')]"
  have "loadProvider ?e i = Inr None" for i
    by (simp add: loadProvider_None Getenv_def envKey_def)
  then obtain reg where "LoadProviders ?e = Inr reg"
    using LoadProviders_spec [of ?e] by (auto simp: is_ok_iff)
  with LoadProviders_spec [of ?e] show ?thesis
    by (auto simp: Getenv_def envKey_def)
qed

text \<open>
  The effective registry: a provider is in it exactly if the environment or the database
  knows its identifier, the database row (if any) is enabled, and client id, issuer and claim
  style are all resolved; and its fields come from the database row if that has a non-empty
  value, else from the environment, else from the well-known defaults (client id and secret
  have no default).
\<close>

theorem MergedRegistry_spec:
  assumes "LoadMergedProviders env (Inr rows) = Inr merged"
  shows "map_of (MergedRegistry merged) i = Some p \<longleftrightarrow>
    (i \<in> fst ` set env \<or> i \<in> op_ID ` set rows) \<and>
    p = Effective (mergeFields i (map_of env i) (rows_by_id rows i) (wellKnownProviders i)) \<and>
    (\<forall>r. rows_by_id rows i = Some r \<longrightarrow> row_Enabled r) \<and>
    pr_ClientID p \<noteq> [] \<and> pr_IssuerURL p \<noteq> [] \<and> pr_ClaimStyle p \<noteq> []"
proof -
  let ?m = "\<lambda>i. mergeFields i (map_of env i) (rows_by_id rows i) (wellKnownProviders i)"
  let ?ids = "remdups (map fst env @ map op_ID rows)"
  have m: "merged = map (\<lambda>i. (i, ?m i)) ?ids"
    using assms by (simp add: LoadMergedProviders_def)
  have d: "distinct (map fst merged)"
    by (simp add: m o_def)
  have look: "map_of merged i = (if i \<in> fst ` set env \<or> i \<in> op_ID ` set rows then Some (?m i) else None)"
    unfolding m by (auto simp: map_of_map_restrict restrict_map_def)
  have en: "MergedEnabled (?m i) \<longleftrightarrow> (\<forall>r. rows_by_id rows i = Some r \<longrightarrow> row_Enabled r)"
    by (auto simp: MergedEnabled_def mergeFields_def Let_def split: option.splits)
  show ?thesis
    using map_of_MergedRegistry [OF d, of i p] look en by (auto split: if_splits)
qed

theorem MergedRegistry_spec_witness:
  "\<exists>merged p. LoadMergedProviders []
      (Inr [\<lparr>op_ID = ''google'', op_DisplayName = None, op_IssuerUrl = None, op_ClientID = Some ''c'',
             op_ClientSecret = None, op_ClaimStyle = None, op_Scopes = None, op_Enabled = True\<rparr>])
        = (Inr merged :: (unit, _) result) \<and>
     map_of (MergedRegistry merged) ''google'' = Some p \<and> pr_ClientID p = ''c''"
proof -
  let ?rows = "[\<lparr>op_ID = ''google'', op_DisplayName = None, op_IssuerUrl = None, op_ClientID = Some ''c'',
             op_ClientSecret = None, op_ClaimStyle = None, op_Scopes = None, op_Enabled = True\<rparr>]"
  obtain merged where m: "LoadMergedProviders [] (Inr ?rows) = (Inr merged :: (unit, _) result)"
    by (simp add: LoadMergedProviders_def)
  let ?p = "Effective (mergeFields ''google'' None (rows_by_id ?rows ''google'') (wellKnownProviders ''google''))"
  have f: "pr_ClientID ?p = ''c''" "pr_IssuerURL ?p \<noteq> []" "pr_ClaimStyle ?p \<noteq> []"
    by (simp_all add: mergeFields_def rows_by_id_def toDBProviderRow_def nullableStr_def pgtypeText_def
        wellKnownProviders_def defaultsStr_def envStr_def Let_def)
  have "map_of (MergedRegistry merged) ''google'' = Some ?p"
    using MergedRegistry_spec [OF m, of "''google''" ?p] f
    by (simp add: rows_by_id_def toDBProviderRow_def)
  with m f show ?thesis by blast
qed

text \<open>
  The boot verdict: the system may serve traffic exactly if OIDC was opted out with
  nothing enabled (by the database flag, or by the environment flag when no provider is
  configured at all), or at least one provider is enabled and every enabled one initialised;
  the enabled identifiers are those of the configured and enabled providers in order.
\<close>

theorem DetermineBootState_spec:
  "let r = DetermineBootState ps dbOptOut envNoOIDC;
       en = filter (\<lambda>p. Configured p \<and> Enabled p) ps
   in EnabledIDs r = map view_ID en \<and>
      (Confirmed (State r) \<longleftrightarrow>
         (if en = [] then dbOptOut \<or> envNoOIDC \<and> filter Configured ps = []
          else list_all InitOK en)) \<and>
      (State r = BootStateConfirmedOK \<longleftrightarrow> en \<noteq> [] \<and> list_all InitOK en)"
proof -
  define en where "en = filter (\<lambda>p. Configured p \<and> Enabled p) ps"
  define cn where "cn = filter Configured ps"
  have "filter (\<lambda>p. Configured p \<and> Enabled p \<and> InitOK p) ps = filter InitOK en"
    by (simp add: en_def conj_ac)
  then have c: "count_views ps ([], 0, 0) = (map view_ID en, length (filter InitOK en), length cn)"
    by (simp add: count_views_eq en_def cn_def)
  have "cn = [] \<Longrightarrow> en = []"
    by (auto simp: cn_def en_def filter_empty_conv)
  moreover have "length en \<le> length (filter InitOK en) \<longleftrightarrow> list_all InitOK en"
    using length_filter_eq_iff [of InitOK en] length_filter_le [of InitOK en] by linarith
  ultimately show ?thesis
    unfolding DetermineBootState_def c en_def [symmetric] cn_def [symmetric] Let_def
    by (cases "en = []") (auto simp: Confirmed_def)
qed

text \<open>
  The path of the OIDC state cookie always ends in the callback marker. With a valid
  configured base path it is that path and the marker, all its bytes are unreserved
  characters or slashes (so it cannot inject a cookie attribute) and no segment of it is empty
  or a dot segment. Without one it is a prefix of the request path whenever that contains the
  marker, so that the browser sends the cookie back.
\<close>

theorem OIDCStateCookiePath_safe:
  "let r = OIDCStateCookiePath url basePath in
   HasSuffix r ''/v1/auth/oidc/'' \<and>
   (basePath \<noteq> [] \<and> is_ok (ValidateCookieBasePath basePath) \<longrightarrow>
      r = basePath @ ''/v1/auth/oidc/'' \<and>
      list_all (\<lambda>c. isCookiePathSegmentByte c \<or> c = CHR ''/'') r \<and>
      list_all (\<lambda>s. s \<noteq> [] \<and> s \<noteq> ''.'' \<and> s \<noteq> ''..'') (butlast (tl (Split r (CHR ''/''))))) \<and>
   (basePath = [] \<longrightarrow> (\<forall>path. url = Some path \<longrightarrow> Contains path ''/v1/auth/oidc/'' \<longrightarrow> HasPrefix path r))"
proof -
  let ?r = "OIDCStateCookiePath url basePath"
  have suf: "HasSuffix ?r ''/v1/auth/oidc/''"
    by (auto simp: OIDCStateCookiePath_def oidcStateCookieMarker_def HasSuffix_iff split: option.splits)
  have marker: "list_all (\<lambda>c. isCookiePathSegmentByte c \<or> c = CHR ''/'') ''/v1/auth/oidc/''"
    by (simp add: isCookiePathSegmentByte_def is_ascii_lower_def is_ascii_digit_def byte_def)
  have valid: "?r = basePath @ ''/v1/auth/oidc/'' \<and>
      list_all (\<lambda>c. isCookiePathSegmentByte c \<or> c = CHR ''/'') ?r \<and>
      list_all (\<lambda>s. s \<noteq> [] \<and> s \<noteq> ''.'' \<and> s \<noteq> ''..'') (butlast (tl (Split ?r (CHR ''/''))))"
    if "basePath \<noteq> []" "is_ok (ValidateCookieBasePath basePath)"
  proof -
    note base = that
    obtain rest where b: "basePath = CHR ''/'' # rest" and
      segs: "\<forall>s \<in> set (Split rest (CHR ''/'')).
         s \<noteq> [] \<and> s \<noteq> ''.'' \<and> s \<noteq> ''..'' \<and> (\<forall>b \<in> set s. isCookiePathSegmentByte b)"
      by (rule ValidateCookieBasePath_ok [OF base(2,1)])
    have r: "?r = basePath @ ''/v1/auth/oidc/''"
      using that by (simp add: OIDCStateCookiePath_def oidcStateCookieMarker_def)
    have "isCookiePathSegmentByte c" if "c \<in> set rest" "c \<noteq> CHR ''/''" for c
      using in_Split_imp [OF that] segs by blast
    then have "list_all (\<lambda>c. isCookiePathSegmentByte c \<or> c = CHR ''/'') basePath"
      by (auto simp: b list_all_iff)
    moreover have "butlast (tl (Split ?r (CHR ''/''))) = Split rest (CHR ''/'') @ [''v1'', ''auth'', ''oidc'']"
      using Split_append_sep [of rest "CHR ''/''" "''v1/auth/oidc/''"]
      unfolding r by (simp add: b butlast_append)
    ultimately show ?thesis
      using r marker segs by (auto simp: list_all_iff)
  qed
  have derived: "HasPrefix path ?r"
    if "basePath = []" "url = Some path" "Contains path ''/v1/auth/oidc/''" for path
  proof -
    note req = that
    obtain i where i: "Index path ''/v1/auth/oidc/'' = Some i"
      using req(3) by (auto simp: Contains_def)
    have "path = take i path @ take (length ''/v1/auth/oidc/'') (drop i path) @
        drop (length ''/v1/auth/oidc/'') (drop i path)"
      by (simp only: append_take_drop_id)
    also have "take (length ''/v1/auth/oidc/'') (drop i path) = ''/v1/auth/oidc/''"
      using Index_Some [OF i] by blast
    finally show ?thesis
      using that i by (auto simp: OIDCStateCookiePath_def oidcStateCookieMarker_def HasPrefix_iff)
  qed
  show ?thesis
    unfolding Let_def using suf valid derived by blast
qed

theorem OIDCStateCookiePath_safe_witness:
  "OIDCStateCookiePath None ''/users'' = ''/users/v1/auth/oidc/'' \<and>
   HasPrefix ''/m/v1/auth/oidc/g/cb'' (OIDCStateCookiePath (Some ''/m/v1/auth/oidc/g/cb'') [])"
proof -
  have v: "is_ok (ValidateCookieBasePath ''/users'')"
    by (simp add: ValidateCookieBasePath_def isCookiePathSegmentByte_def is_ascii_lower_def byte_def)
  have "Contains ''/m/v1/auth/oidc/g/cb'' ''/v1/auth/oidc/''"
    by (simp add: Contains_def HasPrefix_def)
  with v OIDCStateCookiePath_safe [of None "''/users''"]
    OIDCStateCookiePath_safe [of "Some ''/m/v1/auth/oidc/g/cb''" "[]"]
  show ?thesis by (simp add: Let_def)
qed

end
