(* ===== verification/Database.thy ===== *)
theory Database
  imports Providers
begin

text \<open>
  The database layer, \<open>model/db\<close>: the row types of \<open>models.go\<close> and the queries of the
  \<open>*.sql.go\<close> files, over the tables of \<open>model/migrations/sql\<close>.

  A table is the list of its rows in insertion order. \<open>NOW()\<close>, a generated UUID and the next
  value of a sequence are what the server picks: the first two are arguments, the third a
  counter of the database that is above every identifier in use. A query returns the error
  \<open>NoRows\<close> for \<open>pgx.ErrNoRows\<close>, a constraint violation, or a fault (a lost connection, a
  cancelled context); faults are not produced by the query but injected at the call site by
  \<open>at\<close>, so that every error branch of a caller can be taken. The tables of the core module,
  which are not part of the program, are an opaque component \<open>core\<close> of the state.
\<close>

section \<open>Rows\<close>

record UserAccount =
  ua_ID :: int
  ua_Uuid :: string
  ua_AccountHolder :: int
  ua_Email :: "string option"
  ua_EmailVerifiedAt :: "instant option"
  ua_DefaultAppID :: "int option"
  ua_CreatedAt :: instant
  ua_UpdatedAt :: instant

record AuthLocal =
  al_UserAccountID :: int
  al_PasswordHash :: string
  al_PasswordUpdatedAt :: instant
  al_CreatedAt :: instant

record AuthOidcIdentity =
  oi_ID :: int
  oi_Uuid :: string
  oi_UserAccountID :: int
  oi_Issuer :: string
  oi_Subject :: string
  oi_Email :: "string option"
  oi_EmailVerifiedAtIdp :: "instant option"
  oi_LinkedAt :: instant
  oi_LastSeenAt :: instant

record EmailCode =
  ec_ID :: int
  ec_UserAccountID :: int
  ec_CodeHash :: string
  ec_Purpose :: string
  ec_ExpiresAt :: instant
  ec_ConsumedAt :: "instant option"
  ec_CreatedAt :: instant
  ec_FailedAttempts :: int

record PasswordReset =
  prs_ID :: int
  prs_UserAccountID :: int
  prs_TokenHash :: string
  prs_ExpiresAt :: instant
  prs_ConsumedAt :: "instant option"
  prs_CreatedAt :: instant

record ModUsersSshPublicKey =
  sk_ID :: int
  sk_Uuid :: string
  sk_UserAccountID :: int
  sk_KeyType :: string
  sk_PublicKey :: string
  sk_FingerprintSha256 :: string
  sk_Label :: string
  sk_CreatedAt :: instant
  sk_ArchivedAt :: "instant option"

record AnonToken =
  an_ID :: int
  an_Uuid :: string
  an_DeviceID :: string
  an_SessionToken :: string
  an_UserAccountID :: int
  an_CreatedAt :: instant
  an_ExpiresAt :: instant

record AppsUserAccount =
  ap_AppID :: int
  ap_UserAccountID :: int
  ap_Roles :: "string list"
  ap_AssignedAt :: instant

record 'c db =
  user_accounts :: "UserAccount list"
  auth_local :: "AuthLocal list"
  auth_oidc_identities :: "AuthOidcIdentity list"
  email_codes :: "EmailCode list"
  password_resets :: "PasswordReset list"
  ssh_public_keys :: "ModUsersSshPublicKey list"
  anon_tokens :: "AnonToken list"
  apps_user_accounts :: "AppsUserAccount list"
  jwt_secret :: "string option"
  next_id :: int
  core :: 'c

datatype db_error = NoRows | UniqueViolation string | ForeignKeyViolation string | CheckViolation string | DbFault

type_synonym 'a query = "(db_error, 'a) result"

text \<open>A call at site \<open>k\<close>: it fails there if \<open>flt\<close> says so, else it does what the query does.\<close>

definition at :: "(nat \<Rightarrow> bool) \<Rightarrow> nat \<Rightarrow> 'a query \<Rightarrow> 'a query" where
  "at flt k q = (if flt k then Inl DbFault else q)"

lemma at_Inr [simp]: "at flt k q = Inr x \<longleftrightarrow> \<not> flt k \<and> q = Inr x"
  by (simp add: at_def)

lemma at_NoRows [simp]: "at flt k q = Inl NoRows \<longleftrightarrow> \<not> flt k \<and> q = Inl NoRows"
  by (simp add: at_def)

lemma at_ok_Inl [simp]: "at flt k (Inr x) = Inl e \<longleftrightarrow> flt k \<and> e = DbFault"
  by (auto simp: at_def)

definition one :: "'a option \<Rightarrow> 'a query" where
  "one r = (case r of None \<Rightarrow> Inl NoRows | Some x \<Rightarrow> Inr x)"

lemma one_simps [simp]: "one (Some x) = Inr x" "one None = Inl NoRows"
  "one r = Inr x \<longleftrightarrow> r = Some x" "one r = Inl e \<longleftrightarrow> r = None \<and> e = NoRows"
  by (auto simp: one_def split: option.splits)

lemma find_SomeD: "find P xs = Some x \<Longrightarrow> P x \<and> x \<in> set xs"
  by (induction xs) (auto split: if_splits)

lemma find_snoc: "find P (xs @ [y]) = (case find P xs of None \<Rightarrow> if P y then Some y else None | Some z \<Rightarrow> Some z)"
  by (induction xs) auto

section \<open>\<open>user_accounts\<close>\<close>

definition GetUserAccountByID :: "'c db \<Rightarrow> int \<Rightarrow> UserAccount query" where
  "GetUserAccountByID d i = one (find (\<lambda>u. ua_ID u = i) (user_accounts d))"

definition GetUserAccountByUUID :: "'c db \<Rightarrow> string \<Rightarrow> UserAccount query" where
  "GetUserAccountByUUID d u = one (find (\<lambda>a. ua_Uuid a = u) (user_accounts d))"

definition GetUserAccountByEmail :: "'c db \<Rightarrow> string \<Rightarrow> UserAccount query" where
  "GetUserAccountByEmail d e =
     one (find (\<lambda>u. map_option ToLower (ua_Email u) = Some (ToLower e)) (user_accounts d))"

definition GetUserAccountByAccountHolder :: "'c db \<Rightarrow> int \<Rightarrow> UserAccount query" where
  "GetUserAccountByAccountHolder d h = one (find (\<lambda>u. ua_AccountHolder u = h) (user_accounts d))"

definition CreateUserAccount ::
  "'c db \<Rightarrow> instant \<Rightarrow> string \<Rightarrow> int \<Rightarrow> string option \<Rightarrow> instant option \<Rightarrow> (UserAccount \<times> 'c db) query" where
  "CreateUserAccount d now uuid holder email verified =
     (if \<exists>u \<in> set (user_accounts d). ua_Uuid u = uuid then Inl (UniqueViolation ''user_accounts_uuid_key'')
      else if \<exists>u \<in> set (user_accounts d). ua_AccountHolder u = holder
        then Inl (UniqueViolation ''user_accounts_account_holder_key'')
      else if email \<noteq> None \<and> (\<exists>u \<in> set (user_accounts d). ua_Email u = email)
        then Inl (UniqueViolation ''user_accounts_email_key'')
      else
        let u = \<lparr>ua_ID = next_id d, ua_Uuid = uuid, ua_AccountHolder = holder, ua_Email = email,
                 ua_EmailVerifiedAt = verified, ua_DefaultAppID = None, ua_CreatedAt = now, ua_UpdatedAt = now\<rparr>
        in Inr (u, d\<lparr>user_accounts := user_accounts d @ [u], next_id := next_id d + 1\<rparr>))"

definition UpdateUserAccount ::
  "'c db \<Rightarrow> instant \<Rightarrow> int \<Rightarrow> string option \<Rightarrow> instant option \<Rightarrow> 'c db query" where
  "UpdateUserAccount d now i email verified =
     (if email \<noteq> None \<and> (\<exists>u \<in> set (user_accounts d). ua_ID u \<noteq> i \<and> ua_Email u = email) \<and>
         (\<exists>u \<in> set (user_accounts d). ua_ID u = i)
        then Inl (UniqueViolation ''user_accounts_email_key'')
      else Inr (d\<lparr>user_accounts :=
          map (\<lambda>u. if ua_ID u = i
                   then u\<lparr>ua_Email := email, ua_EmailVerifiedAt := verified, ua_UpdatedAt := now\<rparr> else u)
            (user_accounts d)\<rparr>))"

text \<open>
  \<open>LIKE\<close>: \<open>%\<close> stands for any sequence, \<open>_\<close> for one character, a backslash quotes the next one. The
  filter of the search is \<open>lower(email) LIKE '%' || lower(q) || '%'\<close> (its first disjunct tests a
  string that is never null); a null e-mail never matches.
\<close>

function like :: "string \<Rightarrow> string \<Rightarrow> bool" where
  "like [] s \<longleftrightarrow> s = []"
| "like (c # p) s \<longleftrightarrow>
     (if c = CHR ''%'' then like p s \<or> (case s of [] \<Rightarrow> False | _ # s' \<Rightarrow> like (c # p) s')
      else
        (case s of
           [] \<Rightarrow> False
         | x # s' \<Rightarrow>
             if c = CHR ''_'' then like p s'
             else if byte c = 92 then (case p of [] \<Rightarrow> False | e # p' \<Rightarrow> x = e \<and> like p' s')
             else x = c \<and> like p s'))"
  by pat_completeness auto
termination
  by (relation "measure (\<lambda>(p, s). length p + length s)") auto

declare like.simps [simp del]

definition SearchUserAccounts :: "'c db \<Rightarrow> string \<Rightarrow> nat \<Rightarrow> nat \<Rightarrow> UserAccount list" where
  "SearchUserAccounts d q lim off =
     take lim (drop off (rev (sort_key ua_CreatedAt
       (filter (\<lambda>u. case ua_Email u of None \<Rightarrow> False | Some e \<Rightarrow> like (''%'' @ ToLower q @ ''%'') (ToLower e)) (user_accounts d)))))"

definition SetDefaultApp :: "'c db \<Rightarrow> int \<Rightarrow> int option \<Rightarrow> 'c db" where
  "SetDefaultApp d i app =
     d\<lparr>user_accounts := map (\<lambda>u. if ua_ID u = i then u\<lparr>ua_DefaultAppID := app\<rparr> else u) (user_accounts d)\<rparr>"

text \<open>
  Removing a row of \<open>user_accounts\<close>, with the \<open>ON DELETE CASCADE\<close>s of the schema. The service itself
  only archives the holder's entity; this is the statement of an operator or of another module.
\<close>

definition delete_user_account :: "'c db \<Rightarrow> int \<Rightarrow> int \<times> 'c db" where
  "delete_user_account d i =
     (int (length (filter (\<lambda>u. ua_ID u = i) (user_accounts d))),
      d\<lparr>user_accounts := filter (\<lambda>u. ua_ID u \<noteq> i) (user_accounts d),
        auth_local := filter (\<lambda>a. al_UserAccountID a \<noteq> i) (auth_local d),
        auth_oidc_identities := filter (\<lambda>x. oi_UserAccountID x \<noteq> i) (auth_oidc_identities d),
        email_codes := filter (\<lambda>c. ec_UserAccountID c \<noteq> i) (email_codes d),
        password_resets := filter (\<lambda>p. prs_UserAccountID p \<noteq> i) (password_resets d),
        ssh_public_keys := filter (\<lambda>k. sk_UserAccountID k \<noteq> i) (ssh_public_keys d),
        anon_tokens := filter (\<lambda>a. an_UserAccountID a \<noteq> i) (anon_tokens d),
        apps_user_accounts := filter (\<lambda>m. ap_UserAccountID m \<noteq> i) (apps_user_accounts d)\<rparr>)"

section \<open>\<open>auth_local\<close>\<close>

definition GetAuthLocal :: "'c db \<Rightarrow> int \<Rightarrow> AuthLocal query" where
  "GetAuthLocal d i = one (find (\<lambda>a. al_UserAccountID a = i) (auth_local d))"

definition account_exists :: "'c db \<Rightarrow> int \<Rightarrow> bool" where
  "account_exists d i \<longleftrightarrow> (\<exists>u \<in> set (user_accounts d). ua_ID u = i)"

definition UpsertAuthLocal :: "'c db \<Rightarrow> instant \<Rightarrow> int \<Rightarrow> string \<Rightarrow> 'c db query" where
  "UpsertAuthLocal d now i hash =
     (if \<not> account_exists d i then Inl (ForeignKeyViolation ''auth_local_user_account_id_fkey'')
      else if \<exists>a \<in> set (auth_local d). al_UserAccountID a = i then
        Inr (d\<lparr>auth_local := map (\<lambda>a. if al_UserAccountID a = i
               then a\<lparr>al_PasswordHash := hash, al_PasswordUpdatedAt := now\<rparr> else a) (auth_local d)\<rparr>)
      else Inr (d\<lparr>auth_local := auth_local d @
               [\<lparr>al_UserAccountID = i, al_PasswordHash = hash, al_PasswordUpdatedAt = now, al_CreatedAt = now\<rparr>]\<rparr>))"

definition DeleteAuthLocal :: "'c db \<Rightarrow> int \<Rightarrow> 'c db" where
  "DeleteAuthLocal d i = d\<lparr>auth_local := filter (\<lambda>a. al_UserAccountID a \<noteq> i) (auth_local d)\<rparr>"

section \<open>\<open>auth_oidc_identities\<close>\<close>

definition GetOIDCIdentityByIssuerSubject :: "'c db \<Rightarrow> string \<Rightarrow> string \<Rightarrow> AuthOidcIdentity query" where
  "GetOIDCIdentityByIssuerSubject d iss sub =
     one (find (\<lambda>i. oi_Issuer i = iss \<and> oi_Subject i = sub) (auth_oidc_identities d))"

definition ListOIDCIdentitiesByUserAccount :: "'c db \<Rightarrow> int \<Rightarrow> AuthOidcIdentity list" where
  "ListOIDCIdentitiesByUserAccount d u =
     sort_key oi_LinkedAt (filter (\<lambda>i. oi_UserAccountID i = u) (auth_oidc_identities d))"

definition CountOIDCIdentitiesByUserAccount :: "'c db \<Rightarrow> int \<Rightarrow> int" where
  "CountOIDCIdentitiesByUserAccount d u =
     int (length (filter (\<lambda>i. oi_UserAccountID i = u) (auth_oidc_identities d)))"

definition InsertOIDCIdentity ::
  "'c db \<Rightarrow> instant \<Rightarrow> string \<Rightarrow> int \<Rightarrow> string \<Rightarrow> string \<Rightarrow> string option \<Rightarrow> instant option
     \<Rightarrow> (AuthOidcIdentity \<times> 'c db) query" where
  "InsertOIDCIdentity d now uuid u iss sub email verified =
     (if \<exists>i \<in> set (auth_oidc_identities d). oi_Uuid i = uuid
        then Inl (UniqueViolation ''auth_oidc_identities_uuid_key'')
      else if \<exists>i \<in> set (auth_oidc_identities d). oi_Issuer i = iss \<and> oi_Subject i = sub
        then Inl (UniqueViolation ''auth_oidc_identities_issuer_subject_key'')
      else if \<not> account_exists d u then Inl (ForeignKeyViolation ''auth_oidc_identities_user_account_id_fkey'')
      else
        let i = \<lparr>oi_ID = next_id d, oi_Uuid = uuid, oi_UserAccountID = u, oi_Issuer = iss, oi_Subject = sub,
                 oi_Email = email, oi_EmailVerifiedAtIdp = verified, oi_LinkedAt = now, oi_LastSeenAt = now\<rparr>
        in Inr (i, d\<lparr>auth_oidc_identities := auth_oidc_identities d @ [i], next_id := next_id d + 1\<rparr>))"

definition TouchOIDCIdentityLastSeen :: "'c db \<Rightarrow> instant \<Rightarrow> int \<Rightarrow> 'c db" where
  "TouchOIDCIdentityLastSeen d now i =
     d\<lparr>auth_oidc_identities :=
        map (\<lambda>x. if oi_ID x = i then x\<lparr>oi_LastSeenAt := now\<rparr> else x) (auth_oidc_identities d)\<rparr>"

definition DeleteOIDCIdentityByUUID :: "'c db \<Rightarrow> string \<Rightarrow> int \<Rightarrow> int \<times> 'c db" where
  "DeleteOIDCIdentityByUUID d uuid u =
     (int (length (filter (\<lambda>i. oi_Uuid i = uuid \<and> oi_UserAccountID i = u) (auth_oidc_identities d))),
      d\<lparr>auth_oidc_identities :=
          filter (\<lambda>i. \<not> (oi_Uuid i = uuid \<and> oi_UserAccountID i = u)) (auth_oidc_identities d)\<rparr>)"

section \<open>\<open>email_codes\<close>\<close>

definition email_code_purposes :: "string list" where
  "email_code_purposes = [''login'', ''verify_email'', ''credential_change'']"

definition CreateEmailCode ::
  "'c db \<Rightarrow> instant \<Rightarrow> int \<Rightarrow> string \<Rightarrow> string \<Rightarrow> instant \<Rightarrow> (EmailCode \<times> 'c db) query" where
  "CreateEmailCode d now u hash purpose expires =
     (if purpose \<notin> set email_code_purposes then Inl (CheckViolation ''email_codes_purpose_check'')
      else if \<not> account_exists d u then Inl (ForeignKeyViolation ''email_codes_user_account_id_fkey'')
      else
        let c = \<lparr>ec_ID = next_id d, ec_UserAccountID = u, ec_CodeHash = hash, ec_Purpose = purpose,
                 ec_ExpiresAt = expires, ec_ConsumedAt = None, ec_CreatedAt = now, ec_FailedAttempts = 0\<rparr>
        in Inr (c, d\<lparr>email_codes := email_codes d @ [c], next_id := next_id d + 1\<rparr>))"

definition recent_code :: "instant \<Rightarrow> int \<Rightarrow> string \<Rightarrow> int \<Rightarrow> EmailCode \<Rightarrow> bool" where
  "recent_code now u purpose secs c \<longleftrightarrow>
     ec_UserAccountID c = u \<and> ec_Purpose c = purpose \<and> now - secs * second < ec_CreatedAt c"

definition HasRecentEmailCode :: "'c db \<Rightarrow> instant \<Rightarrow> int \<Rightarrow> string \<Rightarrow> int \<Rightarrow> bool" where
  "HasRecentEmailCode d now u purpose secs \<longleftrightarrow> (\<exists>c \<in> set (email_codes d). recent_code now u purpose secs c)"

definition CreateEmailCodeWithCooldown ::
  "'c db \<Rightarrow> instant \<Rightarrow> int \<Rightarrow> string \<Rightarrow> string \<Rightarrow> instant \<Rightarrow> int \<Rightarrow> (EmailCode \<times> 'c db) query" where
  "CreateEmailCodeWithCooldown d now u hash purpose expires secs =
     (if HasRecentEmailCode d now u purpose secs then Inl NoRows
      else CreateEmailCode d now u hash purpose expires)"

text \<open>\<open>ORDER BY created_at DESC LIMIT 1\<close>; of rows with the same time the last inserted is first.\<close>

definition newest :: "EmailCode list \<Rightarrow> EmailCode option" where
  "newest cs = (case rev (sort_key ec_CreatedAt cs) of [] \<Rightarrow> None | c # _ \<Rightarrow> Some c)"

definition GetActiveEmailCode :: "'c db \<Rightarrow> instant \<Rightarrow> int \<Rightarrow> string \<Rightarrow> EmailCode query" where
  "GetActiveEmailCode d now u purpose =
     one (newest (filter (\<lambda>c. ec_UserAccountID c = u \<and> ec_Purpose c = purpose \<and>
                              ec_ConsumedAt c = None \<and> now < ec_ExpiresAt c) (email_codes d)))"

text \<open>The row-level effects of the two conditional updates, and the updates.\<close>

definition claim_row :: "instant \<Rightarrow> int \<Rightarrow> EmailCode \<Rightarrow> EmailCode" where
  "claim_row now maxAttempts c =
     c\<lparr>ec_FailedAttempts := ec_FailedAttempts c + 1,
       ec_ConsumedAt := (if ec_FailedAttempts c + 1 \<ge> maxAttempts then Some now else ec_ConsumedAt c)\<rparr>"

definition claimable :: "int \<Rightarrow> int \<Rightarrow> EmailCode \<Rightarrow> bool" where
  "claimable i maxAttempts c \<longleftrightarrow> ec_ID c = i \<and> ec_ConsumedAt c = None \<and> ec_FailedAttempts c < maxAttempts"

definition ClaimEmailCodeAttempt :: "'c db \<Rightarrow> instant \<Rightarrow> int \<Rightarrow> int \<Rightarrow> (EmailCode \<times> 'c db) query" where
  "ClaimEmailCodeAttempt d now i maxAttempts =
     (case find (claimable i maxAttempts) (email_codes d) of
        None \<Rightarrow> Inl NoRows
      | Some c \<Rightarrow> Inr (claim_row now maxAttempts c,
          d\<lparr>email_codes := map (\<lambda>c. if claimable i maxAttempts c then claim_row now maxAttempts c else c)
                             (email_codes d)\<rparr>))"

definition consumable :: "int \<Rightarrow> EmailCode \<Rightarrow> bool" where
  "consumable i c \<longleftrightarrow> ec_ID c = i \<and> ec_ConsumedAt c = None"

definition ConsumeEmailCode :: "'c db \<Rightarrow> instant \<Rightarrow> int \<Rightarrow> int \<times> 'c db" where
  "ConsumeEmailCode d now i =
     (int (length (filter (consumable i) (email_codes d))),
      d\<lparr>email_codes := map (\<lambda>c. if consumable i c then c\<lparr>ec_ConsumedAt := Some now\<rparr> else c) (email_codes d)\<rparr>)"

section \<open>\<open>password_resets\<close>\<close>

definition CreatePasswordReset ::
  "'c db \<Rightarrow> instant \<Rightarrow> int \<Rightarrow> string \<Rightarrow> instant \<Rightarrow> (PasswordReset \<times> 'c db) query" where
  "CreatePasswordReset d now u hash expires =
     (if \<exists>p \<in> set (password_resets d). prs_TokenHash p = hash
        then Inl (UniqueViolation ''password_resets_token_hash_key'')
      else if \<not> account_exists d u then Inl (ForeignKeyViolation ''password_resets_user_account_id_fkey'')
      else
        let p = \<lparr>prs_ID = next_id d, prs_UserAccountID = u, prs_TokenHash = hash, prs_ExpiresAt = expires,
                 prs_ConsumedAt = None, prs_CreatedAt = now\<rparr>
        in Inr (p, d\<lparr>password_resets := password_resets d @ [p], next_id := next_id d + 1\<rparr>))"

definition GetActivePasswordReset :: "'c db \<Rightarrow> instant \<Rightarrow> string \<Rightarrow> PasswordReset query" where
  "GetActivePasswordReset d now hash =
     one (find (\<lambda>p. prs_TokenHash p = hash \<and> prs_ConsumedAt p = None \<and> now < prs_ExpiresAt p)
            (password_resets d))"

definition ConsumePasswordReset :: "'c db \<Rightarrow> instant \<Rightarrow> int \<Rightarrow> 'c db" where
  "ConsumePasswordReset d now i =
     d\<lparr>password_resets :=
        map (\<lambda>p. if prs_ID p = i \<and> prs_ConsumedAt p = None then p\<lparr>prs_ConsumedAt := Some now\<rparr> else p)
          (password_resets d)\<rparr>"

section \<open>\<open>auth_jwt_secrets\<close>\<close>

definition GetJWTSecret :: "'c db \<Rightarrow> string query" where
  "GetJWTSecret d = one (jwt_secret d)"

text \<open>The table allows no secret under 32 characters.\<close>

definition InsertJWTSecretIfAbsent :: "'c db \<Rightarrow> string \<Rightarrow> (string \<times> 'c db) query" where
  "InsertJWTSecretIfAbsent d secret =
     (if length secret < 32 then Inl (CheckViolation ''auth_jwt_secrets_secret_check'')
      else (case jwt_secret d of
              Some _ \<Rightarrow> Inl NoRows
            | None \<Rightarrow> Inr (secret, d\<lparr>jwt_secret := Some secret\<rparr>)))"

section \<open>\<open>ssh_public_keys\<close>\<close>

definition active_key :: "ModUsersSshPublicKey \<Rightarrow> bool" where
  "active_key k \<longleftrightarrow> sk_ArchivedAt k = None"

definition InsertSSHPublicKey ::
  "'c db \<Rightarrow> instant \<Rightarrow> string \<Rightarrow> int \<Rightarrow> string \<Rightarrow> string \<Rightarrow> string \<Rightarrow> string
     \<Rightarrow> (ModUsersSshPublicKey \<times> 'c db) query" where
  "InsertSSHPublicKey d now uuid u key_type public_key fp label =
     (if \<exists>k \<in> set (ssh_public_keys d). sk_Uuid k = uuid then Inl (UniqueViolation ''ssh_public_keys_uuid_key'')
      else if \<exists>k \<in> set (ssh_public_keys d). active_key k \<and> sk_FingerprintSha256 k = fp
        then Inl (UniqueViolation ''ssh_public_keys_active_fingerprint_uq'')
      else if \<not> account_exists d u then Inl (ForeignKeyViolation ''ssh_public_keys_user_account_id_fkey'')
      else
        let k = \<lparr>sk_ID = next_id d, sk_Uuid = uuid, sk_UserAccountID = u, sk_KeyType = key_type,
                 sk_PublicKey = public_key, sk_FingerprintSha256 = fp, sk_Label = label,
                 sk_CreatedAt = now, sk_ArchivedAt = None\<rparr>
        in Inr (k, d\<lparr>ssh_public_keys := ssh_public_keys d @ [k], next_id := next_id d + 1\<rparr>))"

definition active_keys_of :: "'c db \<Rightarrow> int \<Rightarrow> ModUsersSshPublicKey list" where
  "active_keys_of d u = filter (\<lambda>k. sk_UserAccountID k = u \<and> active_key k) (ssh_public_keys d)"

definition ListActiveSSHPublicKeysByUserAccount ::
  "'c db \<Rightarrow> int \<Rightarrow> nat \<Rightarrow> nat \<Rightarrow> ModUsersSshPublicKey list" where
  "ListActiveSSHPublicKeysByUserAccount d u lim off =
     take lim (drop off (sort_key sk_CreatedAt (sort_key sk_ID (active_keys_of d u))))"

definition CountActiveSSHPublicKeysByUserAccount :: "'c db \<Rightarrow> int \<Rightarrow> int" where
  "CountActiveSSHPublicKeysByUserAccount d u = int (length (active_keys_of d u))"

definition GetActiveSSHPublicKeyByUUIDForUserAccount ::
  "'c db \<Rightarrow> string \<Rightarrow> int \<Rightarrow> ModUsersSshPublicKey query" where
  "GetActiveSSHPublicKeyByUUIDForUserAccount d uuid u =
     one (find (\<lambda>k. sk_Uuid k = uuid) (active_keys_of d u))"

definition ArchiveSSHPublicKey :: "'c db \<Rightarrow> instant \<Rightarrow> string \<Rightarrow> int \<Rightarrow> int \<times> 'c db" where
  "ArchiveSSHPublicKey d now uuid u =
     (int (length (filter (\<lambda>k. sk_Uuid k = uuid \<and> sk_UserAccountID k = u \<and> active_key k) (ssh_public_keys d))),
      d\<lparr>ssh_public_keys :=
          map (\<lambda>k. if sk_Uuid k = uuid \<and> sk_UserAccountID k = u \<and> active_key k
                   then k\<lparr>sk_ArchivedAt := Some now\<rparr> else k) (ssh_public_keys d)\<rparr>)"

text \<open>The join: the holder of the account that has this active key.\<close>

definition ResolveActiveSSHPublicKey :: "'c db \<Rightarrow> string \<Rightarrow> string \<Rightarrow> int query" where
  "ResolveActiveSSHPublicKey d fp public_key =
     (case find (\<lambda>k. sk_FingerprintSha256 k = fp \<and> sk_PublicKey k = public_key \<and> active_key k)
             (ssh_public_keys d) of
        None \<Rightarrow> Inl NoRows
      | Some k \<Rightarrow>
          (case GetUserAccountByID d (sk_UserAccountID k) of
             Inl e \<Rightarrow> Inl e
           | Inr u \<Rightarrow> Inr (ua_AccountHolder u)))"

section \<open>\<open>anon_tokens\<close>\<close>

definition CreateAnonToken ::
  "'c db \<Rightarrow> instant \<Rightarrow> string \<Rightarrow> string \<Rightarrow> string \<Rightarrow> int \<Rightarrow> instant \<Rightarrow> (AnonToken \<times> 'c db) query" where
  "CreateAnonToken d now uuid device token u expires =
     (if \<exists>a \<in> set (anon_tokens d). an_Uuid a = uuid then Inl (UniqueViolation ''anon_tokens_uuid_key'')
      else if \<exists>a \<in> set (anon_tokens d). an_SessionToken a = token
        then Inl (UniqueViolation ''anon_tokens_session_token_key'')
      else if \<not> account_exists d u then Inl (ForeignKeyViolation ''anon_tokens_user_account_id_fkey'')
      else
        let a = \<lparr>an_ID = next_id d, an_Uuid = uuid, an_DeviceID = device, an_SessionToken = token,
                 an_UserAccountID = u, an_CreatedAt = now, an_ExpiresAt = expires\<rparr>
        in Inr (a, d\<lparr>anon_tokens := anon_tokens d @ [a], next_id := next_id d + 1\<rparr>))"

definition DeleteAnonTokensByUserAccountID :: "'c db \<Rightarrow> int \<Rightarrow> 'c db" where
  "DeleteAnonTokensByUserAccountID d u = d\<lparr>anon_tokens := filter (\<lambda>a. an_UserAccountID a \<noteq> u) (anon_tokens d)\<rparr>"

definition GetAnonTokenBySessionToken :: "'c db \<Rightarrow> instant \<Rightarrow> string \<Rightarrow> AnonToken query" where
  "GetAnonTokenBySessionToken d now token =
     one (find (\<lambda>a. an_SessionToken a = token \<and> now < an_ExpiresAt a) (anon_tokens d))"

definition GetAnonTokensByDeviceID :: "'c db \<Rightarrow> instant \<Rightarrow> string \<Rightarrow> AnonToken list" where
  "GetAnonTokensByDeviceID d now device =
     rev (sort_key an_CreatedAt (filter (\<lambda>a. an_DeviceID a = device \<and> now < an_ExpiresAt a) (anon_tokens d)))"

section \<open>\<open>apps_user_accounts\<close>\<close>

text \<open>The foreign key to the core module's \<open>apps\<close> is the argument \<open>app_ok\<close>.\<close>

definition AssignUserAccountToApp ::
  "'c db \<Rightarrow> instant \<Rightarrow> bool \<Rightarrow> int \<Rightarrow> int \<Rightarrow> string list \<Rightarrow> 'c db query" where
  "AssignUserAccountToApp d now app_ok app u roles =
     (if \<exists>m \<in> set (apps_user_accounts d). ap_AppID m = app \<and> ap_UserAccountID m = u then Inr d
      else if \<not> app_ok then Inl (ForeignKeyViolation ''apps_user_accounts_app_id_fkey'')
      else if \<not> account_exists d u then Inl (ForeignKeyViolation ''apps_user_accounts_user_account_id_fkey'')
      else Inr (d\<lparr>apps_user_accounts := apps_user_accounts d @
             [\<lparr>ap_AppID = app, ap_UserAccountID = u, ap_Roles = roles, ap_AssignedAt = now\<rparr>]\<rparr>))"

definition ListAppUserAccounts :: "'c db \<Rightarrow> int \<Rightarrow> AppsUserAccount list" where
  "ListAppUserAccounts d app = sort_key ap_AssignedAt (filter (\<lambda>m. ap_AppID m = app) (apps_user_accounts d))"

definition ListUserAccountApps :: "'c db \<Rightarrow> int \<Rightarrow> AppsUserAccount list" where
  "ListUserAccountApps d u = sort_key ap_AssignedAt (filter (\<lambda>m. ap_UserAccountID m = u) (apps_user_accounts d))"

definition RemoveUserAccountFromApp :: "'c db \<Rightarrow> int \<Rightarrow> int \<Rightarrow> 'c db" where
  "RemoveUserAccountFromApp d app u =
     d\<lparr>apps_user_accounts := filter (\<lambda>m. \<not> (ap_AppID m = app \<and> ap_UserAccountID m = u)) (apps_user_accounts d)\<rparr>"

definition SetAppUserAccountRoles :: "'c db \<Rightarrow> int \<Rightarrow> int \<Rightarrow> string list \<Rightarrow> 'c db" where
  "SetAppUserAccountRoles d app u roles =
     d\<lparr>apps_user_accounts :=
        map (\<lambda>m. if ap_AppID m = app \<and> ap_UserAccountID m = u then m\<lparr>ap_Roles := roles\<rparr> else m) (apps_user_accounts d)\<rparr>"

section \<open>Integrity\<close>

text \<open>
  What the schema guarantees: primary keys, the \<open>UNIQUE\<close> columns (a null e-mail never clashes,
  an archived key's fingerprint is free), the foreign keys to \<open>user_accounts\<close>, and that the
  sequence is ahead of every identifier.
\<close>

definition fk :: "'c db \<Rightarrow> ('r \<Rightarrow> int) \<Rightarrow> 'r list \<Rightarrow> bool" where
  "fk d f rows \<longleftrightarrow> f ` set rows \<subseteq> ua_ID ` set (user_accounts d)"

definition ids_ok :: "'c db \<Rightarrow> ('r \<Rightarrow> int) \<Rightarrow> 'r list \<Rightarrow> bool" where
  "ids_ok d f rows \<longleftrightarrow> distinct (map f rows) \<and> (\<forall>r \<in> set rows. f r < next_id d)"

definition accounts_ok :: "'c db \<Rightarrow> bool" where
  "accounts_ok d \<longleftrightarrow>
     ids_ok d ua_ID (user_accounts d) \<and> distinct (map ua_Uuid (user_accounts d)) \<and>
     distinct (map ua_AccountHolder (user_accounts d)) \<and>
     distinct (map ua_Email (filter (\<lambda>u. ua_Email u \<noteq> None) (user_accounts d)))"

definition identities_ok :: "'c db \<Rightarrow> bool" where
  "identities_ok d \<longleftrightarrow>
     ids_ok d oi_ID (auth_oidc_identities d) \<and> distinct (map oi_Uuid (auth_oidc_identities d)) \<and>
     distinct (map (\<lambda>i. (oi_Issuer i, oi_Subject i)) (auth_oidc_identities d)) \<and>
     fk d oi_UserAccountID (auth_oidc_identities d)"

definition codes_ok :: "'c db \<Rightarrow> bool" where
  "codes_ok d \<longleftrightarrow> ids_ok d ec_ID (email_codes d) \<and> fk d ec_UserAccountID (email_codes d) \<and>
     (\<forall>c \<in> set (email_codes d). ec_Purpose c \<in> set email_code_purposes)"

definition locals_ok :: "'c db \<Rightarrow> bool" where
  "locals_ok d \<longleftrightarrow> distinct (map al_UserAccountID (auth_local d)) \<and> fk d al_UserAccountID (auth_local d)"

definition resets_ok :: "'c db \<Rightarrow> bool" where
  "resets_ok d \<longleftrightarrow> ids_ok d prs_ID (password_resets d) \<and> distinct (map prs_TokenHash (password_resets d)) \<and>
     fk d prs_UserAccountID (password_resets d)"

definition keys_ok :: "'c db \<Rightarrow> bool" where
  "keys_ok d \<longleftrightarrow> ids_ok d sk_ID (ssh_public_keys d) \<and> distinct (map sk_Uuid (ssh_public_keys d)) \<and>
     distinct (map sk_FingerprintSha256 (filter active_key (ssh_public_keys d))) \<and>
     fk d sk_UserAccountID (ssh_public_keys d)"

definition anon_ok :: "'c db \<Rightarrow> bool" where
  "anon_ok d \<longleftrightarrow> ids_ok d an_ID (anon_tokens d) \<and> distinct (map an_Uuid (anon_tokens d)) \<and>
     distinct (map an_SessionToken (anon_tokens d)) \<and> fk d an_UserAccountID (anon_tokens d)"

definition apps_ok :: "'c db \<Rightarrow> bool" where
  "apps_ok d \<longleftrightarrow> distinct (map (\<lambda>m. (ap_AppID m, ap_UserAccountID m)) (apps_user_accounts d)) \<and>
     fk d ap_UserAccountID (apps_user_accounts d)"

definition db_ok :: "'c db \<Rightarrow> bool" where
  "db_ok d \<longleftrightarrow> accounts_ok d \<and> identities_ok d \<and> codes_ok d \<and> locals_ok d \<and> resets_ok d \<and> keys_ok d \<and>
     anon_ok d \<and> apps_ok d"

text \<open>A fresh database.\<close>

definition empty_db :: "'c \<Rightarrow> 'c db" where
  "empty_db c = \<lparr>user_accounts = [], auth_local = [], auth_oidc_identities = [], email_codes = [],
     password_resets = [], ssh_public_keys = [], anon_tokens = [], apps_user_accounts = [], jwt_secret = None, next_id = 1, core = c\<rparr>"

lemma empty_db_sel [simp]:
  "user_accounts (empty_db c) = []" "auth_local (empty_db c) = []" "auth_oidc_identities (empty_db c) = []"
  "email_codes (empty_db c) = []" "password_resets (empty_db c) = []" "ssh_public_keys (empty_db c) = []"
  "anon_tokens (empty_db c) = []" "apps_user_accounts (empty_db c) = []"
  "jwt_secret (empty_db c) = None" "next_id (empty_db c) = 1" "core (empty_db c) = c"
  by (simp_all add: empty_db_def)

lemma db_ok_empty [simp]: "db_ok (empty_db c)"
  by (simp add: db_ok_def accounts_ok_def identities_ok_def codes_ok_def locals_ok_def resets_ok_def
      keys_ok_def anon_ok_def apps_ok_def ids_ok_def fk_def)

text \<open>A write statement of the program: one rule per query that changes a row.\<close>

inductive db_write :: "'c db \<Rightarrow> 'c db \<Rightarrow> bool" where
  create_account: "CreateUserAccount d now uuid h e v = Inr (u, d') \<Longrightarrow> db_write d d'"
| update_account: "UpdateUserAccount d now i e v = Inr d' \<Longrightarrow> db_write d d'"
| delete_account: "delete_user_account d i = (n, d') \<Longrightarrow> db_write d d'"
| upsert_local: "UpsertAuthLocal d now i hash = Inr d' \<Longrightarrow> db_write d d'"
| delete_local: "DeleteAuthLocal d i = d' \<Longrightarrow> db_write d d'"
| insert_identity: "InsertOIDCIdentity d now uuid u iss sub e v = Inr (x, d') \<Longrightarrow> db_write d d'"
| touch_identity: "TouchOIDCIdentityLastSeen d now i = d' \<Longrightarrow> db_write d d'"
| delete_identity: "DeleteOIDCIdentityByUUID d uuid u = (n, d') \<Longrightarrow> db_write d d'"
| create_code: "CreateEmailCode d now u hash purpose expires = Inr (c, d') \<Longrightarrow> db_write d d'"
| claim_code: "ClaimEmailCodeAttempt d now i m = Inr (c, d') \<Longrightarrow> db_write d d'"
| consume_code: "ConsumeEmailCode d now i = (n, d') \<Longrightarrow> db_write d d'"
| create_reset: "CreatePasswordReset d now u hash expires = Inr (p, d') \<Longrightarrow> db_write d d'"
| consume_reset: "ConsumePasswordReset d now i = d' \<Longrightarrow> db_write d d'"
| insert_secret: "InsertJWTSecretIfAbsent d secret = Inr (s, d') \<Longrightarrow> db_write d d'"
| insert_key: "InsertSSHPublicKey d now uuid u t pk fp label = Inr (k, d') \<Longrightarrow> db_write d d'"
| archive_key: "ArchiveSSHPublicKey d now uuid u = (n, d') \<Longrightarrow> db_write d d'"
| set_default_app: "SetDefaultApp d i app = d' \<Longrightarrow> db_write d d'"
| create_anon: "CreateAnonToken d now uuid device token u expires = Inr (a, d') \<Longrightarrow> db_write d d'"
| delete_anon: "DeleteAnonTokensByUserAccountID d u = d' \<Longrightarrow> db_write d d'"
| assign_app: "AssignUserAccountToApp d now app_ok app u roles = Inr d' \<Longrightarrow> db_write d d'"
| remove_app: "RemoveUserAccountFromApp d app u = d' \<Longrightarrow> db_write d d'"
| set_roles: "SetAppUserAccountRoles d app u roles = d' \<Longrightarrow> db_write d d'"
| core_write: "d' = d\<lparr>core := c\<rparr> \<Longrightarrow> db_write d d'"

lemmas db_ok_defs = db_ok_def accounts_ok_def identities_ok_def codes_ok_def locals_ok_def
  resets_ok_def keys_ok_def anon_ok_def apps_ok_def ids_ok_def fk_def

text \<open>A table kept as it is, in a database with the same accounts or more.\<close>

definition grows :: "'c db \<Rightarrow> 'c db \<Rightarrow> bool" where
  "grows d d' \<longleftrightarrow> next_id d \<le> next_id d' \<and> ua_ID ` set (user_accounts d) \<subseteq> ua_ID ` set (user_accounts d')"

lemma ids_ok_frame: "ids_ok d f rows \<Longrightarrow> grows d d' \<Longrightarrow> ids_ok d' f rows"
  by (auto simp: ids_ok_def grows_def)

lemma fk_frame: "fk d f rows \<Longrightarrow> grows d d' \<Longrightarrow> fk d' f rows"
  by (auto simp: fk_def grows_def)

lemma accounts_frame: "accounts_ok d \<Longrightarrow> grows d d' \<Longrightarrow> user_accounts d' = user_accounts d \<Longrightarrow> accounts_ok d'"
  by (auto simp: accounts_ok_def intro: ids_ok_frame)

lemma identities_frame:
  "identities_ok d \<Longrightarrow> grows d d' \<Longrightarrow> auth_oidc_identities d' = auth_oidc_identities d \<Longrightarrow> identities_ok d'"
  by (auto simp: identities_ok_def intro: ids_ok_frame fk_frame)

lemma codes_frame: "codes_ok d \<Longrightarrow> grows d d' \<Longrightarrow> email_codes d' = email_codes d \<Longrightarrow> codes_ok d'"
  by (auto simp: codes_ok_def intro: ids_ok_frame fk_frame)

lemma locals_frame: "locals_ok d \<Longrightarrow> grows d d' \<Longrightarrow> auth_local d' = auth_local d \<Longrightarrow> locals_ok d'"
  by (auto simp: locals_ok_def intro: fk_frame)

lemma resets_frame: "resets_ok d \<Longrightarrow> grows d d' \<Longrightarrow> password_resets d' = password_resets d \<Longrightarrow> resets_ok d'"
  by (auto simp: resets_ok_def intro: ids_ok_frame fk_frame)

lemma keys_frame: "keys_ok d \<Longrightarrow> grows d d' \<Longrightarrow> ssh_public_keys d' = ssh_public_keys d \<Longrightarrow> keys_ok d'"
  by (auto simp: keys_ok_def intro: ids_ok_frame fk_frame)

lemma anon_frame: "anon_ok d \<Longrightarrow> grows d d' \<Longrightarrow> anon_tokens d' = anon_tokens d \<Longrightarrow> anon_ok d'"
  by (auto simp: anon_ok_def intro: ids_ok_frame fk_frame)

lemma apps_frame: "apps_ok d \<Longrightarrow> grows d d' \<Longrightarrow> apps_user_accounts d' = apps_user_accounts d \<Longrightarrow> apps_ok d'"
  by (auto simp: apps_ok_def intro: fk_frame)

lemmas table_frames = accounts_frame identities_frame codes_frame locals_frame resets_frame keys_frame
  anon_frame apps_frame

text \<open>A table with a row added, or with columns outside the constraint changed.\<close>

lemma ids_ok_snoc: "ids_ok d f rows \<Longrightarrow> f r = next_id d \<Longrightarrow> next_id d < next_id d' \<Longrightarrow> ids_ok d' f (rows @ [r])"
  by (auto simp: ids_ok_def)

lemma fk_snoc: "fk d f rows \<Longrightarrow> grows d d' \<Longrightarrow> account_exists d (f r) \<Longrightarrow> fk d' f (rows @ [r])"
  by (force simp: fk_def grows_def account_exists_def)

lemma map_if_key: "(\<And>x. f (g x) = f x) \<Longrightarrow> map f (map (\<lambda>x. if P x then g x else x) xs) = map f xs"
  by simp

lemma ids_ok_map:
  assumes "map f rows' = map f rows" "ids_ok d f rows" "next_id d \<le> next_id d'"
  shows "ids_ok d' f rows'"
proof -
  have "f ` set rows' = f ` set rows" by (metis assms(1) set_map)
  then have "\<forall>i \<in> f ` set rows'. i < next_id d'"
    using assms(2,3) by (auto simp: ids_ok_def)
  then show ?thesis
    using assms(1,2) by (simp add: ids_ok_def)
qed

lemma fk_map:
  assumes "map f rows' = map f rows" "fk d f rows" "grows d d'"
  shows "fk d' f rows'"
proof -
  have "f ` set rows' = f ` set rows" by (metis assms(1) set_map)
  then show ?thesis using assms(2,3) by (simp add: fk_def grows_def) (blast intro: order_trans)
qed

lemma ids_ok_filter: "ids_ok d f rows \<Longrightarrow> next_id d \<le> next_id d' \<Longrightarrow> ids_ok d' f (filter P rows)"
  by (auto simp: ids_ok_def distinct_map_filter)

lemma db_ok_CreateUserAccount:
  assumes "CreateUserAccount d now uuid h e v = Inr (u, d')" "db_ok d"
  shows "db_ok d'"
proof -
  have g: "grows d d'" "next_id d < next_id d'"
    using assms(1) by (auto simp: CreateUserAccount_def Let_def grows_def split: if_splits)
  have a: "accounts_ok d'"
    using assms by (auto simp: CreateUserAccount_def Let_def accounts_ok_def db_ok_def split: if_splits
        intro!: ids_ok_snoc)
  show ?thesis
    using assms a g(1)
    by (auto simp: db_ok_def CreateUserAccount_def Let_def split: if_splits intro: table_frames)
qed

lemma distinct_email_update:
  assumes "distinct (map ua_ID us)"
    and "distinct (map ua_Email (filter (\<lambda>u. ua_Email u \<noteq> None) us))"
    and "e \<noteq> None \<Longrightarrow> \<forall>u \<in> set us. ua_ID u \<noteq> i \<longrightarrow> ua_Email u \<noteq> e"
  shows "distinct (map ua_Email (filter (\<lambda>u. ua_Email u \<noteq> None)
    (map (\<lambda>u. if ua_ID u = i then u\<lparr>ua_Email := e, ua_EmailVerifiedAt := v, ua_UpdatedAt := now\<rparr> else u) us)))"
  using assms
proof (induction us)
  case (Cons u us)
  let ?f = "\<lambda>u. if ua_ID u = i then u\<lparr>ua_Email := e, ua_EmailVerifiedAt := v, ua_UpdatedAt := now\<rparr> else u"
  have rest: "w \<in> set us \<Longrightarrow> ua_ID u = i \<Longrightarrow> ua_ID w \<noteq> i" for w
    using Cons.prems(1) by (metis distinct.simps(2) image_eqI list.simps(9) set_map)
  then have "ua_ID u = i \<Longrightarrow> map ?f us = us"
    by (simp add: map_idI)
  then show ?case
    using Cons rest by (cases "ua_ID u = i") (auto split: if_splits)
qed simp

lemma db_ok_UpdateUserAccount:
  assumes "UpdateUserAccount d now i e v = Inr d'" "db_ok d"
  shows "db_ok d'"
proof -
  let ?g = "\<lambda>u. u\<lparr>ua_Email := e, ua_EmailVerifiedAt := v, ua_UpdatedAt := now\<rparr>"
  define us where "us = map (\<lambda>u. if ua_ID u = i then ?g u else u) (user_accounts d)"
  have d': "d' = d\<lparr>user_accounts := us\<rparr>"
    and e: "e \<noteq> None \<Longrightarrow> i \<in> ua_ID ` set (user_accounts d) \<Longrightarrow>
       \<forall>u \<in> set (user_accounts d). ua_ID u \<noteq> i \<longrightarrow> ua_Email u \<noteq> e"
    using assms(1) by (auto simp: UpdateUserAccount_def us_def split: if_splits)
  have keys: "map ua_ID us = map ua_ID (user_accounts d)" "map ua_Uuid us = map ua_Uuid (user_accounts d)"
    "map ua_AccountHolder us = map ua_AccountHolder (user_accounts d)"
    unfolding us_def by (rule map_if_key, simp)+
  have "ua_ID ` set us = ua_ID ` set (user_accounts d)"
    using keys(1) by (metis set_map)
  then have g: "grows d d'" by (simp add: grows_def d')
  have "distinct (map ua_Email (filter (\<lambda>u. ua_Email u \<noteq> None) us))"
  proof (cases "i \<in> ua_ID ` set (user_accounts d)")
    case True
    then show ?thesis
      unfolding us_def using assms(2) e
      by (intro distinct_email_update) (auto simp: db_ok_def accounts_ok_def ids_ok_def)
  next
    case False
    then have "us = user_accounts d" by (force simp: us_def intro!: map_idI)
    then show ?thesis using assms(2) by (simp add: db_ok_def accounts_ok_def)
  qed
  moreover have "ids_ok d' ua_ID us"
    using assms(2) by (intro ids_ok_map [OF keys(1)]) (auto simp: db_ok_def accounts_ok_def d')
  ultimately have "accounts_ok d'"
    using assms(2) keys by (simp add: accounts_ok_def d' db_ok_def)
  then show ?thesis
    using assms(2) g by (auto simp: db_ok_def d' intro: table_frames)
qed

lemma fk_filter: "fk d f rows \<Longrightarrow> user_accounts d' = filter (\<lambda>u. ua_ID u \<noteq> i) (user_accounts d)
    \<Longrightarrow> fk d' f (filter (\<lambda>r. f r \<noteq> i) rows)"
  by (force simp: fk_def)

lemma filter_swap: "filter P (filter Q xs) = filter Q (filter P xs)"
  by (induction xs) auto

lemma db_ok_delete_user_account:
  assumes "delete_user_account d i = (n, d')" "db_ok d"
  shows "db_ok d'"
proof -
  have d': "user_accounts d' = filter (\<lambda>u. ua_ID u \<noteq> i) (user_accounts d)" "next_id d' = next_id d"
    "auth_local d' = filter (\<lambda>a. al_UserAccountID a \<noteq> i) (auth_local d)"
    "auth_oidc_identities d' = filter (\<lambda>x. oi_UserAccountID x \<noteq> i) (auth_oidc_identities d)"
    "email_codes d' = filter (\<lambda>c. ec_UserAccountID c \<noteq> i) (email_codes d)"
    "password_resets d' = filter (\<lambda>p. prs_UserAccountID p \<noteq> i) (password_resets d)"
    "ssh_public_keys d' = filter (\<lambda>k. sk_UserAccountID k \<noteq> i) (ssh_public_keys d)"
    "anon_tokens d' = filter (\<lambda>a. an_UserAccountID a \<noteq> i) (anon_tokens d)"
    "apps_user_accounts d' = filter (\<lambda>m. ap_UserAccountID m \<noteq> i) (apps_user_accounts d)"
    using assms(1) by (auto simp: delete_user_account_def)
  note ids = ids_ok_filter [where d = d and d' = d', OF _ eq_refl [OF d'(2) [symmetric]]]
  note fk = fk_filter [OF _ d'(1)]
  have "accounts_ok d'"
    using assms(2) unfolding db_ok_def accounts_ok_def d' filter_swap [of "\<lambda>u. ua_Email u \<noteq> None"]
    by (auto intro!: ids simp: distinct_map_filter simp del: filter_filter)
  moreover have "identities_ok d'" "codes_ok d'" "locals_ok d'" "resets_ok d'" "anon_ok d'" "apps_ok d'"
    using assms(2) unfolding db_ok_def identities_ok_def codes_ok_def locals_ok_def resets_ok_def anon_ok_def apps_ok_def d'
    by (auto intro!: ids fk simp: distinct_map_filter)
  moreover have "keys_ok d'"
    using assms(2) unfolding db_ok_def keys_ok_def d' filter_swap [of active_key]
    by (auto intro!: ids fk simp: distinct_map_filter simp del: filter_filter)
  ultimately show ?thesis by (simp add: db_ok_def)
qed

text \<open>The single-table writes: a row added, columns outside the keys changed, rows removed.\<close>

lemma db_ok_UpsertAuthLocal:
  assumes "UpsertAuthLocal d now i hash = Inr d'" "db_ok d"
  shows "db_ok d'"
proof -
  have ex: "account_exists d i" using assms(1) by (auto simp: UpsertAuthLocal_def split: if_splits)
  define rows where "rows = auth_local d'"
  have d': "d' = d\<lparr>auth_local := rows\<rparr>"
    using assms(1) by (auto simp: UpsertAuthLocal_def rows_def split: if_splits)
  then have g: "grows d d'" by (simp add: grows_def)
  have "locals_ok d'"
  proof (cases "\<exists>a \<in> set (auth_local d). al_UserAccountID a = i")
    case True
    let ?g = "\<lambda>a. a\<lparr>al_PasswordHash := hash, al_PasswordUpdatedAt := now\<rparr>"
    have r: "rows = map (\<lambda>a. if al_UserAccountID a = i then ?g a else a) (auth_local d)"
      using assms(1) True ex by (auto simp: UpsertAuthLocal_def rows_def)
    have m: "map al_UserAccountID rows = map al_UserAccountID (auth_local d)"
      unfolding r by (rule map_if_key) simp
    then show ?thesis
      using assms(2) fk_map [OF m _ g] by (simp add: locals_ok_def d' db_ok_def)
  next
    case False
    then have r: "rows = auth_local d @
        [\<lparr>al_UserAccountID = i, al_PasswordHash = hash, al_PasswordUpdatedAt = now, al_CreatedAt = now\<rparr>]"
      using assms(1) ex by (auto simp: UpsertAuthLocal_def rows_def)
    show ?thesis
      using assms(2) False ex g
      by (auto simp: locals_ok_def d' r db_ok_def intro!: fk_snoc)
  qed
  then show ?thesis
    using assms(2) g by (auto simp: db_ok_def d' intro: table_frames)
qed

lemma db_ok_auth_local_filter: "db_ok d \<Longrightarrow> db_ok (d\<lparr>auth_local := filter P (auth_local d)\<rparr>)"
  by (auto simp: db_ok_defs distinct_map_filter)

lemma db_ok_identities_filter: "db_ok d \<Longrightarrow> db_ok (d\<lparr>auth_oidc_identities := filter P (auth_oidc_identities d)\<rparr>)"
  by (auto simp: db_ok_defs distinct_map_filter)

lemma db_ok_InsertOIDCIdentity:
  assumes "InsertOIDCIdentity d now uuid u iss sub e v = Inr (x, d')" "db_ok d"
  shows "db_ok d'"
proof -
  have g: "grows d d'"
    using assms(1) by (auto simp: InsertOIDCIdentity_def Let_def grows_def split: if_splits)
  have "identities_ok d'"
    using assms g by (auto simp: InsertOIDCIdentity_def Let_def identities_ok_def db_ok_def split: if_splits
        intro!: ids_ok_snoc fk_snoc)
  then show ?thesis
    using assms g
    by (auto simp: db_ok_def InsertOIDCIdentity_def Let_def split: if_splits intro: table_frames)
qed

lemma db_ok_CreateEmailCode:
  assumes "CreateEmailCode d now u hash purpose expires = Inr (c, d')" "db_ok d"
  shows "db_ok d'"
proof -
  have g: "grows d d'"
    using assms(1) by (auto simp: CreateEmailCode_def Let_def grows_def split: if_splits)
  have "codes_ok d'"
    using assms g by (auto simp: CreateEmailCode_def Let_def codes_ok_def db_ok_def split: if_splits
        intro!: ids_ok_snoc fk_snoc)
  then show ?thesis
    using assms g
    by (auto simp: db_ok_def CreateEmailCode_def Let_def split: if_splits intro: table_frames)
qed

lemma db_ok_CreatePasswordReset:
  assumes "CreatePasswordReset d now u hash expires = Inr (p, d')" "db_ok d"
  shows "db_ok d'"
proof -
  have g: "grows d d'"
    using assms(1) by (auto simp: CreatePasswordReset_def Let_def grows_def split: if_splits)
  have "resets_ok d'"
    using assms g by (auto simp: CreatePasswordReset_def Let_def resets_ok_def db_ok_def split: if_splits
        intro!: ids_ok_snoc fk_snoc)
  then show ?thesis
    using assms g
    by (auto simp: db_ok_def CreatePasswordReset_def Let_def split: if_splits intro: table_frames)
qed

lemma active_key_make [simp]:
  "active_key \<lparr>sk_ID = a, sk_Uuid = b, sk_UserAccountID = c, sk_KeyType = t, sk_PublicKey = p,
     sk_FingerprintSha256 = f, sk_Label = l, sk_CreatedAt = n, sk_ArchivedAt = x\<rparr> \<longleftrightarrow> x = None"
  by (simp add: active_key_def)

lemma db_ok_InsertSSHPublicKey:
  assumes "InsertSSHPublicKey d now uuid u t pk fp label = Inr (k, d')" "db_ok d"
  shows "db_ok d'"
proof -
  have g: "grows d d'"
    using assms(1) by (auto simp: InsertSSHPublicKey_def Let_def grows_def split: if_splits)
  have "keys_ok d'"
    using assms g by (auto simp: InsertSSHPublicKey_def Let_def keys_ok_def db_ok_def split: if_splits
        intro!: ids_ok_snoc fk_snoc)
  then show ?thesis
    using assms g
    by (auto simp: db_ok_def InsertSSHPublicKey_def Let_def split: if_splits intro: table_frames)
qed

lemma db_ok_CreateAnonToken:
  assumes "CreateAnonToken d now uuid device token u expires = Inr (a, d')" "db_ok d"
  shows "db_ok d'"
proof -
  have g: "grows d d'"
    using assms(1) by (auto simp: CreateAnonToken_def Let_def grows_def split: if_splits)
  have "anon_ok d'"
    using assms g by (auto simp: CreateAnonToken_def Let_def anon_ok_def db_ok_def split: if_splits
        intro!: ids_ok_snoc fk_snoc)
  then show ?thesis
    using assms g
    by (auto simp: db_ok_def CreateAnonToken_def Let_def split: if_splits intro: table_frames)
qed

lemma db_ok_anon_filter: "db_ok d \<Longrightarrow> db_ok (d\<lparr>anon_tokens := filter P (anon_tokens d)\<rparr>)"
  by (auto simp: db_ok_defs distinct_map_filter)

lemma db_ok_apps_filter: "db_ok d \<Longrightarrow> db_ok (d\<lparr>apps_user_accounts := filter P (apps_user_accounts d)\<rparr>)"
  by (auto simp: db_ok_defs distinct_map_filter)

lemma db_ok_AssignUserAccountToApp:
  assumes "AssignUserAccountToApp d now ok app u roles = Inr d'" "db_ok d"
  shows "db_ok d'"
proof -
  have g: "grows d d'"
    using assms(1) by (auto simp: AssignUserAccountToApp_def grows_def split: if_splits)
  have "apps_ok d'"
    using assms g by (auto simp: AssignUserAccountToApp_def apps_ok_def db_ok_def split: if_splits intro!: fk_snoc)
  then show ?thesis
    using assms g by (auto simp: db_ok_def AssignUserAccountToApp_def split: if_splits intro: table_frames)
qed

lemma db_ok_apps_map:
  assumes "db_ok d" and key: "\<And>m. ap_AppID (f m) = ap_AppID m" "\<And>m. ap_UserAccountID (f m) = ap_UserAccountID m"
  shows "db_ok (d\<lparr>apps_user_accounts := map f (apps_user_accounts d)\<rparr>)"
proof -
  let ?d = "d\<lparr>apps_user_accounts := map f (apps_user_accounts d)\<rparr>"
  have g: "grows d ?d" by (simp add: grows_def)
  have m: "map ap_UserAccountID (map f (apps_user_accounts d)) = map ap_UserAccountID (apps_user_accounts d)"
    by (simp add: key)
  have "apps_ok ?d"
    using assms(1) fk_map [OF m _ g] key by (auto simp: db_ok_def apps_ok_def o_def)
  then show ?thesis
    using assms(1) g by (auto simp: db_ok_def intro: table_frames)
qed

lemma db_ok_accounts_map:
  assumes "db_ok d" and key: "\<And>u. ua_ID (f u) = ua_ID u" "\<And>u. ua_Uuid (f u) = ua_Uuid u"
    "\<And>u. ua_AccountHolder (f u) = ua_AccountHolder u" "\<And>u. ua_Email (f u) = ua_Email u"
  shows "db_ok (d\<lparr>user_accounts := map f (user_accounts d)\<rparr>)"
proof -
  let ?d = "d\<lparr>user_accounts := map f (user_accounts d)\<rparr>"
  have g: "grows d ?d" by (simp add: grows_def image_image key)
  have m: "map ua_ID (map f (user_accounts d)) = map ua_ID (user_accounts d)" by (simp add: key)
  have "accounts_ok ?d"
    using assms(1) ids_ok_map [OF m, of d ?d] key
    by (auto simp: db_ok_def accounts_ok_def o_def filter_map)
  then show ?thesis
    using assms(1) g by (auto simp: db_ok_def intro: table_frames)
qed

text \<open>Updates of rows in place that leave the key columns alone.\<close>

lemma db_ok_codes_map:
  assumes "db_ok d" and key: "\<And>c. ec_ID (f c) = ec_ID c" "\<And>c. ec_UserAccountID (f c) = ec_UserAccountID c"
    "\<And>c. ec_Purpose (f c) = ec_Purpose c"
  shows "db_ok (d\<lparr>email_codes := map f (email_codes d)\<rparr>)"
proof -
  let ?d = "d\<lparr>email_codes := map f (email_codes d)\<rparr>"
  have g: "grows d ?d" by (simp add: grows_def)
  have m: "map ec_ID (map f (email_codes d)) = map ec_ID (email_codes d)"
    "map ec_UserAccountID (map f (email_codes d)) = map ec_UserAccountID (email_codes d)"
    by (simp_all add: key)
  have "codes_ok ?d"
    using assms(1) ids_ok_map [OF m(1), of d ?d] fk_map [OF m(2) _ g] key(3) by (auto simp: db_ok_def codes_ok_def)
  then show ?thesis
    using assms(1) g by (auto simp: db_ok_def intro: table_frames)
qed

lemma db_ok_identities_map:
  assumes "db_ok d" and key: "\<And>c. oi_ID (f c) = oi_ID c" "\<And>c. oi_UserAccountID (f c) = oi_UserAccountID c"
    "\<And>c. oi_Uuid (f c) = oi_Uuid c" "\<And>c. oi_Issuer (f c) = oi_Issuer c" "\<And>c. oi_Subject (f c) = oi_Subject c"
  shows "db_ok (d\<lparr>auth_oidc_identities := map f (auth_oidc_identities d)\<rparr>)"
proof -
  let ?d = "d\<lparr>auth_oidc_identities := map f (auth_oidc_identities d)\<rparr>"
  have g: "grows d ?d" by (simp add: grows_def)
  have m: "map oi_ID (map f (auth_oidc_identities d)) = map oi_ID (auth_oidc_identities d)"
    "map oi_UserAccountID (map f (auth_oidc_identities d)) = map oi_UserAccountID (auth_oidc_identities d)"
    by (simp_all add: key)
  have "identities_ok ?d"
    using assms(1) ids_ok_map [OF m(1), of d ?d] fk_map [OF m(2) _ g] key(3-5)
    by (auto simp: db_ok_def identities_ok_def o_def)
  then show ?thesis
    using assms(1) g by (auto simp: db_ok_def intro: table_frames)
qed

lemma db_ok_resets_map:
  assumes "db_ok d" and key: "\<And>c. prs_ID (f c) = prs_ID c" "\<And>c. prs_UserAccountID (f c) = prs_UserAccountID c"
    "\<And>c. prs_TokenHash (f c) = prs_TokenHash c"
  shows "db_ok (d\<lparr>password_resets := map f (password_resets d)\<rparr>)"
proof -
  let ?d = "d\<lparr>password_resets := map f (password_resets d)\<rparr>"
  have g: "grows d ?d" by (simp add: grows_def)
  have m: "map prs_ID (map f (password_resets d)) = map prs_ID (password_resets d)"
    "map prs_UserAccountID (map f (password_resets d)) = map prs_UserAccountID (password_resets d)"
    by (simp_all add: key)
  have "resets_ok ?d"
    using assms(1) ids_ok_map [OF m(1), of d ?d] fk_map [OF m(2) _ g] key(3)
    by (auto simp: db_ok_def resets_ok_def o_def)
  then show ?thesis
    using assms(1) g by (auto simp: db_ok_def intro: table_frames)
qed

lemma distinct_archive:
  "distinct (map sk_FingerprintSha256 (filter active_key ks)) \<Longrightarrow>
     distinct (map sk_FingerprintSha256 (filter active_key
       (map (\<lambda>k. if P k then k\<lparr>sk_ArchivedAt := Some now\<rparr> else k) ks)))"
  by (induction ks) (auto simp: active_key_def split: if_splits)

lemma db_ok_ArchiveSSHPublicKey:
  assumes "ArchiveSSHPublicKey d now uuid u = (n, d')" "db_ok d"
  shows "db_ok d'"
proof -
  let ?P = "\<lambda>k. sk_Uuid k = uuid \<and> sk_UserAccountID k = u \<and> active_key k"
  define ks where "ks = map (\<lambda>k. if ?P k then k\<lparr>sk_ArchivedAt := Some now\<rparr> else k) (ssh_public_keys d)"
  have d': "d' = d\<lparr>ssh_public_keys := ks\<rparr>"
    using assms(1) by (simp add: ArchiveSSHPublicKey_def ks_def)
  then have g: "grows d d'" by (simp add: grows_def)
  have m: "map sk_ID ks = map sk_ID (ssh_public_keys d)" "map sk_Uuid ks = map sk_Uuid (ssh_public_keys d)"
    "map sk_UserAccountID ks = map sk_UserAccountID (ssh_public_keys d)"
    unfolding ks_def by (rule map_if_key, simp)+
  have "distinct (map sk_FingerprintSha256 (filter active_key ks))"
    unfolding ks_def using assms(2) by (intro distinct_archive) (simp add: db_ok_def keys_ok_def)
  moreover have "ids_ok d' sk_ID ks" "fk d' sk_UserAccountID ks"
    using assms(2) g by (auto simp: db_ok_def keys_ok_def d' intro: ids_ok_map [OF m(1)] fk_map [OF m(3)])
  ultimately have "keys_ok d'"
    using assms(2) m by (simp add: keys_ok_def d' db_ok_def)
  then show ?thesis
    using assms(2) g by (auto simp: db_ok_def d' intro: table_frames)
qed

lemma db_ok_other: "db_ok (d\<lparr>jwt_secret := s\<rparr>) = db_ok d" "db_ok (d\<lparr>core := c\<rparr>) = db_ok d"
  by (simp_all add: db_ok_defs)

lemma db_write_ok: "db_write d d' \<Longrightarrow> db_ok d \<Longrightarrow> db_ok d'"
proof (induction rule: db_write.induct)
  case (delete_local d i d')
  then show ?case by (auto simp: DeleteAuthLocal_def intro: db_ok_auth_local_filter)
next
  case (touch_identity d now i d')
  then show ?case
    by (auto simp: TouchOIDCIdentityLastSeen_def intro!: db_ok_identities_map)
next
  case (delete_identity d uuid u n d')
  then show ?case by (auto simp: DeleteOIDCIdentityByUUID_def intro!: db_ok_identities_filter)
next
  case (claim_code d now i m c d')
  then show ?case
    by (auto simp: ClaimEmailCodeAttempt_def claim_row_def split: option.splits intro!: db_ok_codes_map)
next
  case (consume_code d now i n d')
  then show ?case by (auto simp: ConsumeEmailCode_def intro!: db_ok_codes_map)
next
  case (consume_reset d now i d')
  then show ?case by (auto simp: ConsumePasswordReset_def intro!: db_ok_resets_map)
next
  case (insert_secret d secret s d')
  then show ?case
    by (auto simp: InsertJWTSecretIfAbsent_def db_ok_other split: option.splits if_splits)
next
  case (set_default_app d i app d')
  then show ?case by (auto simp: SetDefaultApp_def intro!: db_ok_accounts_map)
next
  case (create_anon d now uuid device token u expires a d')
  then show ?case by (rule db_ok_CreateAnonToken)
next
  case (delete_anon d u d')
  then show ?case by (auto simp: DeleteAnonTokensByUserAccountID_def intro: db_ok_anon_filter)
next
  case (assign_app d now ok app u roles d')
  then show ?case by (rule db_ok_AssignUserAccountToApp)
next
  case (remove_app d app u d')
  then show ?case by (auto simp: RemoveUserAccountFromApp_def intro: db_ok_apps_filter)
next
  case (set_roles d app u roles d')
  then show ?case by (auto simp: SetAppUserAccountRoles_def intro!: db_ok_apps_map)
next
  case (core_write d' d c)
  then show ?case by (simp add: db_ok_other)
next
  case (create_account d now uuid h e v u d')
  then show ?case by (rule db_ok_CreateUserAccount)
next
  case (update_account d now i e v d')
  then show ?case by (rule db_ok_UpdateUserAccount)
next
  case (delete_account d i n d')
  then show ?case by (rule db_ok_delete_user_account)
next
  case (upsert_local d now i hash d')
  then show ?case by (rule db_ok_UpsertAuthLocal)
next
  case (insert_identity d now uuid u iss sub e v x d')
  then show ?case by (rule db_ok_InsertOIDCIdentity)
next
  case (create_code d now u hash purpose expires c d')
  then show ?case by (rule db_ok_CreateEmailCode)
next
  case (create_reset d now u hash expires p d')
  then show ?case by (rule db_ok_CreatePasswordReset)
next
  case (insert_key d now uuid u t pk fp label k d')
  then show ?case by (rule db_ok_InsertSSHPublicKey)
next
  case (archive_key d now uuid u n d')
  then show ?case by (rule db_ok_ArchiveSSHPublicKey)
qed

interpretation schema: invariant_system db_ok db_write db_ok
  by unfold_locales (auto intro: db_write_ok)

section \<open>Identity rows are written once\<close>

definition identity_of :: "'c db \<Rightarrow> string \<times> string \<Rightarrow> int option" where
  "identity_of d k =
     (case GetOIDCIdentityByIssuerSubject d (fst k) (snd k) of Inr i \<Rightarrow> Some (oi_UserAccountID i) | Inl _ \<Rightarrow> None)"

definition link_identity :: "'c db \<Rightarrow> instant \<Rightarrow> string \<Rightarrow> string \<times> string \<Rightarrow> int \<Rightarrow> bool \<times> 'c db" where
  "link_identity d now uuid k u =
     (case InsertOIDCIdentity d now uuid u (fst k) (snd k) None None of
        Inr (_, d') \<Rightarrow> (True, d')
      | Inl _ \<Rightarrow> (False, d))"

lemma identity_of_None: "identity_of d k = None \<longleftrightarrow>
    (\<forall>i \<in> set (auth_oidc_identities d). (oi_Issuer i, oi_Subject i) \<noteq> k)"
  by (cases k)
     (auto simp: identity_of_def GetOIDCIdentityByIssuerSubject_def one_def find_None_iff
       split: sum.splits option.splits dest: find_SomeD)

lemma identity_of_InsertOIDCIdentity:
  assumes "InsertOIDCIdentity d now uuid u iss sub e v = Inr (x, d')"
  shows "identity_of d (iss, sub) = None"
    and "identity_of d' k = (if k = (iss, sub) then Some u else identity_of d k)"
proof -
  show n: "identity_of d (iss, sub) = None"
    using assms by (auto simp: identity_of_None InsertOIDCIdentity_def Let_def split: if_splits)
  show "identity_of d' k = (if k = (iss, sub) then Some u else identity_of d k)"
    using assms n
    by (cases k) (auto simp: identity_of_def GetOIDCIdentityByIssuerSubject_def InsertOIDCIdentity_def Let_def find_snoc one_def
        split: if_splits option.splits)
qed

interpretation identities: put_once identity_of "\<lambda>d k u. link_identity d now uuid k u"
    "\<lambda>d k u. account_exists d u \<and> uuid \<notin> oi_Uuid ` set (auth_oidc_identities d)"
  for now uuid
proof
  fix s :: "'a db" and k v
  assume a: "account_exists s v \<and> uuid \<notin> oi_Uuid ` set (auth_oidc_identities s)" "identity_of s k = None"
  then obtain x d' where i: "InsertOIDCIdentity s now uuid v (fst k) (snd k) None None = Inr (x, d')"
    by (force simp: InsertOIDCIdentity_def Let_def identity_of_None)
  then show "fst (link_identity s now uuid k v) \<and> identity_of (snd (link_identity s now uuid k v)) k = Some v"
    using identity_of_InsertOIDCIdentity(2) [OF i, of k] by (simp add: link_identity_def)
next
  fix s :: "'a db" and k w v
  assume "identity_of s k = Some w"
  then show "\<not> fst (link_identity s now uuid k v) \<and> identity_of (snd (link_identity s now uuid k v)) k = Some w"
    using identity_of_InsertOIDCIdentity(1) [of s now uuid v "fst k" "snd k"]
    by (auto simp: link_identity_def split: sum.splits)
qed

section \<open>Properties\<close>



text \<open>
  Identity linking is first come, first served: of any sequence of attempts to link the same
  (issuer, subject) pair to accounts, exactly the first that is valid succeeds, and the pair
  belongs to that account afterwards.
\<close>

theorem identity_first_link_wins:
  assumes "identity_of d k = None" "account_exists d u" "uuid \<notin> oi_Uuid ` set (auth_oidc_identities d)"
  shows "\<exists>d1. link_identity d now uuid k u = (True, d1) \<and> identity_of d1 k = Some u \<and>
     (\<forall>now' uuid' v. link_identity d1 now' uuid' k v = (False, d1))"
proof -
  obtain d1 where d1: "link_identity d now uuid k u = (True, d1)" "identity_of d1 k = Some u"
    using identities.put_free [of d u uuid k now] assms
    by (cases "link_identity d now uuid k u") auto
  moreover have "link_identity d1 now' uuid' k v = (False, d1)" for now' uuid' v
    using identities.put_taken [OF d1(2), of now' uuid' v]
    by (cases "link_identity d1 now' uuid' k v") (auto simp: link_identity_def split: sum.splits)
  ultimately show ?thesis by blast
qed

theorem identity_first_link_wins_witness:
  "\<exists>(d :: unit db) d1. db_ok d \<and> link_identity d 0 ''i1'' (''g'', ''1'') 1 = (True, d1) \<and>
     link_identity d1 0 ''i2'' (''g'', ''1'') 2 = (False, d1)"
proof -
  obtain u d where c: "CreateUserAccount (empty_db ()) 0 ''u1'' 7 (Some ''a@b'') None = Inr (u, d)"
    by (simp add: CreateUserAccount_def Let_def)
  have ok: "db_ok d" by (rule db_ok_CreateUserAccount [OF c]) simp
  have "account_exists d 1" "auth_oidc_identities d = []"
    using c by (auto simp: CreateUserAccount_def Let_def account_exists_def)
  then have "identity_of d (''g'', ''1'') = None" by (simp add: identity_of_None)
  from identity_first_link_wins [OF this \<open>account_exists d 1\<close>, of "''i1''" 0] ok show ?thesis
    by (auto simp: \<open>auth_oidc_identities d = []\<close>)
qed

end
