(* ===== verification/LocalAuth.thy ===== *)
theory LocalAuth
  imports Database Password
begin

text \<open>
  Local sign-in: the handlers of \<open>api/internal/handlers/auth\<close> for login, registration, e-mail
  codes and password reset (\<open>login.go\<close>, \<open>register.go\<close>, \<open>emailcode.go\<close>, \<open>reset.go\<close>).

  A handler maps the database and the decoded request body (\<open>None\<close> when \<open>server.Decode\<close>
  has already answered) to a response and the new database. Database faults are injected per call
  site (\<open>at\<close>). Parameters: the password hash and bcrypt, SHA-256, the random values drawn, the
  e-mail transport (a message handed to it is part of the result), the JWT library, and the
  core module's creation of a person. Work a handler leaves to a goroutine is an operation of
  its own.
\<close>

section \<open>Responses\<close>

datatype api_error = InvalidInput "(string \<times> string) list" | InternalError

text \<open>\<open>server.Error\<close>, \<open>apiresp.WriteError\<close>, and the success bodies.\<close>

datatype response =
    BadBody
  | ErrorResp nat string
  | ApiError api_error
  | NoContent
  | SessionResp string UserAccount
  | CreatedResp UserAccount

type_synonym faults = "nat \<Rightarrow> bool"

section \<open>The handler\<close>

record Handler =
  h_jwtSecret :: string
  h_signer :: "Signer option"
  h_issuer :: string
  h_guiBase :: string

definition jwtSigner :: "Handler \<Rightarrow> (jwt_error, Signer) result" where
  "jwtSigner h = (case h_signer h of Some s \<Rightarrow> Inr s | None \<Rightarrow> NewHS256Signer (h_jwtSecret h) [])"

definition issueLocalJWT :: "jwt_lib \<Rightarrow> Handler \<Rightarrow> UserAccount \<Rightarrow> instant \<Rightarrow> (jwt_error, string) result" where
  "issueLocalJWT jwt_sign h ua now =
     (case jwtSigner h of
        Inl e \<Rightarrow> Inl e
      | Inr s \<Rightarrow> IssueLocalJWTWithSigner jwt_sign (ua_Uuid ua) (Some s) (h_issuer h) now)"

definition session :: "jwt_lib \<Rightarrow> Handler \<Rightarrow> UserAccount \<Rightarrow> instant \<Rightarrow> response" where
  "session jwt_sign h ua now =
     (case issueLocalJWT jwt_sign h ua now of Inl _ \<Rightarrow> ApiError InternalError | Inr t \<Rightarrow> SessionResp t ua)"

section \<open>Login\<close>

record loginRequest =
  lr_Email :: string
  lr_Password :: string

definition login_details :: "string \<Rightarrow> string \<Rightarrow> (string \<times> string) list" where
  "login_details email password =
     (if email = [] then [(''email'', ''users.email_required'')] else []) @
     (if password = [] then [(''password'', ''users.password_required'')] else [])"

definition Login ::
  "id_key \<Rightarrow> jwt_lib \<Rightarrow> Handler \<Rightarrow> faults \<Rightarrow> instant \<Rightarrow> 'c db \<Rightarrow> loginRequest option \<Rightarrow> response" where
  "Login IDKey jwt_sign h flt now d body =
     (case body of
        None \<Rightarrow> BadBody
      | Some req \<Rightarrow>
          let email = canonical_email (lr_Email req);
              refuse = ErrorResp 401 ''unauthenticated''
          in if email = [] \<or> lr_Password req = []
             then ApiError (InvalidInput (login_details email (lr_Password req)))
             else
               (case at flt 0 (GetUserAccountByEmail d email) of
                  Inl NoRows \<Rightarrow> refuse
                | Inl _ \<Rightarrow> ApiError InternalError
                | Inr ua \<Rightarrow>
                    (case at flt 1 (GetAuthLocal d (ua_ID ua)) of
                       Inl _ \<Rightarrow> refuse
                     | Inr al \<Rightarrow>
                         (case VerifyPassword IDKey (lr_Password req) (al_PasswordHash al) of
                            Inl _ \<Rightarrow> ApiError InternalError
                          | Inr ok \<Rightarrow> if \<not> ok then refuse else session jwt_sign h ua now))))"

section \<open>E-mail codes\<close>

definition MaxEmailCodeAttempts :: int where "MaxEmailCodeAttempts = 5"
definition EmailCodeRequestCooldown :: int where "EmailCodeRequestCooldown = 60 * second"
definition defaultEmailCodeConcurrency :: nat where "defaultEmailCodeConcurrency = 16"

definition publicEmailCodePurpose :: "string \<Rightarrow> bool" where
  "publicEmailCodePurpose purpose \<longleftrightarrow> purpose = ''login'' \<or> purpose = ''verify_email''"

record mail =
  mail_to :: string
  mail_subject :: string
  mail_code :: string

text \<open>The 6-digit rendering of the random number.\<close>

definition six_digits :: "nat \<Rightarrow> string" where
  "six_digits n = replicate (6 - length (show_nat n)) (CHR ''0'') @ show_nat n"

text \<open>
  \<open>sendEmailCode\<close>: \<open>rnd\<close> is the number drawn (below one million, \<open>None\<close> on failure), \<open>hash\<close> what
  bcrypt makes of the code (\<open>None\<close> on failure).
\<close>

definition sendEmailCode ::
  "nat option \<Rightarrow> (string \<Rightarrow> string option) \<Rightarrow> faults \<Rightarrow> instant \<Rightarrow> 'c db \<Rightarrow> string \<Rightarrow> string \<Rightarrow> mail option \<times> 'c db" where
  "sendEmailCode rnd hash flt now d email purpose =
     (if \<not> publicEmailCodePurpose purpose then (None, d)
      else
        (case at flt 0 (GetUserAccountByEmail d email) of
           Inl _ \<Rightarrow> (None, d)
         | Inr ua \<Rightarrow>
             if \<not> flt 1 \<and> HasRecentEmailCode d now (ua_ID ua) purpose (EmailCodeRequestCooldown div second)
             then (None, d)
             else
               (case rnd of
                  None \<Rightarrow> (None, d)
                | Some n \<Rightarrow>
                    (case hash (six_digits n) of
                       None \<Rightarrow> (None, d)
                     | Some hs \<Rightarrow>
                         (case at flt 2 (CreateEmailCodeWithCooldown d now (ua_ID ua) hs purpose
                                  (now + 300 * second) (EmailCodeRequestCooldown div second)) of
                            Inl _ \<Rightarrow> (None, d)
                          | Inr (_, d') \<Rightarrow>
                              (case ua_Email ua of
                                 None \<Rightarrow> (None, d')
                               | Some addr \<Rightarrow>
                                   if addr = [] then (None, d')
                                   else (Some \<lparr>mail_to = addr,
                                               mail_subject = (if purpose = ''verify_email''
                                                 then ''Verify your email address'' else ''Your login code''),
                                               mail_code = six_digits n\<rparr>, d')))))))"

record emailCodeVerifyBody =
  ev_Email :: string
  ev_Code :: string
  ev_Purpose :: string

definition emailCodeRequiredDetails :: "string \<Rightarrow> string \<Rightarrow> (string \<times> string) list" where
  "emailCodeRequiredDetails email code =
     (if email = [] then [(''email'', ''users.email_required'')] else []) @
     (if code = [] then [(''code'', ''users.code_required'')] else [])"

text \<open>After a code was spent: a session for \<open>login\<close>, else the verified mark.\<close>

definition code_accepted ::
  "jwt_lib \<Rightarrow> Handler \<Rightarrow> faults \<Rightarrow> instant \<Rightarrow> string \<Rightarrow> UserAccount \<Rightarrow> 'c db \<Rightarrow> response \<times> 'c db" where
  "code_accepted jwt_sign h flt now purpose ua d =
     (if purpose = ''login'' then (session jwt_sign h ua now, d)
      else
        (case at flt 4 (UpdateUserAccount d now (ua_ID ua) (ua_Email ua) (Some now)) of
           Inl _ \<Rightarrow> (ApiError InternalError, d)
         | Inr d' \<Rightarrow> (NoContent, d')))"

definition EmailCodeVerify ::
  "(string \<Rightarrow> string \<Rightarrow> bool) \<Rightarrow> jwt_lib \<Rightarrow> Handler \<Rightarrow> faults \<Rightarrow> instant \<Rightarrow> 'c db
     \<Rightarrow> emailCodeVerifyBody option \<Rightarrow> response \<times> 'c db" where
  "EmailCodeVerify bcrypt_ok jwt_sign h flt now d body =
     (case body of
        None \<Rightarrow> (BadBody, d)
      | Some req \<Rightarrow>
          let email = canonical_email (ev_Email req);
              purpose = (if ev_Purpose req = [] then ''login'' else ev_Purpose req);
              refuse = ErrorResp 401 ''unauthenticated''
          in if email = [] \<or> ev_Code req = []
             then (ApiError (InvalidInput (emailCodeRequiredDetails email (ev_Code req))), d)
             else if \<not> publicEmailCodePurpose purpose then (ErrorResp 400 ''invalid_input'', d)
             else
               (case at flt 0 (GetUserAccountByEmail d email) of
                  Inl NoRows \<Rightarrow> (refuse, d)
                | Inl _ \<Rightarrow> (ApiError InternalError, d)
                | Inr ua \<Rightarrow>
                    (case at flt 1 (GetActiveEmailCode d now (ua_ID ua) purpose) of
                       Inl NoRows \<Rightarrow> (refuse, d)
                     | Inl _ \<Rightarrow> (ApiError InternalError, d)
                     | Inr emailCode \<Rightarrow>
                         (case at flt 2 (ClaimEmailCodeAttempt d now (ec_ID emailCode) MaxEmailCodeAttempts) of
                            Inl NoRows \<Rightarrow> (refuse, d)
                          | Inl _ \<Rightarrow> (ErrorResp 500 ''internal_error'', d)
                          | Inr (claimed, d1) \<Rightarrow>
                              if \<not> bcrypt_ok (ec_CodeHash claimed) (ev_Code req) then (refuse, d1)
                              else if ec_ConsumedAt claimed = None then
                                (if flt 3 then (ErrorResp 500 ''internal_error'', d1)
                                 else
                                   (case ConsumeEmailCode d1 now (ec_ID emailCode) of
                                      (n, d2) \<Rightarrow>
                                        if n = 0 then (refuse, d2)
                                        else code_accepted jwt_sign h flt now purpose ua d2))
                              else code_accepted jwt_sign h flt now purpose ua d1))))"

text \<open>
  The bounded background sends of \<open>dispatchEmailCode\<close>: a request takes a free slot or is
  dropped; a finished send frees its slot.
\<close>

definition slot_capacity :: "int \<Rightarrow> nat" where
  "slot_capacity emailCodeConcurrency =
     (if emailCodeConcurrency \<le> 0 then defaultEmailCodeConcurrency else nat emailCodeConcurrency)"

definition dispatchEmailCode :: "nat \<Rightarrow> nat \<Rightarrow> bool \<times> nat" where
  "dispatchEmailCode cap used = (if used < cap then (True, Suc used) else (False, used))"

section \<open>Password reset\<close>

definition reset_token_hash :: "(string \<Rightarrow> string) \<Rightarrow> string \<Rightarrow> string" where
  "reset_token_hash sha256 tok = hex_encode (sha256 tok)"

text \<open>The goroutine of \<open>PasswordResetRequest\<close>: the address and the link it mails, if any.\<close>

definition PasswordResetRequest ::
  "(string \<Rightarrow> string) \<Rightarrow> string option \<Rightarrow> Handler \<Rightarrow> faults \<Rightarrow> instant \<Rightarrow> 'c db \<Rightarrow> string
     \<Rightarrow> (string \<times> string) option \<times> 'c db" where
  "PasswordResetRequest sha256 rnd h flt now d rawEmail =
     (let email = canonical_email rawEmail in
      if email = [] then (None, d)
      else
        (case at flt 0 (GetUserAccountByEmail d email) of
           Inl _ \<Rightarrow> (None, d)
         | Inr ua \<Rightarrow>
             (case rnd of
                None \<Rightarrow> (None, d)
              | Some raw \<Rightarrow>
                  let tok = hex_encode raw in
                  (case at flt 1 (CreatePasswordReset d now (ua_ID ua) (reset_token_hash sha256 tok)
                           (now + 1800 * second)) of
                     Inl _ \<Rightarrow> (None, d)
                   | Inr (_, d') \<Rightarrow>
                       (case ua_Email ua of
                          None \<Rightarrow> (None, d')
                        | Some addr \<Rightarrow>
                            if addr = [] then (None, d')
                            else (Some (addr, TrimRight (\<lambda>c. c = CHR ''/'') (h_guiBase h) @ ''/reset-password?token='' @ tok),
                                  d'))))))"

record passwordResetConfirmBody =
  pc_Token :: string
  pc_Password :: string

definition PasswordResetConfirm ::
  "(string \<Rightarrow> string) \<Rightarrow> id_key \<Rightarrow> string option \<Rightarrow> faults \<Rightarrow> instant \<Rightarrow> 'c db
     \<Rightarrow> passwordResetConfirmBody option \<Rightarrow> response \<times> 'c db" where
  "PasswordResetConfirm sha256 IDKey salt flt now d body =
     (case body of
        None \<Rightarrow> (BadBody, d)
      | Some req \<Rightarrow>
          if pc_Token req = [] then (ApiError (InvalidInput [(''token'', ''users.token_required'')]), d)
          else if length (pc_Password req) < 12
            then (ApiError (InvalidInput [(''password'', ''users.password_too_short'')]), d)
          else
            (case at flt 0 (GetActivePasswordReset d now (reset_token_hash sha256 (pc_Token req))) of
               Inl NoRows \<Rightarrow> (ErrorResp 401 ''unauthenticated'', d)
             | Inl _ \<Rightarrow> (ApiError InternalError, d)
             | Inr reset \<Rightarrow>
                 (case HashPassword IDKey salt (pc_Password req) of
                    Inl _ \<Rightarrow> (ApiError InternalError, d)
                  | Inr hash \<Rightarrow>
                      (case at flt 1 (UpsertAuthLocal d now (prs_UserAccountID reset) hash) of
                         Inl _ \<Rightarrow> (ApiError InternalError, d)
                       | Inr d1 \<Rightarrow>
                           (NoContent, if flt 2 then d1 else ConsumePasswordReset d1 now (prs_ID reset))))))"

section \<open>Registration\<close>

text \<open>The core module's queries that create a natural person, over its part of the state.\<close>

record 'c core_ops =
  GetTypeBySlug :: "'c \<Rightarrow> string \<Rightarrow> int query"
  CreateEntity :: "'c \<Rightarrow> int \<Rightarrow> (int \<times> 'c) query"
  CreateLegalEntity :: "'c \<Rightarrow> int \<Rightarrow> 'c query"
  CreateNaturalPerson :: "'c \<Rightarrow> int \<Rightarrow> string option \<Rightarrow> string option \<Rightarrow> 'c query"

text \<open>The chain entity, legal entity, natural person; call sites \<open>k\<close> to \<open>k + 3\<close>.\<close>

definition create_person ::
  "'c core_ops \<Rightarrow> faults \<Rightarrow> nat \<Rightarrow> 'c \<Rightarrow> string option \<Rightarrow> string option \<Rightarrow> (int \<times> 'c) query" where
  "create_person C flt k c given family =
     (case at flt k (GetTypeBySlug C c ''natural_person'') of
        Inl e \<Rightarrow> Inl e
      | Inr npType \<Rightarrow>
          (case at flt (k + 1) (CreateEntity C c npType) of
             Inl e \<Rightarrow> Inl e
           | Inr (entity, c1) \<Rightarrow>
               (case at flt (k + 2) (CreateLegalEntity C c1 entity) of
                  Inl e \<Rightarrow> Inl e
                | Inr c2 \<Rightarrow>
                    (case at flt (k + 3) (CreateNaturalPerson C c2 entity given family) of
                       Inl e \<Rightarrow> Inl e
                     | Inr c3 \<Rightarrow> Inr (entity, c3)))))"

record registerRequest =
  rg_Email :: string
  rg_Password :: string
  rg_GivenName :: string
  rg_FamilyName :: string

text \<open>
  The result is the response, the database after commit or rollback, and the entity for which the
  first-user hook is called.
\<close>

definition Register ::
  "id_key \<Rightarrow> string option \<Rightarrow> 'c core_ops \<Rightarrow> string \<Rightarrow> faults \<Rightarrow> instant \<Rightarrow> 'c db
     \<Rightarrow> registerRequest option \<Rightarrow> response \<times> 'c db \<times> int option" where
  "Register IDKey salt C uuid flt now d body =
     (case body of
        None \<Rightarrow> (BadBody, d, None)
      | Some req \<Rightarrow>
          let email = canonical_email (rg_Email req) in
          if email = [] then (ErrorResp 400 ''invalid_input'', d, None)
          else if length (rg_Password req) < 12 then (ErrorResp 400 ''invalid_input'', d, None)
          else if TrimSpace (rg_GivenName req) = [] then (ErrorResp 400 ''invalid_input'', d, None)
          else if TrimSpace (rg_FamilyName req) = [] then (ErrorResp 400 ''invalid_input'', d, None)
          else
            (case HashPassword IDKey salt (rg_Password req) of
               Inl _ \<Rightarrow> (ApiError InternalError, d, None)
             | Inr hash \<Rightarrow>
                 if flt 0 \<or> flt 1 then (ApiError InternalError, d, None)
                 else
                   (case create_person C flt 2 (core d) (Some (rg_GivenName req)) (Some (rg_FamilyName req)) of
                      Inl _ \<Rightarrow> (ApiError InternalError, d, None)
                    | Inr (entity, c') \<Rightarrow>
                        (case at flt 6 (CreateUserAccount (d\<lparr>core := c'\<rparr>) now uuid entity (Some email) None) of
                           Inl (UniqueViolation _) \<Rightarrow> (ErrorResp 409 ''conflict'', d, None)
                         | Inl _ \<Rightarrow> (ApiError InternalError, d, None)
                         | Inr (ua, d1) \<Rightarrow>
                             (case at flt 7 (UpsertAuthLocal d1 now (ua_ID ua) hash) of
                                Inl _ \<Rightarrow> (ApiError InternalError, d, None)
                              | Inr d2 \<Rightarrow>
                                  if flt 8 then (ApiError InternalError, d, None)
                                  else (CreatedResp ua, d2,
                                        if user_accounts d = [] then Some entity else None))))))"

section \<open>Concurrent use of e-mail codes\<close>

text \<open>
  Requests that verify codes run concurrently over one table. A request claims an attempt at a
  code (one statement), compares the code it was sent with the claimed row (\<open>holders\<close>: the claimed
  row and the outcome), and on a match spends the code: by the claim itself when that was the final
  attempt, else by a consume statement that must affect a row. Codes are minted meanwhile, time
  passes, and a request may die at any point. \<open>guesses\<close> and \<open>wins\<close> log the codes attempted and the
  codes that opened a session.
\<close>

record 'c code_sys =
  sys_db :: "'c db"
  sys_now :: instant
  holders :: "(EmailCode \<times> bool) list"
  guesses :: "int list"
  wins :: "int list"

inductive code_step :: "'c code_sys \<Rightarrow> 'c code_sys \<Rightarrow> bool" where
  mint: "CreateEmailCode (sys_db s) (sys_now s) u hs purpose expires = Inr (c, d')
    \<Longrightarrow> code_step s (s\<lparr>sys_db := d'\<rparr>)"
| claim: "ClaimEmailCodeAttempt (sys_db s) (sys_now s) i MaxEmailCodeAttempts = Inr (c, d')
    \<Longrightarrow> code_step s (s\<lparr>sys_db := d', holders := (c, ok) # holders s, guesses := i # guesses s\<rparr>)"
| give_up: "x \<in> set (holders s) \<Longrightarrow> code_step s (s\<lparr>holders := remove1 x (holders s)\<rparr>)"
| final: "(c, True) \<in> set (holders s) \<Longrightarrow> ec_ConsumedAt c \<noteq> None
    \<Longrightarrow> code_step s (s\<lparr>holders := remove1 (c, True) (holders s), wins := ec_ID c # wins s\<rparr>)"
| consume: "(c, True) \<in> set (holders s) \<Longrightarrow> ec_ConsumedAt c = None
    \<Longrightarrow> ConsumeEmailCode (sys_db s) (sys_now s) (ec_ID c) = (n, d')
    \<Longrightarrow> code_step s (s\<lparr>sys_db := d', holders := remove1 (c, True) (holders s),
                         wins := (if n = 0 then wins s else ec_ID c # wins s)\<rparr>)"
| tick: "sys_now s \<le> t \<Longrightarrow> code_step s (s\<lparr>sys_now := t\<rparr>)"

inductive_cases code_stepE: "code_step s t"

definition code_init :: "'c code_sys \<Rightarrow> bool" where
  "code_init s \<longleftrightarrow> ids_ok (sys_db s) ec_ID (email_codes (sys_db s)) \<and>
     (\<forall>c \<in> set (email_codes (sys_db s)). 0 \<le> ec_FailedAttempts c \<and> ec_FailedAttempts c \<le> MaxEmailCodeAttempts) \<and>
     holders s = [] \<and> guesses s = [] \<and> wins s = []"

text \<open>Holders of a final attempt at code \<open>i\<close>.\<close>

definition finals :: "(EmailCode \<times> bool) list \<Rightarrow> int \<Rightarrow> nat" where
  "finals hs i = length (filter (\<lambda>(c, _). ec_ID c = i \<and> ec_ConsumedAt c \<noteq> None) hs)"

definition code_row_ok :: "'c code_sys \<Rightarrow> EmailCode \<Rightarrow> bool" where
  "code_row_ok s c \<longleftrightarrow> ec_FailedAttempts c \<le> MaxEmailCodeAttempts \<and>
     int (count_list (guesses s) (ec_ID c)) \<le> ec_FailedAttempts c \<and>
     count_list (wins s) (ec_ID c) + finals (holders s) (ec_ID c) \<le> (if ec_ConsumedAt c = None then 0 else 1)"

definition code_inv :: "'c code_sys \<Rightarrow> bool" where
  "code_inv s \<longleftrightarrow> ids_ok (sys_db s) ec_ID (email_codes (sys_db s)) \<and>
     (\<forall>c \<in> set (email_codes (sys_db s)). code_row_ok s c) \<and>
     (set (guesses s) \<union> set (wins s) \<union> (ec_ID \<circ> fst) ` set (holders s)
        \<subseteq> ec_ID ` set (email_codes (sys_db s)))"

lemma finals_simps [simp]:
  "finals [] i = 0"
  "finals ((c, ok) # hs) i = (if ec_ID c = i \<and> ec_ConsumedAt c \<noteq> None then 1 else 0) + finals hs i"
  by (simp_all add: finals_def)

lemma finals_remove1_le: "finals (remove1 x hs) i \<le> finals hs i"
proof (induction hs)
  case (Cons y hs)
  then show ?case by (cases y) auto
qed simp

lemma finals_remove1:
  "x \<in> set hs \<Longrightarrow> finals hs i = finals (remove1 x hs) i + (if ec_ID (fst x) = i \<and> ec_ConsumedAt (fst x) \<noteq> None then 1 else 0)"
proof (induction hs)
  case (Cons y hs)
  then show ?case by (cases y) auto
qed simp

lemma unique_id:
  "ids_ok d ec_ID (email_codes d) \<Longrightarrow> c \<in> set (email_codes d) \<Longrightarrow> c' \<in> set (email_codes d) \<Longrightarrow> ec_ID c = ec_ID c' \<Longrightarrow> c = c'"
  by (auto simp: ids_ok_def distinct_map dest: inj_onD)

text \<open>Rows under an update in place that keeps the identifiers.\<close>

lemma code_table_map:
  assumes "ids_ok d ec_ID (email_codes d)" "\<And>c. ec_ID (f c) = ec_ID c"
  shows "ids_ok (d\<lparr>email_codes := map f (email_codes d)\<rparr>) ec_ID (map f (email_codes d))"
    and "ec_ID ` set (map f (email_codes d)) = ec_ID ` set (email_codes d)"
  using assms by (auto simp: ids_ok_def o_def image_image)

lemma code_inv_map:
  assumes inv: "code_inv s" and key: "\<And>c. ec_ID (f c) = ec_ID c"
    and row: "\<And>c. c \<in> set (email_codes (sys_db s)) \<Longrightarrow>
      code_row_ok (s\<lparr>holders := hs, guesses := gs, wins := ws\<rparr>) (f c)"
    and sub: "set gs \<union> set ws \<union> (ec_ID \<circ> fst) ` set hs \<subseteq> ec_ID ` set (email_codes (sys_db s))"
  shows "code_inv (s\<lparr>sys_db := (sys_db s)\<lparr>email_codes := map f (email_codes (sys_db s))\<rparr>,
                     holders := hs, guesses := gs, wins := ws\<rparr>)"
proof -
  have "ids_ok (sys_db s) ec_ID (email_codes (sys_db s))" using inv by (simp add: code_inv_def)
  note tab = code_table_map [OF this key]
  show ?thesis
    unfolding code_inv_def
    using tab sub row by (simp add: code_row_ok_def image_image key)
qed

lemma code_inv_claim:
  assumes inv: "code_inv s"
    and cl: "ClaimEmailCodeAttempt (sys_db s) (sys_now s) i MaxEmailCodeAttempts = Inr (c, d')"
  shows "code_inv (s\<lparr>sys_db := d', holders := (c, ok) # holders s, guesses := i # guesses s\<rparr>)"
proof -
  let ?cs = "email_codes (sys_db s)"
  define f where "f = (\<lambda>c. if claimable i MaxEmailCodeAttempts c then claim_row (sys_now s) MaxEmailCodeAttempts c else c)"
  obtain c0 where c0: "c0 \<in> set ?cs" "claimable i MaxEmailCodeAttempts c0"
    "c = claim_row (sys_now s) MaxEmailCodeAttempts c0" and d': "d' = (sys_db s)\<lparr>email_codes := map f ?cs\<rparr>"
    using cl by (auto simp: ClaimEmailCodeAttempt_def f_def dest: find_SomeD split: option.splits)
  have ids: "ids_ok (sys_db s) ec_ID ?cs" using inv by (simp add: code_inv_def)
  have key: "ec_ID (f c) = ec_ID c" for c by (simp add: f_def claim_row_def)
  have row: "code_row_ok (s\<lparr>holders := (c, ok) # holders s, guesses := i # guesses s, wins := wins s\<rparr>) (f c')"
    if c': "c' \<in> set ?cs" for c'
  proof (cases "c' = c0")
    case True
    have "code_row_ok s c0" using inv c0(1) by (simp add: code_inv_def)
    then show ?thesis
      using c0 True by (auto simp: code_row_ok_def f_def claim_row_def claimable_def)
  next
    case False
    then have "ec_ID c' \<noteq> i" using unique_id [OF ids c' c0(1)] c0(2) by (auto simp: claimable_def)
    then show ?thesis
      using inv c' c0 by (auto simp: code_inv_def code_row_ok_def f_def claim_row_def claimable_def)
  qed
  have "i \<in> ec_ID ` set ?cs" "ec_ID c = i" using c0 by (auto simp: claimable_def claim_row_def)
  then show ?thesis
    using code_inv_map [OF inv key row] inv by (simp add: d' code_inv_def)
qed

lemma code_inv_consume:
  assumes inv: "code_inv s" and h: "(c, True) \<in> set (holders s)" "ec_ConsumedAt c = None"
    and co: "ConsumeEmailCode (sys_db s) (sys_now s) (ec_ID c) = (n, d')"
  shows "code_inv (s\<lparr>sys_db := d', holders := remove1 (c, True) (holders s),
                     wins := (if n = 0 then wins s else ec_ID c # wins s)\<rparr>)"
proof -
  let ?cs = "email_codes (sys_db s)" and ?i = "ec_ID c"
  let ?hs = "remove1 (c, True) (holders s)" and ?ws = "if n = 0 then wins s else ec_ID c # wins s"
  define f where "f = (\<lambda>c. if consumable ?i c then c\<lparr>ec_ConsumedAt := Some (sys_now s)\<rparr> else c)"
  have d': "d' = (sys_db s)\<lparr>email_codes := map f ?cs\<rparr>" and n: "n = int (length (filter (consumable ?i) ?cs))"
    using co by (auto simp: ConsumeEmailCode_def f_def)
  have ids: "ids_ok (sys_db s) ec_ID ?cs" using inv by (simp add: code_inv_def)
  have key: "ec_ID (f c) = ec_ID c" for c by (simp add: f_def)
  have sub: "set (guesses s) \<union> set ?ws \<union> (ec_ID \<circ> fst) ` set ?hs \<subseteq> ec_ID ` set ?cs"
  proof -
    have "(ec_ID \<circ> fst) ` set ?hs \<subseteq> (ec_ID \<circ> fst) ` set (holders s)"
      by (rule image_mono) (rule set_remove1_subset)
    moreover have "ec_ID c \<in> (ec_ID \<circ> fst) ` set (holders s)" using h(1) by force
    moreover have "set (guesses s) \<union> set (wins s) \<union> (ec_ID \<circ> fst) ` set (holders s) \<subseteq> ec_ID ` set ?cs"
      using inv by (simp add: code_inv_def)
    ultimately show ?thesis by (simp split: if_split) blast
  qed
  have row: "code_row_ok (s\<lparr>holders := ?hs, guesses := guesses s, wins := ?ws\<rparr>) (f c')"
    if c': "c' \<in> set ?cs" for c'
  proof -
    have ok: "code_row_ok s c'" using inv c' by (simp add: code_inv_def)
    have fin: "finals ?hs (ec_ID c') \<le> finals (holders s) (ec_ID c')" by (rule finals_remove1_le)
    show ?thesis
    proof (cases "consumable ?i c'")
      case True
      then show ?thesis
        using ok fin by (auto simp: code_row_ok_def f_def consumable_def)
    next
      case False
      have "n = 0" if "ec_ID c' = ?i"
      proof -
        have "\<forall>x \<in> set ?cs. \<not> consumable ?i x"
          using False unique_id [OF ids c'] that by (auto simp: consumable_def)
        then show ?thesis by (simp add: n filter_empty_conv)
      qed
      then show ?thesis
        using ok fin False by (auto simp: code_row_ok_def f_def)
    qed
  qed
  show ?thesis
    using code_inv_map [OF inv key row sub] by (simp add: d')
qed

lemma code_inv_holders:
  assumes "code_inv s" "set hs \<subseteq> set (holders s)" "set ws \<subseteq> set (wins s) \<union> (ec_ID \<circ> fst) ` set (holders s)"
    and "\<And>i. count_list ws i + finals hs i \<le> count_list (wins s) i + finals (holders s) i"
  shows "code_inv (s\<lparr>holders := hs, wins := ws\<rparr>)"
proof -
  have "code_row_ok (s\<lparr>holders := hs, wins := ws\<rparr>) c" if "c \<in> set (email_codes (sys_db s))" for c
    using assms(1) that assms(4) [of "ec_ID c"] by (auto simp: code_inv_def code_row_ok_def)
  moreover
  let ?I = "ec_ID ` set (email_codes (sys_db s))"
  have "set (guesses s) \<union> set (wins s) \<union> (ec_ID \<circ> fst) ` set (holders s) \<subseteq> ?I"
    using assms(1) by (simp only: code_inv_def)
  then have sub: "set (guesses s) \<subseteq> ?I" "set (wins s) \<subseteq> ?I" "(ec_ID \<circ> fst) ` set (holders s) \<subseteq> ?I"
    by (simp_all only: Un_subset_iff)
  have "set ws \<subseteq> ?I"
    by (rule order_trans [OF assms(3)]) (simp only: Un_subset_iff sub)
  moreover have "(ec_ID \<circ> fst) ` set hs \<subseteq> ?I"
    by (rule order_trans [OF image_mono [OF assms(2)] sub(3)])
  ultimately show ?thesis
    using assms(1) sub(1) by (simp add: code_inv_def)
qed

lemma code_step_inv: "code_step s t \<Longrightarrow> code_inv s \<Longrightarrow> code_inv t"
proof (induction rule: code_step.induct)
  case (mint s u hs purpose expires c d')
  let ?d = "sys_db s"
  have d': "email_codes d' = email_codes ?d @ [c]" "next_id d' = next_id ?d + 1" "ec_ID c = next_id ?d"
    "ec_FailedAttempts c = 0" "ec_ConsumedAt c = None"
    using mint.hyps by (auto simp: CreateEmailCode_def Let_def split: if_splits)
  have ids: "ids_ok ?d ec_ID (email_codes ?d)" using mint.prems by (simp add: code_inv_def)
  then have "next_id ?d \<notin> ec_ID ` set (email_codes ?d)" by (auto simp: ids_ok_def)
  then have new: "next_id ?d \<notin> set (guesses s)" "next_id ?d \<notin> set (wins s)"
    "next_id ?d \<notin> (ec_ID \<circ> fst) ` set (holders s)"
    using mint.prems by (auto simp: code_inv_def)
  then have "finals (holders s) (next_id ?d) = 0"
    by (force simp: finals_def filter_empty_conv)
  then have "code_row_ok (s\<lparr>sys_db := d'\<rparr>) c"
    using new d' by (simp add: code_row_ok_def MaxEmailCodeAttempts_def)
  moreover have "ids_ok d' ec_ID (email_codes ?d @ [c])"
    using ids d' by (intro ids_ok_snoc) auto
  ultimately show ?case
    using mint.prems d' by (auto simp: code_inv_def code_row_ok_def)
next
  case (claim s i c d' ok)
  then show ?case by (simp add: code_inv_claim)
next
  case (give_up x s)
  have "code_inv (s\<lparr>holders := remove1 x (holders s), wins := wins s\<rparr>)"
    by (rule code_inv_holders [OF give_up.prems set_remove1_subset]) (auto simp: finals_remove1_le)
  then show ?case by simp
next
  case (final c s)
  have "ec_ID c \<in> (ec_ID \<circ> fst) ` set (holders s)" using final.hyps(1) by force
  moreover have "count_list (ec_ID c # wins s) i + finals (remove1 (c, True) (holders s)) i
      \<le> count_list (wins s) i + finals (holders s) i" for i
    using finals_remove1 [OF final.hyps(1), of i] final.hyps(2) by simp
  ultimately show ?case
    by (intro code_inv_holders [OF final.prems set_remove1_subset]) auto
next
  case (consume c s n d')
  then show ?case by (simp add: code_inv_consume)
next
  case (tick s t)
  then show ?case by (simp add: code_inv_def code_row_ok_def)
qed

interpretation email_codes: invariant_system code_init code_step code_inv
proof
  fix s :: "'a code_sys"
  assume "code_init s"
  then show "code_inv s"
    by (auto simp: code_init_def code_inv_def code_row_ok_def)
qed (rule code_step_inv)

section \<open>Lemmas on the handlers\<close>

lemma newest_in: "newest cs = Some c \<Longrightarrow> c \<in> set cs"
proof -
  assume "newest cs = Some c"
  then have "c \<in> set (rev (sort_key ec_CreatedAt cs))"
    by (cases "rev (sort_key ec_CreatedAt cs)") (simp_all add: newest_def)
  then show ?thesis by simp
qed

lemma GetActiveEmailCode_Inr:
  "GetActiveEmailCode d now u purpose = Inr c \<Longrightarrow>
     c \<in> set (email_codes d) \<and> ec_UserAccountID c = u \<and> ec_Purpose c = purpose \<and> ec_ConsumedAt c = None \<and> now < ec_ExpiresAt c"
  by (auto simp: GetActiveEmailCode_def dest!: newest_in)

lemma consumed_after_Consume:
  "ConsumeEmailCode d now i = (n, d') \<Longrightarrow> c \<in> set (email_codes d') \<Longrightarrow> ec_ID c = i \<Longrightarrow> ec_ConsumedAt c \<noteq> None"
proof -
  assume a: "ConsumeEmailCode d now i = (n, d')" "c \<in> set (email_codes d')" "ec_ID c = i"
  define f where "f = (\<lambda>c. if consumable i c then c\<lparr>ec_ConsumedAt := Some now\<rparr> else c)"
  have "email_codes d' = map f (email_codes d)"
    using a(1) by (auto simp: ConsumeEmailCode_def f_def)
  then obtain x where "c = f x" using a(2) by auto
  with a(3) show ?thesis by (cases "consumable i x") (auto simp: consumable_def f_def)
qed

lemma claim_Inr:
  assumes "ClaimEmailCodeAttempt d now i m = Inr (c, d')" "distinct (map ec_ID (email_codes d))"
  shows "\<exists>c0. c0 \<in> set (email_codes d) \<and> claimable i m c0 \<and> c = claim_row now m c0 \<and> c \<in> set (email_codes d') \<and>
    (\<forall>x \<in> set (email_codes d'). ec_ID x = i \<longrightarrow> x = c) \<and> user_accounts d' = user_accounts d"
proof -
  define f where "f = (\<lambda>c. if claimable i m c then claim_row now m c else c)"
  obtain c0 where c0: "c0 \<in> set (email_codes d)" "claimable i m c0" "c = claim_row now m c0"
    and d': "d' = d\<lparr>email_codes := map f (email_codes d)\<rparr>"
    using assms(1) by (auto simp: ClaimEmailCodeAttempt_def f_def dest: find_SomeD split: option.splits)
  have "x = c0" if "x \<in> set (email_codes d)" "ec_ID x = i" for x
    using that c0 assms(2) by (auto simp: claimable_def distinct_map dest: inj_onD)
  moreover have "ec_ID (f x) = ec_ID x" for x by (simp add: f_def claim_row_def)
  moreover have "f c0 = c" using c0 by (simp add: f_def)
  ultimately have "\<forall>x \<in> set (email_codes d'). ec_ID x = i \<longrightarrow> x = c" "c \<in> set (email_codes d')"
    using c0(1) by (auto simp: d')
  then show ?thesis
    using c0 by (auto simp: d' intro!: exI [of _ c0])
qed

lemma session_SessionResp: "session jwt_sign h ua now = SessionResp t u \<longleftrightarrow> issueLocalJWT jwt_sign h ua now = Inr t \<and> u = ua"
  by (auto simp: session_def split: sum.splits)

lemma session_not [simp]: "session jwt_sign h ua now \<noteq> NoContent" "session jwt_sign h ua now \<noteq> ErrorResp n e"
  by (auto simp: session_def split: sum.splits)

definition success :: "response \<Rightarrow> bool" where
  "success r \<longleftrightarrow> r = NoContent \<or> (\<exists>t u. r = SessionResp t u)"

lemma success_simps [simp]:
  "success NoContent" "success (SessionResp t u)" "\<not> success BadBody" "\<not> success (ErrorResp n e)" "\<not> success (ApiError a)"
  by (simp_all add: success_def)

lemma code_accepted_success:
  assumes "code_accepted jwt_sign h flt now purpose ua d = (r, d')" "success r"
  shows "email_codes d' = email_codes d" "purpose = ''login'' \<Longrightarrow> (\<exists>t. r = SessionResp t ua)"
    "purpose \<noteq> ''login'' \<Longrightarrow> r = NoContent \<and> (\<forall>u \<in> set (user_accounts d'). ua_ID u = ua_ID ua \<longrightarrow> ua_EmailVerifiedAt u = Some now)"
  using assms
  by (auto simp: code_accepted_def session_def success_def UpdateUserAccount_def
      split: if_splits sum.splits)

lemma EmailCodeVerify_successE:
  assumes "EmailCodeVerify bcrypt_ok jwt_sign h flt now d (Some req) = (r, d')" "success r"
  obtains ua c claimed d1 d2 purpose where
    "purpose = (if ev_Purpose req = [] then ''login'' else ev_Purpose req)" "publicEmailCodePurpose purpose"
    "GetUserAccountByEmail d (canonical_email (ev_Email req)) = Inr ua"
    "GetActiveEmailCode d now (ua_ID ua) purpose = Inr c"
    "ClaimEmailCodeAttempt d now (ec_ID c) MaxEmailCodeAttempts = Inr (claimed, d1)"
    "bcrypt_ok (ec_CodeHash claimed) (ev_Code req)"
    "ec_ConsumedAt claimed = None \<and> snd (ConsumeEmailCode d1 now (ec_ID c)) = d2 \<or> ec_ConsumedAt claimed \<noteq> None \<and> d2 = d1"
    "code_accepted jwt_sign h flt now purpose ua d2 = (r, d')"
  using assms
  unfolding EmailCodeVerify_def Let_def
  by (auto split: if_splits sum.splits prod.splits db_error.splits)

lemma UpsertAuthLocal_effect:
  assumes "UpsertAuthLocal d now i hash = Inr d'"
  shows "\<forall>al. al \<in> set (auth_local d') \<and> al_UserAccountID al = i \<longrightarrow> al_PasswordHash al = hash"
    and "{al \<in> set (auth_local d'). al_UserAccountID al \<noteq> i} = {al \<in> set (auth_local d). al_UserAccountID al \<noteq> i}"
    and "password_resets d' = password_resets d" "user_accounts d' = user_accounts d"
    and "\<exists>al. al \<in> set (auth_local d') \<and> al_UserAccountID al = i"
proof -
  have "(\<forall>al. al \<in> set (auth_local d') \<and> al_UserAccountID al = i \<longrightarrow> al_PasswordHash al = hash) \<and>
    {al \<in> set (auth_local d'). al_UserAccountID al \<noteq> i} = {al \<in> set (auth_local d). al_UserAccountID al \<noteq> i} \<and>
    password_resets d' = password_resets d \<and> user_accounts d' = user_accounts d \<and>
    (\<exists>al. al \<in> set (auth_local d') \<and> al_UserAccountID al = i)"
  proof (cases "\<exists>a \<in> set (auth_local d). al_UserAccountID a = i")
    case True
    define g :: "AuthLocal \<Rightarrow> AuthLocal" where
      "g = (\<lambda>a. if al_UserAccountID a = i then a\<lparr>al_PasswordHash := hash, al_PasswordUpdatedAt := now\<rparr> else a)"
    have g: "al_UserAccountID (g a) = al_UserAccountID a" "al_UserAccountID a = i \<Longrightarrow> al_PasswordHash (g a) = hash"
      "al_UserAccountID a \<noteq> i \<Longrightarrow> g a = a" for a
      by (simp_all add: g_def)
    have "d' = d\<lparr>auth_local := map g (auth_local d)\<rparr>"
      using assms True by (auto simp: UpsertAuthLocal_def g_def split: if_splits)
    then show ?thesis using True g by (auto simp: image_iff) (metis g(3))+
  next
    case False
    define new where "new = \<lparr>al_UserAccountID = i, al_PasswordHash = hash, al_PasswordUpdatedAt = now, al_CreatedAt = now\<rparr>"
    have "al_UserAccountID new = i" "al_PasswordHash new = hash" by (simp_all add: new_def)
    moreover have "d' = d\<lparr>auth_local := auth_local d @ [new]\<rparr>"
      using assms False by (auto simp: UpsertAuthLocal_def new_def split: if_splits)
    ultimately show ?thesis using False by auto
  qed
  then show "\<forall>al. al \<in> set (auth_local d') \<and> al_UserAccountID al = i \<longrightarrow> al_PasswordHash al = hash"
    and "{al \<in> set (auth_local d'). al_UserAccountID al \<noteq> i} = {al \<in> set (auth_local d). al_UserAccountID al \<noteq> i}"
    and "password_resets d' = password_resets d" "user_accounts d' = user_accounts d"
    and "\<exists>al. al \<in> set (auth_local d') \<and> al_UserAccountID al = i"
    by blast+
qed

lemma ConsumePasswordReset_spends:
  assumes "p \<in> set (password_resets d)" "distinct (map prs_TokenHash (password_resets d))"
  shows "GetActivePasswordReset (ConsumePasswordReset d now (prs_ID p)) now' (prs_TokenHash p) = Inl NoRows"
proof -
  define f :: "PasswordReset \<Rightarrow> PasswordReset" where "f = (\<lambda>x. if prs_ID x = prs_ID p \<and> prs_ConsumedAt x = None then x\<lparr>prs_ConsumedAt := Some now\<rparr> else x)"
  have "prs_ConsumedAt (f x) \<noteq> None" if "x \<in> set (password_resets d)" "prs_TokenHash (f x) = prs_TokenHash p" for x
  proof -
    have "prs_TokenHash (f x) = prs_TokenHash x" by (simp add: f_def)
    then have "x = p" using that assms by (auto simp: distinct_map dest: inj_onD)
    then show ?thesis by (simp add: f_def)
  qed
  then show ?thesis
    by (auto simp: GetActivePasswordReset_def ConsumePasswordReset_def f_def [symmetric] find_None_iff)
qed

section \<open>Properties\<close>

text \<open>
  C12. The limits of an e-mail code under every interleaving of verification requests, mints and
  crashes: at most five comparisons are made against one code, and at most one request opens a
  session (or verifies an address) with it, the request that really consumed it.
\<close>

theorem email_code_limits:
  assumes "code_init s" "code_step\<^sup>*\<^sup>* s t"
  shows "count_list (guesses t) i \<le> 5 \<and> count_list (wins t) i \<le> 1"
proof (cases "i \<in> ec_ID ` set (email_codes (sys_db t))")
  case True
  with email_codes.reachable_inv [OF assms] obtain c where "code_row_ok t c" "ec_ID c = i"
    by (auto simp: code_inv_def)
  then show ?thesis
    by (auto simp: code_row_ok_def MaxEmailCodeAttempts_def split: if_splits)
next
  case False
  then have "i \<notin> set (guesses t)" "i \<notin> set (wins t)"
    using email_codes.reachable_inv [OF assms] unfolding code_inv_def by blast+
  then show ?thesis by simp
qed

text \<open>A database with one account and one code, for evaluation.\<close>

lemma email_code_demo:
  obtains d :: "unit db" and c u where "db_ok d" "email_codes d = [c]" "ec_ID c = 2" "ec_FailedAttempts c = 0"
    "ec_ConsumedAt c = None" "GetUserAccountByEmail d ''a@b'' = Inr u" "GetActiveEmailCode d 0 (ua_ID u) ''login'' = Inr c"
proof -
  obtain u d0 where c: "CreateUserAccount (empty_db ()) 0 ''u1'' 7 (Some ''a@b'') None = Inr (u, d0)"
    by (simp add: CreateUserAccount_def Let_def)
  then have d0: "db_ok d0" "account_exists d0 1" "email_codes d0 = []" "next_id d0 = 2"
    "user_accounts d0 = [u]" "ua_ID u = 1" "ua_Email u = Some ''a@b''"
    using db_ok_CreateUserAccount [OF c] by (auto simp: CreateUserAccount_def Let_def account_exists_def)
  obtain k d where e: "CreateEmailCode d0 0 1 ''h'' ''login'' 300 = Inr (k, d)"
    using d0(2) by (simp add: CreateEmailCode_def Let_def email_code_purposes_def)
  then have k: "email_codes d = [k]" "ec_ID k = 2" "ec_FailedAttempts k = 0" "ec_ConsumedAt k = None"
    "user_accounts d = [u]" "ec_UserAccountID k = 1" "ec_Purpose k = ''login''" "ec_ExpiresAt k = 300"
    using d0 by (auto simp: CreateEmailCode_def Let_def split: if_splits)
  then have "GetUserAccountByEmail d ''a@b'' = Inr u" "GetActiveEmailCode d 0 (ua_ID u) ''login'' = Inr k"
    using d0 by (simp_all add: GetUserAccountByEmail_def GetActiveEmailCode_def newest_def)
  with db_ok_CreateEmailCode [OF e d0(1)] k(1-4) show thesis by (rule that)
qed

theorem email_code_limits_witness:
  "\<exists>(s :: unit code_sys) t. code_init s \<and> code_step\<^sup>*\<^sup>* s t \<and> wins t = [2] \<and>
     count_list (guesses t) 2 \<le> 5 \<and> count_list (wins t) 2 \<le> 1"
proof -
  obtain d :: "unit db" and c u where d: "db_ok d" "email_codes d = [c]" "ec_ID c = 2" "ec_FailedAttempts c = 0"
    "ec_ConsumedAt c = None" "GetUserAccountByEmail d ''a@b'' = Inr u" "GetActiveEmailCode d 0 (ua_ID u) ''login'' = Inr c"
    by (rule email_code_demo)
  let ?s = "\<lparr>sys_db = d, sys_now = 0, holders = [], guesses = [], wins = []\<rparr>"
  have init: "code_init ?s"
    using d by (simp add: code_init_def db_ok_def codes_ok_def MaxEmailCodeAttempts_def)
  obtain k d1 where cl: "ClaimEmailCodeAttempt d 0 2 MaxEmailCodeAttempts = Inr (k, d1)"
    using d by (simp add: ClaimEmailCodeAttempt_def claimable_def MaxEmailCodeAttempts_def)
  then have k: "ec_ID k = 2" "ec_ConsumedAt k = None" "email_codes d1 = [k]"
    using d by (auto simp: ClaimEmailCodeAttempt_def claimable_def claim_row_def MaxEmailCodeAttempts_def)
  let ?t = "\<lparr>sys_db = d1, sys_now = 0, holders = [(k, True)], guesses = [2], wins = []\<rparr>"
  have st1: "code_step ?s ?t"
    using code_step.claim [of ?s 2 k d1 True] cl by simp
  obtain d2 where co: "ConsumeEmailCode d1 0 2 = (1, d2)"
    using k by (simp add: ConsumeEmailCode_def consumable_def)
  have st2: "code_step ?t \<lparr>sys_db = d2, sys_now = 0, holders = [], guesses = [2], wins = [2]\<rparr>"
    using code_step.consume [of k ?t 1 d2] co k by simp
  have run: "code_step\<^sup>*\<^sup>* ?s \<lparr>sys_db = d2, sys_now = 0, holders = [], guesses = [2], wins = [2]\<rparr>"
    using st1 st2 by (rule converse_rtranclp_into_rtranclp [where r = code_step, OF _ r_into_rtranclp [where r = code_step]])
  with init email_code_limits [OF init run, of 2] show ?thesis by force
qed

text \<open>
  What an accepted e-mail code proves and does: the purpose is \<open>login\<close> or \<open>verify_email\<close>; the
  account with that (canonical) address has an unconsumed, unexpired code for the purpose whose
  hash matches; that code is consumed afterwards; a login opens a session for that account,
  and a verification marks exactly that account verified.
\<close>

theorem EmailCodeVerify_success:
  assumes "EmailCodeVerify bcrypt_ok jwt_sign h flt now d (Some req) = (r, d')" "success r"
    and "distinct (map ec_ID (email_codes d))"
  shows "\<exists>ua c. GetUserAccountByEmail d (canonical_email (ev_Email req)) = Inr ua \<and>
     c \<in> set (email_codes d) \<and> ec_UserAccountID c = ua_ID ua \<and> ec_Purpose c \<in> {''login'', ''verify_email''} \<and>
     ec_ConsumedAt c = None \<and> now < ec_ExpiresAt c \<and> ec_FailedAttempts c < 5 \<and>
     bcrypt_ok (ec_CodeHash c) (ev_Code req) \<and>
     (\<forall>x. x \<in> set (email_codes d') \<and> ec_ID x = ec_ID c \<longrightarrow> ec_ConsumedAt x \<noteq> None) \<and>
     (if ec_Purpose c = ''login'' then \<exists>t. r = SessionResp t ua
      else \<forall>u. u \<in> set (user_accounts d') \<and> ua_ID u = ua_ID ua \<longrightarrow> ua_EmailVerifiedAt u = Some now)"
  using assms(1,2)
proof (rule EmailCodeVerify_successE)
  fix ua c claimed d1 d2 purpose
  assume p: "publicEmailCodePurpose purpose"
    and ua: "GetUserAccountByEmail d (canonical_email (ev_Email req)) = Inr ua"
    and act: "GetActiveEmailCode d now (ua_ID ua) purpose = Inr c"
    and cl: "ClaimEmailCodeAttempt d now (ec_ID c) MaxEmailCodeAttempts = Inr (claimed, d1)"
    and ok: "bcrypt_ok (ec_CodeHash claimed) (ev_Code req)"
    and spent: "ec_ConsumedAt claimed = None \<and> snd (ConsumeEmailCode d1 now (ec_ID c)) = d2 \<or>
      ec_ConsumedAt claimed \<noteq> None \<and> d2 = d1"
    and acc: "code_accepted jwt_sign h flt now purpose ua d2 = (r, d')"
  note c = GetActiveEmailCode_Inr [OF act]
  obtain c0 where c0: "c0 \<in> set (email_codes d)" "claimable (ec_ID c) MaxEmailCodeAttempts c0"
    "claimed = claim_row now MaxEmailCodeAttempts c0" "\<forall>x \<in> set (email_codes d1). ec_ID x = ec_ID c \<longrightarrow> x = claimed"
    using claim_Inr [OF cl assms(3)] by blast
  have "c0 = c"
    using c0(1,2) c assms(3) by (auto simp: claimable_def distinct_map dest: inj_onD)
  then have row: "ec_CodeHash claimed = ec_CodeHash c" "ec_FailedAttempts c < 5"
    using c0 by (simp_all add: claim_row_def claimable_def MaxEmailCodeAttempts_def)
  have "ec_ConsumedAt x \<noteq> None" if "x \<in> set (email_codes d2)" "ec_ID x = ec_ID c" for x
    using spent that c0(4) consumed_after_Consume [of d1 now "ec_ID c" "fst (ConsumeEmailCode d1 now (ec_ID c))" d2 x]
    by (auto simp: prod_eq_iff)
  moreover note A = code_accepted_success [OF acc assms(2)]
  ultimately show ?thesis
    using p ua c row ok A
    by (intro exI [of _ ua] exI [of _ c]) (auto simp: publicEmailCodePurpose_def)
qed

theorem EmailCodeVerify_success_witness:
  "\<exists>(d :: unit db) d' t u. EmailCodeVerify (\<lambda>_ _. True) demo_sign
       \<lparr>h_jwtSecret = ''s'', h_signer = None, h_issuer = ''i'', h_guiBase = []\<rparr> (\<lambda>_. False) 0 d
       (Some \<lparr>ev_Email = ''a@b'', ev_Code = ''123456'', ev_Purpose = []\<rparr>) = (SessionResp t u, d') \<and>
     (\<forall>x. x \<in> set (email_codes d') \<and> ec_ID x = 2 \<longrightarrow> ec_ConsumedAt x \<noteq> None)"
proof -
  obtain d :: "unit db" and c u where d: "db_ok d" "email_codes d = [c]" "ec_ID c = 2" "ec_FailedAttempts c = 0"
    "ec_ConsumedAt c = None" "GetUserAccountByEmail d ''a@b'' = Inr u" "GetActiveEmailCode d 0 (ua_ID u) ''login'' = Inr c"
    by (rule email_code_demo)
  let ?h = "\<lparr>h_jwtSecret = ''s'', h_signer = None, h_issuer = ''i'', h_guiBase = []\<rparr>"
  let ?req = "\<lparr>ev_Email = ''a@b'', ev_Code = ''123456'', ev_Purpose = []\<rparr>"
  have can: "canonical_email ''a@b'' = ''a@b''"
    by (simp add: canonical_email_def ToLower_def lower_char_def is_ascii_upper_def byte_def
        TrimSpace_def TrimLeft_def TrimRight_def is_space_def)
  obtain t where t: "session demo_sign ?h u 0 = SessionResp t u"
    by (simp add: session_def issueLocalJWT_def jwtSigner_def NewHS256Signer_def IssueLocalJWTWithSigner_def
        Signer_Sign_def demo_sign_def Let_def)
  obtain d' where v: "EmailCodeVerify (\<lambda>_ _. True) demo_sign ?h (\<lambda>_. False) 0 d (Some ?req) = (SessionResp t u, d')"
    using d t by (simp add: EmailCodeVerify_def Let_def can publicEmailCodePurpose_def at_def
        ClaimEmailCodeAttempt_def claimable_def claim_row_def MaxEmailCodeAttempts_def
        ConsumeEmailCode_def consumable_def code_accepted_def)
  have "distinct (map ec_ID (email_codes d))" using d by simp
  from EmailCodeVerify_success [OF v _ this] d v show ?thesis by auto
qed

text \<open>
  The cooldown: once a code was mailed for an address and purpose, no request in the following
  60 seconds mints or mails another one, whatever became of the first code and even if the
  advisory pre-check fails.
\<close>

theorem sendEmailCode_cooldown:
  assumes "sendEmailCode rnd hash flt now d email purpose = (Some m, d1)"
    and "user_accounts d2 = user_accounts d" "\<forall>c. c \<in> set (email_codes d1) \<longrightarrow>
      (\<exists>c'. c' \<in> set (email_codes d2) \<and> ec_ID c' = ec_ID c \<and> ec_UserAccountID c' = ec_UserAccountID c \<and>
        ec_Purpose c' = ec_Purpose c \<and> ec_CreatedAt c' = ec_CreatedAt c)"
    and "now' < now + 60 * second"
  shows "sendEmailCode rnd' hash' flt' now' d2 email purpose = (None, d2)"
proof -
  obtain ua hs c d0 where ua: "GetUserAccountByEmail d email = Inr ua"
    and cr: "CreateEmailCodeWithCooldown d now (ua_ID ua) hs purpose (now + 300 * second) 60 = Inr (c, d1)"
    using assms(1)
    by (auto simp: sendEmailCode_def EmailCodeRequestCooldown_def second_def
        split: if_splits sum.splits option.splits)
  have "GetUserAccountByEmail d2 email = Inr ua"
    using ua assms(2) by (simp add: GetUserAccountByEmail_def)
  moreover have "c \<in> set (email_codes d1)" "ec_UserAccountID c = ua_ID ua" "ec_Purpose c = purpose" "ec_CreatedAt c = now"
    using cr by (auto simp: CreateEmailCodeWithCooldown_def CreateEmailCode_def Let_def split: if_splits)
  then have "HasRecentEmailCode d2 now' (ua_ID ua) purpose 60"
    using assms(3,4) by (force simp: HasRecentEmailCode_def recent_code_def)
  ultimately show ?thesis
    by (auto simp: sendEmailCode_def EmailCodeRequestCooldown_def second_def CreateEmailCodeWithCooldown_def at_def
        split: option.splits)
qed

lemma account_demo:
  obtains d :: "unit db" and u where "db_ok d" "user_accounts d = [u]" "ua_ID u = 1" "ua_Email u = Some ''a@b''"
    "email_codes d = []" "auth_local d = []" "password_resets d = []" "auth_oidc_identities d = []"
    "ssh_public_keys d = []" "next_id d = 2"
    "ua_EmailVerifiedAt u = None" "ua_Uuid u = ''u1''" "ua_AccountHolder u = 7"
proof -
  obtain u d where c: "CreateUserAccount (empty_db ()) 0 ''u1'' 7 (Some ''a@b'') None = Inr (u, d)"
    by (simp add: CreateUserAccount_def Let_def)
  then show thesis
    using db_ok_CreateUserAccount [OF c] by (intro that) (auto simp: CreateUserAccount_def Let_def)
qed

theorem sendEmailCode_cooldown_witness:
  "\<exists>(d :: unit db) m d1. sendEmailCode (Some 42) Some (\<lambda>_. False) 0 d ''a@b'' ''login'' = (Some m, d1) \<and>
     mail_code m = six_digits 42 \<and>
     sendEmailCode (Some 7) Some (\<lambda>k. k = 1) (30 * second) d1 ''a@b'' ''login'' = (None, d1)"
proof -
  obtain d :: "unit db" and u where d: "user_accounts d = [u]" "ua_ID u = 1" "ua_Email u = Some ''a@b''" "email_codes d = []"
    by (rule account_demo)
  obtain m d1 where snd: "sendEmailCode (Some 42) Some (\<lambda>_. False) 0 d ''a@b'' ''login'' = (Some m, d1)"
    "mail_code m = six_digits 42" "user_accounts d1 = user_accounts d"
    using d by (simp add: sendEmailCode_def publicEmailCodePurpose_def at_def GetUserAccountByEmail_def
        HasRecentEmailCode_def CreateEmailCodeWithCooldown_def CreateEmailCode_def email_code_purposes_def
        account_exists_def Let_def)
  moreover have "30 * second < 0 + 60 * second" by (simp add: second_def)
  ultimately show ?thesis
    using sendEmailCode_cooldown [OF snd(1) snd(3), of "30 * second" "Some 7" Some "\<lambda>k. k = 1"] by blast
qed






text \<open>A core module that hands out entity 7, for evaluation.\<close>

definition demo_core :: "unit core_ops" where
  "demo_core = \<lparr>GetTypeBySlug = \<lambda>_ _. Inr 1, CreateEntity = \<lambda>c _. Inr (7, c), CreateLegalEntity = \<lambda>c _. Inr c,
     CreateNaturalPerson = \<lambda>c _ _ _. Inr c\<rparr>"

lemma create_person_demo [simp]: "create_person demo_core (\<lambda>_. False) k () g f = Inr (7, ())"
  by (simp add: create_person_def demo_core_def at_def)

definition demo_id_key :: id_key where
  "demo_id_key pw s t m p n = Some (take (unat n) (pw @ replicate (unat n) CHR ''0''))"

definition demo_registration :: registerRequest where
  "demo_registration = \<lparr>rg_Email = ''a@b'', rg_Password = ''correct horse'', rg_GivenName = ''A'', rg_FamilyName = ''B''\<rparr>"

lemma demo_canonical [simp]: "canonical_email ''a@b'' = ''a@b''"
  by (simp add: canonical_email_def TrimSpace_def TrimLeft_def TrimRight_def is_space_def ToLower_def lower_char_def
      is_ascii_upper_def byte_def)

lemma demo_names [simp]: "TrimSpace ''A'' = ''A''" "TrimSpace ''B'' = ''B''"
  by (simp_all add: TrimSpace_def TrimLeft_def TrimRight_def is_space_def byte_def)

lemma Register_demo:
  obtains ua d' where
    "Register demo_id_key (Some ''salt'') demo_core ''u1'' (\<lambda>_. False) 0 (empty_db ()) (Some demo_registration) =
       (CreatedResp ua, d', Some 7)"
proof -
  obtain hash where hash: "HashPassword demo_id_key (Some ''salt'') ''correct horse'' = Inr hash"
    by (simp add: HashPassword_def demo_id_key_def)
  show thesis
    by (rule that)
      (simp add: Register_def demo_registration_def hash at_def CreateUserAccount_def UpsertAuthLocal_def
        account_exists_def Let_def)
qed


end
