(* ===== verification/Resolver.thy ===== *)
theory Resolver
  imports LocalAuth Claims
begin

text \<open>
  From a bearer token to an account: \<open>auth/resolver.go\<close> (the five-branch decision on linking or
  creating an account for an OIDC principal, and the fast path for the module's own tokens),
  \<open>auth/middleware.go\<close>, \<open>auth/anonymous_actor.go\<close>, \<open>auth/require_verified.go\<close> and
  \<open>auth/require_confirmed.go\<close>.

  A transaction is a value of the database that replaces the old one only at its commit; a fault
  may strike at every call (\<open>flt\<close>, with the call sites numbered), and then the old database stays.
  Parameters: \<open>uuid_Parse\<close> (the canonical form of a UUID, \<open>None\<close> on a parse error), the UUIDs the
  server generates, and the core module's creation of a person. A nil observer group or hook is
  the corresponding field \<open>False\<close>. The function fields of \<open>UserResolver\<close> that only tests set are
  nil in production and are not modelled.
\<close>

section \<open>Types\<close>

record AssumedUserInfo =
  as_UserAccountID :: int
  as_UserUUID :: string
  as_EntityID :: int
  as_Email :: string

record UserContext =
  uc_UserAccountID :: int
  uc_UserUUID :: string
  uc_EntityID :: int
  uc_Email :: string
  uc_EmailVerifiedAt :: "instant option"
  uc_AssumedUser :: "AssumedUserInfo option"
  uc_AppID :: "int option"
  uc_AppRoles :: "string list"

record UserResolver =
  rs_localIssuer :: string
  rs_obs :: bool
  rs_firstUserHook :: bool

datatype tx_error = TxBegin | TxStatement db_error | TxObserver | TxCommit

datatype resolve_error =
    ErrUserGone
  | ErrUnverifiedTakeover
  | LocalSubNotUUID
  | LookupFault db_error
  | LinkFault tx_error
  | VerifyLinkFault tx_error
  | CreateFault tx_error

text \<open>What a transaction reports to the observers after its commit: operation and resource.\<close>

type_synonym events = "(string \<times> string) list"

text \<open>The text of a nullable column, \<open>pgtype.Text\<close>'s \<open>String\<close>.\<close>

definition text_String :: "string option \<Rightarrow> string" where
  "text_String t = (case t of None \<Rightarrow> [] | Some s \<Rightarrow> s)"

definition text_nonempty :: "string \<Rightarrow> string option" where
  "text_nonempty s = (if s = [] then None else Some s)"

definition safeObserve :: "UserResolver \<Rightarrow> faults \<Rightarrow> nat \<Rightarrow> bool" where
  "safeObserve R flt k \<longleftrightarrow> \<not> (rs_obs R \<and> flt k)"

definition safeObserveAfterCommit :: "UserResolver \<Rightarrow> events \<Rightarrow> events" where
  "safeObserveAfterCommit R ev = (if rs_obs R then ev else [])"

section \<open>The resolver\<close>

definition buildUserContext ::
  "(string \<Rightarrow> string option) \<Rightarrow> faults \<Rightarrow> 'c db \<Rightarrow> UserAccount \<Rightarrow> Principal \<Rightarrow> UserContext" where
  "buildUserContext uuid_Parse flt d ua p =
     \<lparr>uc_UserAccountID = ua_ID ua, uc_UserUUID = ua_Uuid ua, uc_EntityID = ua_AccountHolder ua,
      uc_Email = text_String (ua_Email ua), uc_EmailVerifiedAt = ua_EmailVerifiedAt ua,
      uc_AssumedUser =
        (if SudoUserUUID p = [] then None
         else
           (case uuid_Parse (SudoUserUUID p) of
              None \<Rightarrow> None
            | Some u \<Rightarrow>
                (case at flt 50 (GetUserAccountByUUID d u) of
                   Inl _ \<Rightarrow> None
                 | Inr sudo \<Rightarrow>
                     Some \<lparr>as_UserAccountID = ua_ID sudo, as_UserUUID = ua_Uuid sudo,
                           as_EntityID = ua_AccountHolder sudo, as_Email = text_String (ua_Email sudo)\<rparr>))),
      uc_AppID = ua_DefaultAppID ua, uc_AppRoles = []\<rparr>"

text \<open>Branch 2: the transaction that adds an identity row.\<close>

definition linkIdentity ::
  "UserResolver \<Rightarrow> faults \<Rightarrow> instant \<Rightarrow> string \<Rightarrow> 'c db \<Rightarrow> UserAccount \<Rightarrow> Principal
     \<Rightarrow> (tx_error, 'c db \<times> events) result" where
  "linkIdentity R flt now iuuid d ua p =
     (if flt 10 then Inl TxBegin
      else
        (case at flt 11 (InsertOIDCIdentity d now iuuid (ua_ID ua) (Issuer p) (Subject p)
                (text_nonempty (Email p)) (if EmailVerified p then Some now else None)) of
           Inl e \<Rightarrow> Inl (TxStatement e)
         | Inr (_, d') \<Rightarrow>
             if \<not> safeObserve R flt 12 then Inl TxObserver
             else if flt 13 then Inl TxCommit
             else Inr (d', safeObserveAfterCommit R [(''create'', ''auth_oidc_identity'')])))"

text \<open>Branch 3: verified mark and identity row in one transaction.\<close>

definition verifyAndLink ::
  "UserResolver \<Rightarrow> faults \<Rightarrow> instant \<Rightarrow> string \<Rightarrow> 'c db \<Rightarrow> UserAccount \<Rightarrow> Principal
     \<Rightarrow> (tx_error, 'c db \<times> events) result" where
  "verifyAndLink R flt now iuuid d ua p =
     (if flt 20 then Inl TxBegin
      else
        (case at flt 21 (UpdateUserAccount d now (ua_ID ua) (ua_Email ua) (Some now)) of
           Inl e \<Rightarrow> Inl (TxStatement e)
         | Inr d1 \<Rightarrow>
             (case at flt 22 (InsertOIDCIdentity d1 now iuuid (ua_ID ua) (Issuer p) (Subject p)
                     (text_nonempty (Email p)) (Some now)) of
                Inl e \<Rightarrow> Inl (TxStatement e)
              | Inr (_, d2) \<Rightarrow>
                  if \<not> safeObserve R flt 23 \<or> \<not> safeObserve R flt 24 then Inl TxObserver
                  else if flt 25 then Inl TxCommit
                  else Inr (d2, safeObserveAfterCommit R
                              [(''update'', ''user_account''), (''create'', ''auth_oidc_identity'')]))))"

definition autoCreateEmailFields :: "string \<Rightarrow> string \<times> string" where
  "autoCreateEmailFields rawEmail =
     (let canonicalEmail = canonical_email rawEmail
      in (canonicalEmail,
          case Index canonicalEmail ''@'' of
            Some i \<Rightarrow> if i > 0 then take i canonicalEmail else canonicalEmail
          | None \<Rightarrow> canonicalEmail))"

text \<open>
  Branch 5. Besides the account, the database and the events, the result has the entity for
  which the first-user hook is called (its errors are logged and ignored).
\<close>

definition autoCreate ::
  "'c core_ops \<Rightarrow> UserResolver \<Rightarrow> faults \<Rightarrow> instant \<Rightarrow> string \<Rightarrow> string \<Rightarrow> 'c db \<Rightarrow> Principal
     \<Rightarrow> (tx_error, UserAccount \<times> 'c db \<times> events \<times> int option) result" where
  "autoCreate C R flt now auuid iuuid d p =
     (case autoCreateEmailFields (Email p) of
        (canonicalEmail, givenName) \<Rightarrow>
          if flt 30 then Inl TxBegin
          else if flt 31 then Inl (TxStatement DbFault)
          else
            (case create_person C flt 32 (core d) (Some givenName) None of
               Inl e \<Rightarrow> Inl (TxStatement e)
             | Inr (entity, c') \<Rightarrow>
                 (case at flt 36 (CreateUserAccount (d\<lparr>core := c'\<rparr>) now auuid entity (text_nonempty canonicalEmail)
                         (if EmailVerified p then Some now else None)) of
                    Inl e \<Rightarrow> Inl (TxStatement e)
                  | Inr (ua, d1) \<Rightarrow>
                      let hasIdentity = (Issuer p \<noteq> [] \<and> Subject p \<noteq> []);
                          inserted = (if hasIdentity then
                              (case at flt 37 (InsertOIDCIdentity d1 now iuuid (ua_ID ua) (Issuer p) (Subject p)
                                      (text_nonempty (Email p)) (if EmailVerified p then Some now else None)) of
                                 Inl e \<Rightarrow> Inl e
                               | Inr (_, d2) \<Rightarrow> Inr d2)
                            else Inr d1)
                      in (case inserted of
                            Inl e \<Rightarrow> Inl (TxStatement e)
                          | Inr d2 \<Rightarrow>
                              if \<not> safeObserve R flt 38 \<or> hasIdentity \<and> \<not> safeObserve R flt 39 then Inl TxObserver
                              else if flt 40 then Inl TxCommit
                              else Inr (ua, d2,
                                safeObserveAfterCommit R ((''create'', ''user_account'') #
                                  (if hasIdentity then [(''create'', ''auth_oidc_identity'')] else [])),
                                if user_accounts d = [] \<and> rs_firstUserHook R then Some entity else None)))))"

text \<open>What \<open>Resolve\<close> gives back besides its result.\<close>

record 'c resolved =
  res_out :: "(resolve_error, UserContext) result"
  res_db :: "'c db"
  res_events :: events
  res_hook :: "int option"

definition resolved :: "(resolve_error, UserContext) result \<Rightarrow> 'c db \<Rightarrow> 'c resolved" where
  "resolved r d = \<lparr>res_out = r, res_db = d, res_events = [], res_hook = None\<rparr>"

text \<open>The local-issuer fast path.\<close>

definition resolveLocal :: "(string \<Rightarrow> string option) \<Rightarrow> faults \<Rightarrow> 'c db \<Rightarrow> Principal \<Rightarrow> (resolve_error, UserContext) result" where
  "resolveLocal uuid_Parse flt d p =
     (case uuid_Parse (Subject p) of
        None \<Rightarrow> Inl LocalSubNotUUID
      | Some u \<Rightarrow>
          (case at flt 0 (GetUserAccountByUUID d u) of
             Inl NoRows \<Rightarrow> Inl ErrUserGone
           | Inl e \<Rightarrow> Inl (LookupFault e)
           | Inr ua \<Rightarrow> Inr (buildUserContext uuid_Parse flt d ua p)))"

text \<open>Branch 5, and branches 2 to 4 for the account that has the e-mail address.\<close>

definition resolveCreate ::
  "(string \<Rightarrow> string option) \<Rightarrow> 'c core_ops \<Rightarrow> UserResolver \<Rightarrow> faults \<Rightarrow> instant \<Rightarrow> string \<Rightarrow> string
     \<Rightarrow> 'c db \<Rightarrow> Principal \<Rightarrow> 'c resolved" where
  "resolveCreate uuid_Parse C R flt now auuid iuuid d p =
     (case autoCreate C R flt now auuid iuuid d p of
        Inl e \<Rightarrow> resolved (Inl (CreateFault e)) d
      | Inr (ua, d', ev, hook) \<Rightarrow>
          \<lparr>res_out = Inr (buildUserContext uuid_Parse flt d' ua p), res_db = d', res_events = ev, res_hook = hook\<rparr>)"

definition resolveFound ::
  "(string \<Rightarrow> string option) \<Rightarrow> UserResolver \<Rightarrow> faults \<Rightarrow> instant \<Rightarrow> string \<Rightarrow> 'c db \<Rightarrow> Principal \<Rightarrow> UserAccount
     \<Rightarrow> 'c resolved" where
  "resolveFound uuid_Parse R flt now iuuid d p ua =
     (if ua_EmailVerifiedAt ua \<noteq> None then
        (case linkIdentity R flt now iuuid d ua p of
           Inl e \<Rightarrow> resolved (Inl (LinkFault e)) d
         | Inr (d', ev) \<Rightarrow>
             (resolved (Inr (buildUserContext uuid_Parse flt d' ua p)) d')\<lparr>res_events := ev\<rparr>)
      else if EmailVerified p then
        (case verifyAndLink R flt now iuuid d ua p of
           Inl e \<Rightarrow> resolved (Inl (VerifyLinkFault e)) d
         | Inr (d', ev) \<Rightarrow>
             (resolved (case at flt 26 (GetUserAccountByID d' (ua_ID ua)) of
                  Inl e \<Rightarrow> Inl (LookupFault e)
                | Inr ua' \<Rightarrow> Inr (buildUserContext uuid_Parse flt d' ua' p)) d')\<lparr>res_events := ev\<rparr>)
      else resolved (Inl ErrUnverifiedTakeover) d)"

definition resolveByEmail ::
  "(string \<Rightarrow> string option) \<Rightarrow> 'c core_ops \<Rightarrow> UserResolver \<Rightarrow> faults \<Rightarrow> instant \<Rightarrow> string \<Rightarrow> string
     \<Rightarrow> 'c db \<Rightarrow> Principal \<Rightarrow> 'c resolved" where
  "resolveByEmail uuid_Parse C R flt now auuid iuuid d p =
     (if canonical_email (Email p) = [] then resolveCreate uuid_Parse C R flt now auuid iuuid d p
      else
        (case at flt 4 (GetUserAccountByEmail d (canonical_email (Email p))) of
           Inl NoRows \<Rightarrow> resolveCreate uuid_Parse C R flt now auuid iuuid d p
         | Inl e \<Rightarrow> resolved (Inl (LookupFault e)) d
         | Inr ua \<Rightarrow> resolveFound uuid_Parse R flt now iuuid d p ua))"

definition Resolve ::
  "(string \<Rightarrow> string option) \<Rightarrow> 'c core_ops \<Rightarrow> UserResolver \<Rightarrow> faults \<Rightarrow> instant \<Rightarrow> string \<Rightarrow> string
     \<Rightarrow> 'c db \<Rightarrow> Principal \<Rightarrow> 'c resolved" where
  "Resolve uuid_Parse C R flt now auuid iuuid d p =
     (if rs_localIssuer R \<noteq> [] \<and> Issuer p = rs_localIssuer R then resolved (resolveLocal uuid_Parse flt d p) d
      else if Issuer p \<noteq> [] \<and> Subject p \<noteq> [] then
        (case at flt 1 (GetOIDCIdentityByIssuerSubject d (Issuer p) (Subject p)) of
           Inr identity \<Rightarrow>
             let d' = (if flt 2 then d else TouchOIDCIdentityLastSeen d now (oi_ID identity))
             in resolved
                  (case at flt 3 (GetUserAccountByID d' (oi_UserAccountID identity)) of
                     Inl NoRows \<Rightarrow> Inl ErrUserGone
                   | Inl e \<Rightarrow> Inl (LookupFault e)
                   | Inr ua \<Rightarrow> Inr (buildUserContext uuid_Parse flt d' ua p)) d'
         | Inl NoRows \<Rightarrow> resolveByEmail uuid_Parse C R flt now auuid iuuid d p
         | Inl e \<Rightarrow> resolved (Inl (LookupFault e)) d)
      else resolveByEmail uuid_Parse C R flt now auuid iuuid d p)"

section \<open>Middleware\<close>

datatype auth_error =
    ErrNoAuthHeader
  | ErrInvalidToken
  | ClaimMapFault claim_error
  | ResolveFailed resolve_error

text \<open>The value of the \<open>Authorization\<close> header, empty when it is absent.\<close>

definition AuthenticateRequest ::
  "crypto \<Rightarrow> Verifier \<Rightarrow> (claims \<Rightarrow> (claim_error, Principal) result) \<Rightarrow> instant \<Rightarrow> 'c db \<Rightarrow> (Principal \<Rightarrow> 'c resolved)
     \<Rightarrow> string \<Rightarrow> (auth_error, UserContext) result \<times> 'c db" where
  "AuthenticateRequest C v mapper now d resolve authHeader =
     (if authHeader = [] then (Inl ErrNoAuthHeader, d)
      else if \<not> HasPrefix authHeader ''Bearer '' then (Inl ErrNoAuthHeader, d)
      else
        (case Verifier_Verify C v now (TrimPrefix authHeader ''Bearer '') of
           Inl _ \<Rightarrow> (Inl ErrInvalidToken, d)
         | Inr cl \<Rightarrow>
             (case mapper cl of
                Inl e \<Rightarrow> (Inl (ClaimMapFault e), d)
              | Inr p \<Rightarrow>
                  (case res_out (resolve p) of
                     Inl e \<Rightarrow> (Inl (ResolveFailed e), res_db (resolve p))
                   | Inr uc \<Rightarrow> (Inr uc, res_db (resolve p))))))"

text \<open>Status, code and message of the response to an authentication error.\<close>

definition writeAuthError :: "string \<Rightarrow> auth_error \<Rightarrow> nat \<times> string \<times> string" where
  "writeAuthError authHeader err =
     (case err of
        ErrNoAuthHeader \<Rightarrow>
          if authHeader = [] then (401, ''unauthorized'', ''missing Authorization header'')
          else (401, ''unauthorized'', ''invalid Authorization header format'')
      | ErrInvalidToken \<Rightarrow> (401, ''unauthorized'', ''invalid or expired token'')
      | ResolveFailed ErrUserGone \<Rightarrow> (401, ''unauthorized'', ''user no longer exists'')
      | ClaimMapFault _ \<Rightarrow> (500, ''internal_error'', ''failed to process authentication claims'')
      | ResolveFailed _ \<Rightarrow> (500, ''internal_error'', ''failed to resolve user''))"

text \<open>The part of the request context the program sets: the values of \<open>opctx\<close> and its own keys.\<close>

record req_ctx =
  ctx_user :: "UserContext option"
  ctx_actor :: "int option"
  ctx_sudo :: "int option"
  ctx_anonymous :: bool

definition empty_ctx :: req_ctx where
  "empty_ctx = \<lparr>ctx_user = None, ctx_actor = None, ctx_sudo = None, ctx_anonymous = False\<rparr>"

definition contextWithAuthenticatedActor :: "req_ctx \<Rightarrow> UserContext \<Rightarrow> req_ctx" where
  "contextWithAuthenticatedActor ctx uc =
     (let ctx = ctx\<lparr>ctx_user := Some uc, ctx_actor := Some (uc_EntityID uc)\<rparr>
      in case uc_AssumedUser uc of None \<Rightarrow> ctx | Some a \<Rightarrow> ctx\<lparr>ctx_sudo := Some (as_EntityID a)\<rparr>)"

text \<open>A middleware either answers or passes a context to the next handler.\<close>

datatype gate = Answer nat string string | Next req_ctx

definition RequireAuth :: "string \<Rightarrow> (auth_error, UserContext) result \<Rightarrow> req_ctx \<Rightarrow> gate" where
  "RequireAuth authHeader authd ctx =
     (case authd of
        Inl err \<Rightarrow> (case writeAuthError authHeader err of (st, code, msg) \<Rightarrow> Answer st code msg)
      | Inr uc \<Rightarrow> Next (contextWithAuthenticatedActor ctx uc))"

definition WithAnonymousActor :: "req_ctx \<Rightarrow> req_ctx" where
  "WithAnonymousActor ctx = ctx\<lparr>ctx_anonymous := True\<rparr>"

definition ResolveActorOrAnonymous :: "int \<Rightarrow> string \<Rightarrow> (auth_error, UserContext) result \<Rightarrow> req_ctx \<Rightarrow> gate" where
  "ResolveActorOrAnonymous anonActorEntityID authHeader authd ctx =
     (case authd of
        Inl err \<Rightarrow>
          if err = ErrNoAuthHeader \<and> authHeader = []
          then Next (WithAnonymousActor (ctx\<lparr>ctx_actor := Some anonActorEntityID\<rparr>))
          else (case writeAuthError authHeader err of (st, code, msg) \<Rightarrow> Answer st code msg)
      | Inr uc \<Rightarrow> Next (contextWithAuthenticatedActor ctx uc))"

definition RequireVerifiedEmail :: "req_ctx \<Rightarrow> gate" where
  "RequireVerifiedEmail ctx =
     (case ctx_user ctx of
        None \<Rightarrow> Answer 500 ''internal_error'' []
      | Some uc \<Rightarrow>
          if uc_EmailVerifiedAt uc = None
          then Answer 403 ''users.email_unverified'' ''Verify your email address before continuing.''
          else Next ctx)"

definition RequireOIDCConfirmed :: "BootState \<Rightarrow> req_ctx \<Rightarrow> gate" where
  "RequireOIDCConfirmed state ctx =
     (if Confirmed state then Next ctx
      else Answer 503 ''users.oidc_not_confirmed'' ''Single sign-on is not finished configuring.'')"

text \<open>A chain of middlewares, outermost first.\<close>

fun chain :: "(req_ctx \<Rightarrow> gate) list \<Rightarrow> req_ctx \<Rightarrow> gate" where
  "chain [] ctx = Next ctx"
| "chain (mw # mws) ctx = (case mw ctx of Answer st code msg \<Rightarrow> Answer st code msg | Next ctx' \<Rightarrow> chain mws ctx')"

section \<open>The anonymous system actor\<close>

datatype anon_error = AnonNotFound | AnonLookup db_error | AnonGrantsCheck db_error | AnonHoldsGrants int

definition newAnonymousActor :: "(string \<Rightarrow> int query) \<Rightarrow> (int \<Rightarrow> bool query) \<Rightarrow> (anon_error, int) result" where
  "newAnonymousActor lookup hasGrants =
     (case lookup ''anonymous'' of
        Inl NoRows \<Rightarrow> Inl AnonNotFound
      | Inl e \<Rightarrow> Inl (AnonLookup e)
      | Inr entityID \<Rightarrow>
          (case hasGrants entityID of
             Inl e \<Rightarrow> Inl (AnonGrantsCheck e)
           | Inr ex \<Rightarrow> if ex then Inl (AnonHoldsGrants entityID) else Inr entityID))"

section \<open>Lemmas on the transactions\<close>

lemma buildUserContext_sel [simp]:
  "uc_UserAccountID (buildUserContext P flt d ua p) = ua_ID ua"
  "uc_UserUUID (buildUserContext P flt d ua p) = ua_Uuid ua"
  "uc_EntityID (buildUserContext P flt d ua p) = ua_AccountHolder ua"
  "uc_EmailVerifiedAt (buildUserContext P flt d ua p) = ua_EmailVerifiedAt ua"
  by (simp_all add: buildUserContext_def)

lemma resolved_sel [simp]:
  "res_out (resolved r d) = r" "res_db (resolved r d) = d" "res_events (resolved r d) = []" "res_hook (resolved r d) = None"
  by (simp_all add: resolved_def)

lemma identity_of_cong: "auth_oidc_identities d' = auth_oidc_identities d \<Longrightarrow> identity_of d' = identity_of d"
  by (rule ext) (simp add: identity_of_def GetOIDCIdentityByIssuerSubject_def)

lemma InsertOIDCIdentity_frame:
  "InsertOIDCIdentity d now uuid u iss sub e v = Inr (x, d') \<Longrightarrow>
     user_accounts d' = user_accounts d \<and> auth_local d' = auth_local d"
  by (auto simp: InsertOIDCIdentity_def Let_def split: if_splits)

lemma UpdateUserAccount_frame:
  "UpdateUserAccount d now i e v = Inr d' \<Longrightarrow> auth_oidc_identities d' = auth_oidc_identities d \<and> auth_local d' = auth_local d"
  by (auto simp: UpdateUserAccount_def split: if_splits)

lemma UpdateUserAccount_rows:
  assumes "UpdateUserAccount d now i e v = Inr d'"
  shows "user_accounts d' =
    map (\<lambda>u. if ua_ID u = i then u\<lparr>ua_Email := e, ua_EmailVerifiedAt := v, ua_UpdatedAt := now\<rparr> else u) (user_accounts d)"
  using assms by (auto simp: UpdateUserAccount_def split: if_splits)

lemma CreateUserAccount_Inr:
  assumes "CreateUserAccount d now uuid h e v = Inr (u, d')"
  shows "user_accounts d' = user_accounts d @ [u]" "auth_oidc_identities d' = auth_oidc_identities d"
    "ua_Email u = e" "ua_EmailVerifiedAt u = v" "ua_AccountHolder u = h" "ua_Uuid u = uuid"
    "auth_local d' = auth_local d" "ua_ID u = next_id d"
  using assms by (auto simp: CreateUserAccount_def Let_def split: if_splits)

lemma linkIdentity_Inr:
  assumes "linkIdentity R flt now iuuid d ua p = Inr (d', ev)"
  shows "user_accounts d' = user_accounts d"
    and "identity_of d (Issuer p, Subject p) = None"
    and "identity_of d' = (identity_of d)((Issuer p, Subject p) \<mapsto> ua_ID ua)"
    and "db_ok d \<Longrightarrow> db_ok d'"
proof -
  obtain x v where i: "InsertOIDCIdentity d now iuuid (ua_ID ua) (Issuer p) (Subject p) (text_nonempty (Email p)) v = Inr (x, d')"
    using assms by (auto simp: linkIdentity_def split: if_splits sum.splits)
  show "user_accounts d' = user_accounts d" using InsertOIDCIdentity_frame [OF i] by simp
  show "identity_of d (Issuer p, Subject p) = None" by (rule identity_of_InsertOIDCIdentity(1) [OF i])
  show "identity_of d' = (identity_of d)((Issuer p, Subject p) \<mapsto> ua_ID ua)"
    by (rule ext) (simp add: identity_of_InsertOIDCIdentity(2) [OF i])
  show "db_ok d \<Longrightarrow> db_ok d'" by (rule db_ok_InsertOIDCIdentity [OF i])
qed

text \<open>The row that branch 3 makes of a row.\<close>

definition mark_verified :: "instant \<Rightarrow> UserAccount \<Rightarrow> UserAccount \<Rightarrow> UserAccount" where
  "mark_verified now ua u = (if ua_ID u = ua_ID ua
      then u\<lparr>ua_Email := ua_Email ua, ua_EmailVerifiedAt := Some now, ua_UpdatedAt := now\<rparr> else u)"

lemma mark_verified_simps [simp]: "ua_ID (mark_verified now ua u) = ua_ID u"
  "ua_ID u = ua_ID ua \<Longrightarrow> ua_EmailVerifiedAt (mark_verified now ua u) = Some now"
  "ua_ID u \<noteq> ua_ID ua \<Longrightarrow> mark_verified now ua u = u"
  by (simp_all add: mark_verified_def)

lemma mark_verified_ids [simp]: "ua_ID ` mark_verified now ua ` U = ua_ID ` U"
  by (simp add: image_image)

lemma verifyAndLink_Inr:
  assumes "verifyAndLink R flt now iuuid d ua p = Inr (d', ev)"
  shows "user_accounts d' = map (mark_verified now ua) (user_accounts d)"
    and "identity_of d (Issuer p, Subject p) = None"
    and "identity_of d' = (identity_of d)((Issuer p, Subject p) \<mapsto> ua_ID ua)"
    and "db_ok d \<Longrightarrow> db_ok d'"
proof -
  obtain d1 x v where u: "UpdateUserAccount d now (ua_ID ua) (ua_Email ua) (Some now) = Inr d1"
    and i: "InsertOIDCIdentity d1 now iuuid (ua_ID ua) (Issuer p) (Subject p) (text_nonempty (Email p)) v = Inr (x, d')"
    using assms by (auto simp: verifyAndLink_def split: if_splits sum.splits)
  have same: "identity_of d1 = identity_of d" using UpdateUserAccount_frame [OF u] by (intro identity_of_cong) simp
  show "user_accounts d' = map (mark_verified now ua) (user_accounts d)"
    using InsertOIDCIdentity_frame [OF i] UpdateUserAccount_rows [OF u] by (simp add: mark_verified_def)
  show "identity_of d (Issuer p, Subject p) = None"
    using identity_of_InsertOIDCIdentity(1) [OF i] same by simp
  show "identity_of d' = (identity_of d)((Issuer p, Subject p) \<mapsto> ua_ID ua)"
    by (rule ext) (simp add: identity_of_InsertOIDCIdentity(2) [OF i] same)
  show "db_ok d \<Longrightarrow> db_ok d'"
    by (rule db_ok_InsertOIDCIdentity [OF i db_ok_UpdateUserAccount [OF u]])
qed

lemma autoCreate_Inr:
  assumes "autoCreate C R flt now auuid iuuid d p = Inr (ua, d', ev, hook)"
  shows "user_accounts d' = user_accounts d @ [ua]"
    and "ua_Email ua = text_nonempty (canonical_email (Email p))"
    and "ua_EmailVerifiedAt ua = (if EmailVerified p then Some now else None)"
    and "Issuer p \<noteq> [] \<Longrightarrow> Subject p \<noteq> [] \<Longrightarrow>
      identity_of d (Issuer p, Subject p) = None \<and> identity_of d' = (identity_of d)((Issuer p, Subject p) \<mapsto> ua_ID ua)"
    and "db_ok d \<Longrightarrow> db_ok d'"
    and "hook = (if user_accounts d = [] \<and> rs_firstUserHook R then Some (ua_AccountHolder ua) else None)"
proof -
  obtain entity c' d1 where c: "CreateUserAccount (d\<lparr>core := c'\<rparr>) now auuid entity (text_nonempty (canonical_email (Email p)))
        (if EmailVerified p then Some now else None) = Inr (ua, d1)"
    and hook: "hook = (if user_accounts d = [] \<and> rs_firstUserHook R then Some entity else None)"
    and rest: "(Issuer p \<noteq> [] \<and> Subject p \<noteq> [] \<and> (\<exists>x. InsertOIDCIdentity d1 now iuuid (ua_ID ua) (Issuer p) (Subject p)
        (text_nonempty (Email p)) (if EmailVerified p then Some now else None) = Inr (x, d'))) \<or>
      (\<not> (Issuer p \<noteq> [] \<and> Subject p \<noteq> []) \<and> d' = d1)"
    using assms unfolding autoCreate_def autoCreateEmailFields_def Let_def
    by (auto split: if_splits sum.splits prod.splits option.splits)
  note C = CreateUserAccount_Inr [OF c]
  have ok1: "db_ok d \<Longrightarrow> db_ok d1" using db_ok_CreateUserAccount [OF c] by (simp add: db_ok_other)
  have same: "identity_of d1 = identity_of d" using C(2) by (intro identity_of_cong) simp
  show "user_accounts d' = user_accounts d @ [ua]"
    using rest C(1) InsertOIDCIdentity_frame by fastforce
  show "ua_Email ua = text_nonempty (canonical_email (Email p))"
    "ua_EmailVerifiedAt ua = (if EmailVerified p then Some now else None)"
    "hook = (if user_accounts d = [] \<and> rs_firstUserHook R then Some (ua_AccountHolder ua) else None)"
    using C hook by auto
  show "db_ok d \<Longrightarrow> db_ok d'" using rest ok1 db_ok_InsertOIDCIdentity by blast
  assume "Issuer p \<noteq> []" "Subject p \<noteq> []"
  with rest obtain x where i: "InsertOIDCIdentity d1 now iuuid (ua_ID ua) (Issuer p) (Subject p)
        (text_nonempty (Email p)) (if EmailVerified p then Some now else None) = Inr (x, d')" by auto
  show "identity_of d (Issuer p, Subject p) = None \<and> identity_of d' = (identity_of d)((Issuer p, Subject p) \<mapsto> ua_ID ua)"
    using identity_of_InsertOIDCIdentity [OF i] same by (auto intro!: ext)
qed

lemma Touch_frame: "identity_of (TouchOIDCIdentityLastSeen d now i) = identity_of d"
  "user_accounts (TouchOIDCIdentityLastSeen d now i) = user_accounts d"
proof -
  define f :: "AuthOidcIdentity \<Rightarrow> AuthOidcIdentity" where "f = (\<lambda>x. if oi_ID x = i then x\<lparr>oi_LastSeenAt := now\<rparr> else x)"
  have "find (\<lambda>i. oi_Issuer i = iss \<and> oi_Subject i = sub) (map f xs) =
      map_option f (find (\<lambda>i. oi_Issuer i = iss \<and> oi_Subject i = sub) xs)" for iss sub xs
    by (induction xs) (auto simp: f_def)
  moreover have "oi_UserAccountID (f x) = oi_UserAccountID x" for x by (simp add: f_def)
  moreover have "auth_oidc_identities (TouchOIDCIdentityLastSeen d now i) = map f (auth_oidc_identities d)"
    by (simp add: TouchOIDCIdentityLastSeen_def f_def)
  ultimately show "identity_of (TouchOIDCIdentityLastSeen d now i) = identity_of d"
    by (intro ext) (simp add: identity_of_def GetOIDCIdentityByIssuerSubject_def one_def split: option.split)
qed (simp add: TouchOIDCIdentityLastSeen_def)

lemma db_ok_Touch: "db_ok d \<Longrightarrow> db_ok (TouchOIDCIdentityLastSeen d now i)"
  by (rule db_write_ok [OF touch_identity [OF refl]])

lemma GetUserAccountByID_Inr: "GetUserAccountByID d i = Inr u \<Longrightarrow> u \<in> set (user_accounts d) \<and> ua_ID u = i"
  by (auto simp: GetUserAccountByID_def dest!: find_SomeD)

lemma GetUserAccountByEmail_Inr:
  "GetUserAccountByEmail d e = Inr u \<Longrightarrow> u \<in> set (user_accounts d) \<and> map_option ToLower (ua_Email u) = Some (ToLower e)"
  by (auto simp: GetUserAccountByEmail_def dest!: find_SomeD)

text \<open>The three ways \<open>Resolve\<close> goes for a principal of another issuer.\<close>

lemma Resolve_external:
  assumes "Issuer p \<noteq> rs_localIssuer R" "Issuer p \<noteq> []" "Subject p \<noteq> []"
  shows "Resolve P C R flt now auuid iuuid d p =
    (case at flt 1 (GetOIDCIdentityByIssuerSubject d (Issuer p) (Subject p)) of
       Inr identity \<Rightarrow>
         let d' = (if flt 2 then d else TouchOIDCIdentityLastSeen d now (oi_ID identity))
         in resolved
              (case at flt 3 (GetUserAccountByID d' (oi_UserAccountID identity)) of
                 Inl NoRows \<Rightarrow> Inl ErrUserGone
               | Inl e \<Rightarrow> Inl (LookupFault e)
               | Inr ua \<Rightarrow> Inr (buildUserContext P flt d' ua p)) d'
     | Inl NoRows \<Rightarrow> resolveByEmail P C R flt now auuid iuuid d p
     | Inl e \<Rightarrow> resolved (Inl (LookupFault e)) d)"
  using assms by (simp add: Resolve_def)

text \<open>What a successful resolution means for the database: the pair belongs to the account.\<close>

definition resolution_ok :: "'c db \<Rightarrow> 'c db \<Rightarrow> Principal \<Rightarrow> UserContext \<Rightarrow> bool" where
  "resolution_ok d d' p uc \<longleftrightarrow>
     db_ok d' \<and> identity_of d' = (identity_of d)((Issuer p, Subject p) \<mapsto> uc_UserAccountID uc) \<and>
     (identity_of d (Issuer p, Subject p) \<in> {None, Some (uc_UserAccountID uc)}) \<and>
     (\<exists>u \<in> set (user_accounts d'). ua_ID u = uc_UserAccountID uc \<and> ua_Uuid u = uc_UserUUID uc \<and>
        ua_AccountHolder u = uc_EntityID uc \<and> ua_EmailVerifiedAt u = uc_EmailVerifiedAt uc)"

lemma resolveCreate_ok:
  assumes "res_out (resolveCreate P C R flt now auuid iuuid d p) = Inr uc" "db_ok d" "Issuer p \<noteq> []" "Subject p \<noteq> []"
  shows "resolution_ok d (res_db (resolveCreate P C R flt now auuid iuuid d p)) p uc"
proof (cases "autoCreate C R flt now auuid iuuid d p")
  case (Inr b)
  obtain ua d' ev hook where b: "b = (ua, d', ev, hook)" by (cases b)
  note A = autoCreate_Inr [OF Inr [unfolded b]]
  show ?thesis
    using A(1,5) A(4) [OF assms(3,4)] assms(1,2) Inr b by (auto simp: resolution_ok_def resolveCreate_def)
qed (use assms(1) in \<open>simp add: resolveCreate_def\<close>)

lemma resolveFound_ok:
  assumes "res_out (resolveFound P R flt now iuuid d p ua) = Inr uc" "db_ok d" "ua \<in> set (user_accounts d)"
  shows "resolution_ok d (res_db (resolveFound P R flt now iuuid d p ua)) p uc"
proof (cases "ua_EmailVerifiedAt ua = None")
  case False
  with assms(1) obtain d' ev where l: "linkIdentity R flt now iuuid d ua p = Inr (d', ev)"
    by (auto simp: resolveFound_def split: sum.splits)
  from linkIdentity_Inr [OF l] l False assms show ?thesis
    by (auto simp: resolution_ok_def resolveFound_def)
next
  case True
  with assms(1) obtain d' ev ua' where v: "verifyAndLink R flt now iuuid d ua p = Inr (d', ev)"
    "GetUserAccountByID d' (ua_ID ua) = Inr ua'" "EmailVerified p"
    by (auto simp: resolveFound_def split: sum.splits if_splits)
  from verifyAndLink_Inr(2-4) [OF v(1)] v True assms(1,2) GetUserAccountByID_Inr [OF v(2)] show ?thesis
    by (auto simp: resolution_ok_def resolveFound_def at_def split: if_splits)
qed

lemma resolveByEmail_ok:
  assumes "res_out (resolveByEmail P C R flt now auuid iuuid d p) = Inr uc" "db_ok d" "Issuer p \<noteq> []" "Subject p \<noteq> []"
  shows "resolution_ok d (res_db (resolveByEmail P C R flt now auuid iuuid d p)) p uc"
  using assms resolveCreate_ok [OF _ assms(2-4), of P C R flt now auuid iuuid uc]
    resolveFound_ok [of P R flt now iuuid d p _ uc] GetUserAccountByEmail_Inr [of d]
  by (auto simp: resolveByEmail_def split: if_splits sum.splits db_error.splits)

lemma Resolve_existing:
  assumes "identity_of d (Issuer p, Subject p) = Some i" "db_ok d" "\<not> flt 1" "\<not> flt 3"
    and "Issuer p \<noteq> rs_localIssuer R" "Issuer p \<noteq> []" "Subject p \<noteq> []"
  shows "\<exists>ua uc. ua \<in> set (user_accounts d) \<and> ua_ID ua = i \<and>
     res_out (Resolve P C R flt now auuid iuuid d p) = Inr uc \<and> uc_UserAccountID uc = i \<and>
     uc_EmailVerifiedAt uc = ua_EmailVerifiedAt ua \<and>
     user_accounts (res_db (Resolve P C R flt now auuid iuuid d p)) = user_accounts d \<and>
     identity_of (res_db (Resolve P C R flt now auuid iuuid d p)) = identity_of d \<and>
     db_ok (res_db (Resolve P C R flt now auuid iuuid d p))"
proof -
  obtain x where x: "GetOIDCIdentityByIssuerSubject d (Issuer p) (Subject p) = Inr x" "oi_UserAccountID x = i"
    using assms(1) by (auto simp: identity_of_def split: sum.splits)
  define d1 where "d1 = (if flt 2 then d else TouchOIDCIdentityLastSeen d now (oi_ID x))"
  have d: "user_accounts d1 = user_accounts d" "identity_of d1 = identity_of d" "db_ok d1"
    using assms(2) by (simp_all add: d1_def Touch_frame db_ok_Touch)
  have "x \<in> set (auth_oidc_identities d)"
    using x(1) by (auto simp: GetOIDCIdentityByIssuerSubject_def dest!: find_SomeD)
  then have "i \<in> ua_ID ` set (user_accounts d)"
    using assms(2) x(2) by (force simp: db_ok_def identities_ok_def fk_def)
  then obtain ua where ua: "GetUserAccountByID d1 i = Inr ua"
    using d(1) by (cases "GetUserAccountByID d1 i") (auto simp: GetUserAccountByID_def find_None_iff)
  have "Resolve P C R flt now auuid iuuid d p = resolved (Inr (buildUserContext P flt d1 ua p)) d1"
    using assms(3-7) x ua by (simp add: Resolve_external Let_def at_def d1_def)
  then show ?thesis
    using GetUserAccountByID_Inr [OF ua] d by auto
qed

lemma Resolve_resolution:
  assumes "Resolve P C R flt now auuid iuuid d p = r" "res_out r = Inr uc" "db_ok d"
    and "Issuer p \<noteq> rs_localIssuer R" "Issuer p \<noteq> []" "Subject p \<noteq> []"
  shows "resolution_ok d (res_db r) p uc"
proof (cases "at flt 1 (GetOIDCIdentityByIssuerSubject d (Issuer p) (Subject p))")
  case (Inr x)
  define d1 where "d1 = (if flt 2 then d else TouchOIDCIdentityLastSeen d now (oi_ID x))"
  have d1: "user_accounts d1 = user_accounts d" "identity_of d1 = identity_of d" "db_ok d1"
    using assms(3) by (simp_all add: d1_def Touch_frame db_ok_Touch)
  obtain ua where ua: "GetUserAccountByID d1 (oi_UserAccountID x) = Inr ua" "uc = buildUserContext P flt d1 ua p"
    "res_db r = d1"
    using assms Inr by (auto simp: Resolve_external Let_def d1_def split: sum.splits db_error.splits)
  have "identity_of d (Issuer p, Subject p) = Some (oi_UserAccountID x)"
    using Inr by (simp add: identity_of_def)
  then show ?thesis
    using ua d1 GetUserAccountByID_Inr [OF ua(1)] by (auto simp: resolution_ok_def)
next
  case (Inl e)
  then have "r = resolveByEmail P C R flt now auuid iuuid d p"
    using assms by (auto simp: Resolve_external split: db_error.splits)
  then show ?thesis using resolveByEmail_ok assms by simp
qed

section \<open>Properties\<close>


text \<open>
  Once linked, always the same account: after a principal was resolved, every later sign-in with
  the same (issuer, subject) pair reaches the same account, whatever e-mail address the provider
  now asserts, and creates or changes no account.
\<close>

theorem Resolve_sticky:
  assumes "Resolve uuid_Parse C R flt now auuid iuuid d p = r" "res_out r = Inr uc" "db_ok d"
    and "Issuer p \<noteq> rs_localIssuer R" "Issuer p \<noteq> []" "Subject p \<noteq> []"
    and "Issuer q = Issuer p" "Subject q = Subject p" "\<not> flt' 1" "\<not> flt' 3"
  shows "\<exists>uc'. res_out (Resolve uuid_Parse C R flt' now' auuid' iuuid' (res_db r) q) = Inr uc' \<and>
     uc_UserAccountID uc' = uc_UserAccountID uc \<and>
     user_accounts (res_db (Resolve uuid_Parse C R flt' now' auuid' iuuid' (res_db r) q)) = user_accounts (res_db r)"
proof -
  note Resolve_resolution [OF assms(1-6)]
  then have "identity_of (res_db r) (Issuer q, Subject q) = Some (uc_UserAccountID uc)" "db_ok (res_db r)"
    using assms(7,8) by (auto simp: resolution_ok_def)
  from Resolve_existing [OF this assms(9,10)] show ?thesis using assms by fastforce
qed

text \<open>
  Sign-in by e-mail address, when the pair is not linked yet and an account has the (canonical)
  address. If that account and the provider's assertion are both unverified, the attempt is blocked
  and nothing changes. If the provider vouches for the address, the account becomes verified and is
  linked, in one transaction, and no other account changes. If the account is verified already, the
  identity is linked to it, also when the provider does not vouch for the address.
\<close>

theorem Resolve_by_email:
  assumes "db_ok d" "identity_of d (Issuer p, Subject p) = None"
    and "Issuer p \<noteq> rs_localIssuer R" "Issuer p \<noteq> []" "Subject p \<noteq> []"
    and "canonical_email (Email p) \<noteq> []" "GetUserAccountByEmail d (canonical_email (Email p)) = Inr ua"
    and "iuuid \<notin> oi_Uuid ` set (auth_oidc_identities d)"
  shows "let r = Resolve uuid_Parse C R (\<lambda>_. False) now auuid iuuid d p in
    if ua_EmailVerifiedAt ua = None \<and> \<not> EmailVerified p
    then r = resolved (Inl ErrUnverifiedTakeover) d
    else \<exists>uc. res_out r = Inr uc \<and> uc_UserAccountID uc = ua_ID ua \<and>
      identity_of (res_db r) (Issuer p, Subject p) = Some (ua_ID ua) \<and>
      uc_EmailVerifiedAt uc = (if ua_EmailVerifiedAt ua = None then Some now else ua_EmailVerifiedAt ua) \<and>
      filter (\<lambda>u. ua_ID u \<noteq> ua_ID ua) (user_accounts (res_db r)) = filter (\<lambda>u. ua_ID u \<noteq> ua_ID ua) (user_accounts d) \<and>
      (ua_EmailVerifiedAt ua \<noteq> None \<longrightarrow> user_accounts (res_db r) = user_accounts d)"
proof -
  define r where "r = Resolve uuid_Parse C R (\<lambda>_. False) now auuid iuuid d p"
  have "GetOIDCIdentityByIssuerSubject d (Issuer p) (Subject p) = Inl NoRows"
    using assms(2) by (auto simp: identity_of_def GetOIDCIdentityByIssuerSubject_def one_def split: option.splits)
  then have r: "r = resolveFound uuid_Parse R (\<lambda>_. False) now iuuid d p ua"
    using assms(3-7) by (simp add: r_def Resolve_external resolveByEmail_def at_def)
  have ua: "ua \<in> set (user_accounts d)" using GetUserAccountByEmail_Inr [OF assms(7)] by simp
  have ins: "\<exists>x d2. InsertOIDCIdentity d1 now iuuid (ua_ID ua) (Issuer p) (Subject p) e v = Inr (x, d2)"
    if "auth_oidc_identities d1 = auth_oidc_identities d" "ua_ID ` set (user_accounts d1) = ua_ID ` set (user_accounts d)" for d1 e v
  proof -
    have "ua_ID ua \<in> ua_ID ` set (user_accounts d1)" using that(2) ua by simp
    then have "account_exists d1 (ua_ID ua)" by (auto simp: account_exists_def)
    moreover have "\<not> (\<exists>i \<in> set (auth_oidc_identities d). oi_Uuid i = iuuid)" using assms(8) by blast
    ultimately show ?thesis
      using that(1) assms(2) by (auto simp: InsertOIDCIdentity_def Let_def identity_of_None)
  qed
  show ?thesis
  proof (cases "ua_EmailVerifiedAt ua = None")
    case False
    obtain d' ev where l: "linkIdentity R (\<lambda>_. False) now iuuid d ua p = Inr (d', ev)"
      using ins [of d "text_nonempty (Email p)" "if EmailVerified p then Some now else None"]
      by (auto simp: linkIdentity_def at_def safeObserve_def)
    from linkIdentity_Inr [OF l] False l show ?thesis
      by (auto simp: r_def [symmetric] r resolveFound_def)
  next
    case True
    show ?thesis
    proof (cases "EmailVerified p")
      case False
      with True show ?thesis by (simp add: r_def [symmetric] r resolveFound_def)
    next
      case v: True
      let ?f = "mark_verified now ua"
      have "\<not> (\<exists>u \<in> set (user_accounts d). ua_ID u \<noteq> ua_ID ua \<and> ua_Email u = ua_Email ua \<and> ua_Email ua \<noteq> None)"
      proof
        assume "\<exists>u \<in> set (user_accounts d). ua_ID u \<noteq> ua_ID ua \<and> ua_Email u = ua_Email ua \<and> ua_Email ua \<noteq> None"
        then obtain u where u: "u \<in> set (user_accounts d)" "ua_ID u \<noteq> ua_ID ua" "ua_Email u = ua_Email ua" "ua_Email ua \<noteq> None"
          by blast
        have "inj_on ua_Email (set (filter (\<lambda>u. ua_Email u \<noteq> None) (user_accounts d)))"
          using assms(1) by (simp add: db_ok_def accounts_ok_def distinct_map)
        with u ua have "u = ua" by (auto dest: inj_onD)
        with u(2) show False by simp
      qed
      then have upd: "UpdateUserAccount d now (ua_ID ua) (ua_Email ua) (Some now) = Inr (d\<lparr>user_accounts := map ?f (user_accounts d)\<rparr>)"
        by (auto simp: UpdateUserAccount_def mark_verified_def)
      obtain x d2 where "InsertOIDCIdentity (d\<lparr>user_accounts := map ?f (user_accounts d)\<rparr>) now iuuid (ua_ID ua)
          (Issuer p) (Subject p) (text_nonempty (Email p)) (Some now) = Inr (x, d2)"
        using ins [of "d\<lparr>user_accounts := map ?f (user_accounts d)\<rparr>" "text_nonempty (Email p)" "Some now"] by auto
      then obtain d' ev where l: "verifyAndLink R (\<lambda>_. False) now iuuid d ua p = Inr (d', ev)"
        using upd by (simp add: verifyAndLink_def at_def safeObserve_def)
      note L = verifyAndLink_Inr [OF l]
      note acc = L(1)
      obtain ua' where ua': "GetUserAccountByID d' (ua_ID ua) = Inr ua'"
        using ua acc by (cases "GetUserAccountByID d' (ua_ID ua)") (auto simp: GetUserAccountByID_def find_None_iff)
      then have "ua' \<in> ?f ` set (user_accounts d)" "ua_ID ua' = ua_ID ua"
        using GetUserAccountByID_Inr [OF ua'] acc by auto
      then have "ua_EmailVerifiedAt ua' = Some now" by auto
      moreover have "filter (\<lambda>u. ua_ID u \<noteq> ua_ID ua) (map ?f us) = filter (\<lambda>u. ua_ID u \<noteq> ua_ID ua) us" for us
        by (induction us) auto
      ultimately show ?thesis
        using True v l L(3) ua' acc \<open>ua_ID ua' = ua_ID ua\<close>
        by (simp add: r_def [symmetric] r resolveFound_def at_def)
    qed
  qed
qed

text \<open>
  Errors leave no trace: whenever resolution fails, unless the final reload of a freshly
  verified account is what failed, no account and no identity link has changed, nothing is
  reported to the observers and the first-user hook is not called.
\<close>

theorem Resolve_error_atomic:
  assumes "Resolve uuid_Parse C R flt now auuid iuuid d p = r" "res_out r = Inl e" "\<not> flt 26" "db_ok d"
  shows "user_accounts (res_db r) = user_accounts d \<and> identity_of (res_db r) = identity_of d \<and>
    auth_local (res_db r) = auth_local d \<and> res_events r = [] \<and> res_hook r = None"
proof -
  have create: "res_out (resolveCreate uuid_Parse C R flt now auuid iuuid d p) = Inl e' \<Longrightarrow>
      resolveCreate uuid_Parse C R flt now auuid iuuid d p = resolved (Inl e') d" for e'
    by (auto simp: resolveCreate_def split: sum.splits)
  have found: "resolveFound uuid_Parse R flt now iuuid d p ua = resolved (Inl e') d"
    if "res_out (resolveFound uuid_Parse R flt now iuuid d p ua) = Inl e'" "ua \<in> set (user_accounts d)" for ua e'
  proof -
    have "GetUserAccountByID d' (ua_ID ua) \<noteq> Inl x" if "verifyAndLink R flt now iuuid d ua p = Inr (d', ev)" for d' ev x
    proof -
      have "ua_ID ` set (user_accounts d') = ua_ID ` set (user_accounts d)"
        by (simp add: verifyAndLink_Inr(1) [OF that])
      with \<open>ua \<in> set (user_accounts d)\<close> have "ua_ID ua \<in> ua_ID ` set (user_accounts d')" by simp
      then show ?thesis by (auto simp: GetUserAccountByID_def find_None_iff)
    qed
    with that(1) assms(3) show ?thesis
      by (auto simp: resolveFound_def at_def split: sum.splits if_splits)
  qed
  have mail: "resolveByEmail uuid_Parse C R flt now auuid iuuid d p = resolved (Inl e) d"
    if "res_out (resolveByEmail uuid_Parse C R flt now auuid iuuid d p) = Inl e"
    using that create found GetUserAccountByEmail_Inr [of d]
    by (auto simp: resolveByEmail_def split: if_splits sum.splits db_error.splits)
  have "auth_local (TouchOIDCIdentityLastSeen d now i) = auth_local d" for i
    by (simp add: TouchOIDCIdentityLastSeen_def)
  with assms(1,2) mail show ?thesis
    by (auto simp: Resolve_def Let_def Touch_frame split: if_splits sum.splits db_error.splits)
qed

text \<open>The databases of the examples: an account with that address, verified or not.\<close>

lemma resolver_demo:
  obtains d :: "unit db" and u where "db_ok d" "user_accounts d = [u]" "ua_ID u = 1" "auth_oidc_identities d = []"
    "GetUserAccountByEmail d ''a@b'' = Inr u" "ua_EmailVerifiedAt u = v" "ua_Uuid u = ''u1''" "ua_AccountHolder u = 7"
proof -
  obtain u d where c: "CreateUserAccount (empty_db ()) 0 ''u1'' 7 (Some ''a@b'') v = Inr (u, d)"
    by (simp add: CreateUserAccount_def Let_def)
  then have r: "user_accounts d = [u]" "ua_ID u = 1" "auth_oidc_identities d = []" "ua_EmailVerifiedAt u = v"
    "ua_Email u = Some ''a@b''" "ua_Uuid u = ''u1''" "ua_AccountHolder u = 7"
    by (auto simp: CreateUserAccount_def Let_def)
  moreover have "GetUserAccountByEmail d ''a@b'' = Inr u" using r by (simp add: GetUserAccountByEmail_def)
  ultimately show thesis using that db_ok_CreateUserAccount [OF c] by simp
qed

definition demo_resolver :: UserResolver where
  "demo_resolver = \<lparr>rs_localIssuer = ''urn:mod-users'', rs_obs = False, rs_firstUserHook = False\<rparr>"

definition demo_principal :: "bool \<Rightarrow> Principal" where
  "demo_principal v = \<lparr>Subject = ''1'', Issuer = ''g'', Email = ''a@b'', EmailVerified = v, Roles = [], SudoUserUUID = []\<rparr>"

lemma demo_principal_sel [simp]: "Subject (demo_principal v) = ''1''" "Issuer (demo_principal v) = ''g''"
  "Email (demo_principal v) = ''a@b''" "EmailVerified (demo_principal v) = v"
  by (simp_all add: demo_principal_def)

lemma demo_issuer [simp]: "rs_localIssuer demo_resolver = ''urn:mod-users''"
  by (simp add: demo_resolver_def)

text \<open>The principal has no account: branch 5 creates one.\<close>

lemma Resolve_demo:
  obtains r uc where "Resolve Some demo_core demo_resolver (\<lambda>_. False) 0 ''a1'' ''i1'' (empty_db ()) (demo_principal False) = r"
    "res_out r = Inr uc" "uc_UserAccountID uc = 1"
  by (rule that [OF refl, where uc = "buildUserContext Some (\<lambda>_. False) _ \<lparr>ua_ID = 1, ua_Uuid = ''a1'', ua_AccountHolder = 7,
      ua_Email = _, ua_EmailVerifiedAt = _, ua_DefaultAppID = _, ua_CreatedAt = _, ua_UpdatedAt = _\<rparr> _"])
     (simp_all add: Resolve_external resolveByEmail_def resolveCreate_def autoCreate_def autoCreateEmailFields_def at_def
       GetOIDCIdentityByIssuerSubject_def GetUserAccountByEmail_def CreateUserAccount_def InsertOIDCIdentity_def Let_def
       safeObserve_def account_exists_def)


theorem Resolve_sticky_witness:
  "\<exists>r uc'. Resolve Some demo_core demo_resolver (\<lambda>_. False) 0 ''a1'' ''i1'' (empty_db ()) (demo_principal False) = r \<and>
     res_out (Resolve Some demo_core demo_resolver (\<lambda>_. False) 5 ''a2'' ''i2'' (res_db r)
       ((demo_principal True)\<lparr>Email := ''other@c''\<rparr>)) = Inr uc' \<and> uc_UserAccountID uc' = 1"
proof -
  obtain r uc where r: "Resolve Some demo_core demo_resolver (\<lambda>_. False) 0 ''a1'' ''i1'' (empty_db ()) (demo_principal False) = r"
    "res_out r = Inr uc" "uc_UserAccountID uc = 1" by (rule Resolve_demo)
  with Resolve_sticky [OF r(1,2), of "(demo_principal True)\<lparr>Email := ''other@c''\<rparr>" "\<lambda>_. False" 5 "''a2''" "''i2''"]
  show ?thesis by auto
qed

theorem Resolve_by_email_witness:
  "\<exists>(d :: unit db) r. r = Resolve Some demo_core demo_resolver (\<lambda>_. False) 3 ''a1'' ''i1'' d (demo_principal False) \<and>
     r = resolved (Inl ErrUnverifiedTakeover) d"
proof -
  obtain d :: "unit db" and u where d: "db_ok d" "user_accounts d = [u]" "ua_ID u = 1" "auth_oidc_identities d = []"
    "GetUserAccountByEmail d ''a@b'' = Inr u" "ua_EmailVerifiedAt u = None" "ua_Uuid u = ''u1''" "ua_AccountHolder u = 7"
    by (rule resolver_demo)
  have "identity_of d (''g'', ''1'') = None" using d(4) by (simp add: identity_of_None)
  with d Resolve_by_email [OF d(1), of "demo_principal False" demo_resolver u "''i1''" Some demo_core 3 "''a1''"]
  show ?thesis by (auto simp: Let_def)
qed

theorem Resolve_error_atomic_witness:
  "\<exists>(d :: unit db) r. res_out r = Inl ErrUnverifiedTakeover \<and> user_accounts d \<noteq> [] \<and>
     r = Resolve Some demo_core demo_resolver (\<lambda>_. False) 3 ''a1'' ''i1'' d (demo_principal False) \<and>
     user_accounts (res_db r) = user_accounts d"
proof -
  obtain d :: "unit db" and u where d: "db_ok d" "user_accounts d = [u]" "ua_ID u = 1" "auth_oidc_identities d = []"
    "GetUserAccountByEmail d ''a@b'' = Inr u" "ua_EmailVerifiedAt u = None" "ua_Uuid u = ''u1''" "ua_AccountHolder u = 7"
    by (rule resolver_demo)
  let ?r = "Resolve Some demo_core demo_resolver (\<lambda>_. False) 3 ''a1'' ''i1'' d (demo_principal False)"
  have "res_out ?r = Inl ErrUnverifiedTakeover"
    using d by (simp add: Resolve_external resolveByEmail_def resolveFound_def at_def GetOIDCIdentityByIssuerSubject_def)
  with Resolve_error_atomic [OF refl this] d show ?thesis by (intro exI [of _ d] exI [of _ ?r]) simp
qed

text \<open>The request pipeline for a token made of local claims.\<close>

definition local_mapper :: "string \<Rightarrow> claims \<Rightarrow> (claim_error, Principal) result" where
  "local_mapper admin = genericMapper_Map (with_default_admin
     \<lparr>AdminRole = admin, RolesNamespace = [], RolesPath = ''roles'', EmailPath = ''email''\<rparr>)"

lemma local_mapper_eq:
  "NewClaimMapper visit ''generic'' \<lparr>AdminRole = admin, RolesNamespace = [], RolesPath = ''roles'', EmailPath = ''email''\<rparr> =
     Inr (local_mapper admin)"
  by (simp add: NewClaimMapper_def local_mapper_def Let_def)

lemma getString_local_claims:
  assumes "lc_iss c \<noteq> []" "lc_sub c \<noteq> []"
  shows "getString (localClaims_members c) ''sub'' = lc_sub c" "getString (localClaims_members c) ''iss'' = lc_iss c"
    "getString (localClaims_members c) ''sudo_user_uuid'' = lc_sudo c"
  using assms by (simp_all add: getString_def claim_def localClaims_members_def)

lemma local_mapper_claims:
  assumes "lc_iss c \<noteq> []" "lc_sub c \<noteq> []"
  shows "\<exists>p. local_mapper admin (localClaims_members c) = Inr p \<and> Subject p = lc_sub c \<and> Issuer p = lc_iss c \<and>
     SudoUserUUID p = lc_sudo c"
  using getString_local_claims [OF assms] assms
  by (auto simp: local_mapper_def genericMapper_Map_def extractRequired_def with_default_admin_def Let_def)

lemma AuthenticateRequest_claims:
  assumes "NewSigner lc = Inr s" "NewLocalVerifier K discover lc = Inr v" "distinct (map fst (JWTVerifyPublicKeys lc))"
    and "\<And>key extra cl t. jwt_sign key extra cl = Some t \<Longrightarrow> compact_jws K key extra cl t"
    and "Signer_Sign jwt_sign (Some s) (localClaims_members c) = Inr tok" "lc_iss c = LocalIssuer lc" "lc_sub c \<noteq> []"
    and "rs_localIssuer R = LocalIssuer lc"
  shows "\<exists>p. Subject p = lc_sub c \<and> SudoUserUUID p = lc_sudo c \<and>
    AuthenticateRequest K v (local_mapper admin) now d (Resolve P C R flt now auuid iuuid d) (''Bearer '' @ tok) =
      (if lc_exp c * second < now then (Inl ErrInvalidToken, d)
       else (case resolveLocal P flt d p of Inl e \<Rightarrow> (Inl (ResolveFailed e), d) | Inr uc \<Rightarrow> (Inr uc, d)))"
proof -
  note V = NewLocalVerifier_Inr [OF assms(2,3)]
  obtain p where p: "local_mapper admin (localClaims_members c) = Inr p" "Subject p = lc_sub c" "Issuer p = lc_iss c"
    "SudoUserUUID p = lc_sudo c"
    using local_mapper_claims [of c admin] assms(6,7) V(2) by auto
  have tok: "Verifier_Verify K v now tok = (if lc_exp c * second < now then Inl VerificationFailed else Inr (localClaims_members c))"
    using signed_claims_verify [OF assms(1-6), of now] V(3) by (simp add: Verifier_Verify_def)
  have "Resolve P C R flt now auuid iuuid d p = resolved (resolveLocal P flt d p) d"
    using p(3) assms(6,8) V(2) by (simp add: Resolve_def)
  with p tok HasPrefix_append [of "''Bearer ''" tok] TrimPrefix_append [of "''Bearer ''" tok] show ?thesis
    by (intro exI [of _ p]) (auto simp: AuthenticateRequest_def split: sum.splits)
qed

text \<open>
  A session end to end: the token that login issues for an account, sent back as a bearer token
  to the pipeline that the server mounts, is resolved to exactly that account, with no other
  identity assumed, until it expires 24 hours later; after the account is deleted the answer is
  401. The hypotheses are the documented token format of the JWT library and that UUIDs parse to
  themselves.
\<close>

theorem session_token_authenticates:
  assumes "NewSigner lc = Inr s" "NewLocalVerifier K discover lc = Inr v" "distinct (map fst (JWTVerifyPublicKeys lc))"
    and "\<And>key extra cl t. jwt_sign key extra cl = Some t \<Longrightarrow> compact_jws K key extra cl t"
    and "rs_localIssuer R = LocalIssuer lc" "\<And>u. u \<noteq> [] \<Longrightarrow> uuid_Parse u = Some u" "uuid \<noteq> []"
    and "IssueLocalJWTWithSigner jwt_sign uuid (Some s) (LocalIssuer lc) issued = Inr tok" "\<not> flt 0"
  shows "let a = AuthenticateRequest K v (local_mapper admin) now d
            (Resolve uuid_Parse C R flt now auuid iuuid d) (''Bearer '' @ tok)
     in snd a = d \<and>
       (Unix (issued + day) * second < now \<longrightarrow> fst a = Inl ErrInvalidToken) \<and>
       (now \<le> Unix (issued + day) * second \<longrightarrow>
          (case GetUserAccountByUUID d uuid of
             Inl _ \<Rightarrow> fst a = Inl (ResolveFailed ErrUserGone) \<and>
                      RequireAuth (''Bearer '' @ tok) (fst a) ctx = Answer 401 ''unauthorized'' ''user no longer exists''
           | Inr u \<Rightarrow> \<exists>uc. fst a = Inr uc \<and> uc_UserAccountID uc = ua_ID u \<and> uc_UserUUID uc = uuid \<and>
                      uc_AssumedUser uc = None \<and> uc_EmailVerifiedAt uc = ua_EmailVerifiedAt u \<and>
                      RequireAuth (''Bearer '' @ tok) (fst a) ctx =
                        Next (ctx\<lparr>ctx_user := Some uc, ctx_actor := Some (ua_AccountHolder u)\<rparr>)))"
proof -
  let ?c = "local_claims uuid (LocalIssuer lc) issued"
  have c: "lc_iss ?c = LocalIssuer lc" "lc_sub ?c = uuid" "lc_exp ?c = Unix (issued + day)" "lc_sudo ?c = []"
    by (simp_all add: local_claims_def)
  obtain p where p: "Subject p = uuid" "SudoUserUUID p = []"
    "AuthenticateRequest K v (local_mapper admin) now d (Resolve uuid_Parse C R flt now auuid iuuid d) (''Bearer '' @ tok) =
      (if Unix (issued + day) * second < now then (Inl ErrInvalidToken, d)
       else (case resolveLocal uuid_Parse flt d p of Inl e \<Rightarrow> (Inl (ResolveFailed e), d) | Inr uc \<Rightarrow> (Inr uc, d)))"
    using AuthenticateRequest_claims [OF assms(1-4) assms(8) [unfolded IssueLocalJWTWithSigner_def] c(1) _ assms(5),
        of admin now d uuid_Parse C flt auuid iuuid] assms(7) c by auto
  have u: "GetUserAccountByUUID d uuid = Inr u \<Longrightarrow> ua_Uuid u = uuid" for u
    by (auto simp: GetUserAccountByUUID_def dest!: find_SomeD)
  have n: "GetUserAccountByUUID d uuid = Inl e \<Longrightarrow> e = NoRows" for e
    by (simp add: GetUserAccountByUUID_def)
  show ?thesis
    unfolding Let_def p(3)
    using p(1,2) assms(6) [OF assms(7)] assms(9) u n
    by (auto simp: resolveLocal_def at_def RequireAuth_def writeAuthError_def contextWithAuthenticatedActor_def
        buildUserContext_def split: sum.splits)
qed

theorem session_token_authenticates_witness:
  "\<exists>(d :: unit db) v tok uc u. user_accounts d = [u] \<and>
     NewLocalVerifier demo_crypto (\<lambda>_ _ _. None) (demo_config ''EdDSA'') = Inr v \<and>
     AuthenticateRequest demo_crypto v (local_mapper ''admin'') 0 d
       (Resolve Some demo_core demo_resolver (\<lambda>_. False) 0 ''a1'' ''i1'' d) (''Bearer '' @ tok) = (Inr uc, d) \<and>
     uc_UserAccountID uc = ua_ID u"
proof -
  obtain d :: "unit db" and u where d: "db_ok d" "user_accounts d = [u]" "ua_ID u = 1" "auth_oidc_identities d = []"
    "GetUserAccountByEmail d ''a@b'' = Inr u" "ua_EmailVerifiedAt u = None" "ua_Uuid u = ''u1''" "ua_AccountHolder u = 7"
    by (rule resolver_demo)
  let ?lc = "demo_config ''EdDSA''"
  let ?s = "\<lparr>sg_key = EdDSAKey (replicate 64 (CHR ''k'')), sg_kid = ''a''\<rparr>"
  obtain tok where tok: "IssueLocalJWTWithSigner demo_sign ''u1'' (Some ?s) (LocalIssuer ?lc) 0 = Inr tok"
    by (simp add: IssueLocalJWTWithSigner_def Signer_Sign_def demo_sign_def Let_def)
  have "distinct (map fst (JWTVerifyPublicKeys ?lc))" "rs_localIssuer demo_resolver = LocalIssuer ?lc"
    "0 \<le> Unix (0 + day) * second" "GetUserAccountByUUID d ''u1'' = Inr u"
    using d by (simp_all add: demo_config_def GetUserAccountByUUID_def Unix_def day_def second_def)
  with session_token_authenticates [OF demo_signer(2) demo_verifier(2) [of "\<lambda>_ _ _. None"] _ compact_jws_demo _ _ _ tok,
      of demo_resolver Some "\<lambda>_. False" "''admin''" 0 d demo_core "''a1''" "''i1''" empty_ctx]
  obtain uc where "AuthenticateRequest demo_crypto
       \<lparr>oidcVerifier = None, localSecret = [], localIssuer = ''urn:mod-users'', edKeys = [''a'' \<mapsto> replicate 32 (CHR ''k'')]\<rparr>
       (local_mapper ''admin'') 0 d (Resolve Some demo_core demo_resolver (\<lambda>_. False) 0 ''a1'' ''i1'' d) (''Bearer '' @ tok) = (Inr uc, d)"
    "uc_UserAccountID uc = ua_ID u"
    by (auto simp: Let_def prod_eq_iff)
  with d(2) demo_verifier(2) [of "\<lambda>_ _ _. None"] show ?thesis by blast
qed

text \<open>
  The anonymous actor is only for requests without a credential: a request with no
  \<open>Authorization\<close> value passes with the anonymous actor, without a user, without a sudo actor and
  with the marker, and a verified-only route behind it answers 500; every request with one is
  treated exactly as \<open>RequireAuth\<close> treats it, so an invalid or expired token, a malformed header
  or a deleted account never becomes anonymous.
\<close>

theorem anonymous_only_without_header:
  assumes "AuthenticateRequest K v mapper now d resolve authHeader = (authd, d')"
  shows "if authHeader = []
    then ResolveActorOrAnonymous anon authHeader authd empty_ctx =
           Next \<lparr>ctx_user = None, ctx_actor = Some anon, ctx_sudo = None, ctx_anonymous = True\<rparr> \<and>
         chain [ResolveActorOrAnonymous anon authHeader authd, RequireVerifiedEmail] empty_ctx = Answer 500 ''internal_error'' []
    else ResolveActorOrAnonymous anon authHeader authd = RequireAuth authHeader authd \<and>
         (\<forall>ctx'. RequireAuth authHeader authd empty_ctx = Next ctx' \<longrightarrow> \<not> ctx_anonymous ctx' \<and> ctx_user ctx' \<noteq> None)"
proof (cases "authHeader = []")
  case True
  then have "authd = Inl ErrNoAuthHeader" using assms by (simp add: AuthenticateRequest_def)
  then show ?thesis
    using True by (simp add: ResolveActorOrAnonymous_def WithAnonymousActor_def empty_ctx_def RequireVerifiedEmail_def)
next
  case False
  then have "ResolveActorOrAnonymous anon authHeader authd = RequireAuth authHeader authd"
    by (intro ext) (simp add: ResolveActorOrAnonymous_def RequireAuth_def split: sum.split)
  then show ?thesis
    using False
    by (auto simp: RequireAuth_def contextWithAuthenticatedActor_def empty_ctx_def Let_def
        split: sum.splits option.splits prod.splits)
qed

theorem anonymous_only_without_header_witness:
  "\<exists>authd. AuthenticateRequest demo_crypto \<lparr>oidcVerifier = None, localSecret = ''s'', localIssuer = ''i'', edKeys = Map.empty\<rparr>
       (local_mapper ''admin'') 0 (empty_db ()) (resolved (Inl ErrUserGone) \<circ> (\<lambda>_. empty_db ())) [] = (authd, empty_db ()) \<and>
     ResolveActorOrAnonymous 9 [] authd empty_ctx =
       Next \<lparr>ctx_user = None, ctx_actor = Some 9, ctx_sudo = None, ctx_anonymous = True\<rparr>"
proof -
  let ?v = "\<lparr>oidcVerifier = None, localSecret = ''s'', localIssuer = ''i'', edKeys = Map.empty\<rparr>"
  have a: "AuthenticateRequest demo_crypto ?v (local_mapper ''admin'') 0 (empty_db ())
      (resolved (Inl ErrUserGone) \<circ> (\<lambda>_. empty_db ())) [] = (Inl ErrNoAuthHeader, empty_db ())"
    by (simp add: AuthenticateRequest_def)
  from anonymous_only_without_header [OF a, of 9] a show ?thesis by auto
qed

text \<open>
  The gates of a verified-only route, in the order the server mounts them: a request reaches the
  handler exactly if the OIDC onboarding is confirmed, the token resolves to an account and that
  account's e-mail address is verified; the handler then sees that account as its actor. An
  unconfirmed instance answers 503 whatever the token.
\<close>

theorem verified_route_gates:
  "(chain [RequireOIDCConfirmed state, RequireAuth authHeader authd, RequireVerifiedEmail] empty_ctx = Next ctx \<longleftrightarrow>
      Confirmed state \<and> (\<exists>uc. authd = Inr uc \<and> uc_EmailVerifiedAt uc \<noteq> None \<and>
        ctx = \<lparr>ctx_user = Some uc, ctx_actor = Some (uc_EntityID uc),
               ctx_sudo = map_option as_EntityID (uc_AssumedUser uc), ctx_anonymous = False\<rparr>)) \<and>
   (\<not> Confirmed state \<longrightarrow>
      (\<exists>msg. chain [RequireOIDCConfirmed state, RequireAuth authHeader authd, RequireVerifiedEmail] empty_ctx =
         Answer 503 ''users.oidc_not_confirmed'' msg))"
  by (cases authd)
     (auto simp: RequireOIDCConfirmed_def RequireAuth_def RequireVerifiedEmail_def contextWithAuthenticatedActor_def
       empty_ctx_def Let_def split: prod.splits option.splits)

theorem verified_route_gates_witness:
  "\<not> Confirmed BootStateInitFailed \<and>
   (\<exists>msg. chain [RequireOIDCConfirmed BootStateInitFailed, RequireAuth [] (Inl ErrNoAuthHeader), RequireVerifiedEmail] empty_ctx =
      Answer 503 ''users.oidc_not_confirmed'' msg)"
  using verified_route_gates [of BootStateInitFailed "[]" "Inl ErrNoAuthHeader" empty_ctx]
  by (simp add: Confirmed_def)

end
