(* ===== verification/Authz.thy ===== *)
theory Authz
  imports Resolver
begin

text \<open>
  The authorizer, \<open>authz/authz.go\<close>: who may do what to which entity.

  The tables it reads belong to other modules; the model has their columns that the queries
  mention, as lists of rows in a record. A \<open>WITH RECURSIVE\<close> term with \<open>UNION\<close> is the iteration
  the database performs: start with the seed, and in every round add the groups of the last
  round's rows that are not in the result yet, until a round adds nothing (\<open>cte\<close>). The
  reference definition is the inductive predicate \<open>member_of\<close>. The operation registry of the
  authorization module is the parameter \<open>satisfiedBy\<close>: the identifiers of the operations that
  imply the given one, \<open>None\<close> for an unknown operation. Faults of the two queries are injected.
\<close>

section \<open>Tables\<close>

record grant =
  g_actor :: int
  g_operation :: int
  g_target :: "int option"

record entity =
  e_id :: int
  e_type :: int
  e_owner :: "int option"

record type_row =
  t_id :: int
  t_entity :: "int option"

text \<open>Memberships are pairs of group and member.\<close>

record authz_db =
  actor_members :: "(int \<times> int) list"
  target_members :: "(int \<times> int) list"
  grants :: "grant list"
  entities :: "entity list"
  type_rows :: "type_row list"

section \<open>Recursive queries\<close>

definition cte_new :: "(int \<times> int) list \<Rightarrow> int list \<Rightarrow> int list \<Rightarrow> int list" where
  "cte_new ms working result =
     remdups (filter (\<lambda>g. g \<notin> set result) (map fst (filter (\<lambda>(g, m). m \<in> set working) ms)))"

lemma set_cte_new: "set (cte_new ms working result) = {g. \<exists>m \<in> set working. (g, m) \<in> set ms} - set result"
  by (force simp: cte_new_def)

lemma cte_new_card:
  assumes "cte_new ms working result \<noteq> []"
  shows "card (fst ` set ms - (set result \<union> set (cte_new ms working result))) < card (fst ` set ms - set result)"
proof -
  obtain g where g: "g \<in> set (cte_new ms working result)" using assms by (meson hd_in_set)
  then have "g \<in> fst ` set ms - set result" by (force simp: set_cte_new)
  moreover have "fst ` set ms - (set result \<union> set (cte_new ms working result)) \<subseteq> fst ` set ms - set result - {g}"
    using g by auto
  ultimately show ?thesis
    by (meson card_Diff1_less card_mono finite_Diff finite_imageI finite_set le_less_trans)
qed

function cte_loop :: "(int \<times> int) list \<Rightarrow> int list \<Rightarrow> int list \<Rightarrow> int list" where
  "cte_loop ms working result =
     (let new = cte_new ms working result
      in if new = [] then result else cte_loop ms new (result @ new))"
  by pat_completeness auto
termination
  by (relation "measure (\<lambda>(ms, working, result). card (fst ` set ms - set result))") (use cte_new_card in auto)

declare cte_loop.simps [simp del]

definition cte :: "(int \<times> int) list \<Rightarrow> int list \<Rightarrow> int list" where
  "cte ms seed = cte_loop ms seed seed"

definition ActorChain :: "authz_db \<Rightarrow> int \<Rightarrow> int list" where
  "ActorChain D actor = cte (actor_members D) [actor]"

text \<open>The entity of the target's exact type, unless the target is itself a type entity.\<close>

definition type_seed :: "authz_db \<Rightarrow> int \<Rightarrow> int list" where
  "type_seed D target =
     [te. e \<leftarrow> entities D, e_id e = target, t \<leftarrow> type_rows D, t_id t = e_type e, te \<leftarrow> (case t_entity t of None \<Rightarrow> [] | Some x \<Rightarrow> [x]),
        \<not> list_ex (\<lambda>tt. t_entity tt = Some target) (type_rows D)]"

definition TargetChain :: "authz_db \<Rightarrow> int \<Rightarrow> int list" where
  "TargetChain D target = cte (target_members D) (target # type_seed D target)"

definition TypeChain :: "authz_db \<Rightarrow> int \<Rightarrow> int list" where
  "TypeChain D typeID =
     cte (target_members D) [te. t \<leftarrow> type_rows D, t_id t = typeID, te \<leftarrow> (case t_entity t of None \<Rightarrow> [] | Some x \<Rightarrow> [x])]"

section \<open>The three checks\<close>

definition checkWildcardGrant :: "authz_db \<Rightarrow> int \<Rightarrow> int list \<Rightarrow> bool" where
  "checkWildcardGrant D actor opIDs \<longleftrightarrow>
     list_ex (\<lambda>g. g_actor g \<in> set (ActorChain D actor) \<and> g_operation g \<in> set opIDs \<and> g_target g = None) (grants D)"

definition targeted :: "authz_db \<Rightarrow> int list \<Rightarrow> int list \<Rightarrow> int list \<Rightarrow> bool" where
  "targeted D actors targets opIDs \<longleftrightarrow>
     list_ex (\<lambda>g. g_actor g \<in> set actors \<and> g_operation g \<in> set opIDs \<and>
                  (case g_target g of None \<Rightarrow> False | Some t \<Rightarrow> t \<in> set targets)) (grants D)"

definition checkGrantOrOwn :: "authz_db \<Rightarrow> int \<Rightarrow> int \<Rightarrow> int list \<Rightarrow> bool" where
  "checkGrantOrOwn D actor target opIDs \<longleftrightarrow>
     targeted D (ActorChain D actor) (TargetChain D target) opIDs \<or>
     list_ex (\<lambda>e. e_id e = target \<and> e_owner e = Some actor) (entities D)"

definition checkTypeGrant :: "authz_db \<Rightarrow> int \<Rightarrow> int \<Rightarrow> int list \<Rightarrow> bool" where
  "checkTypeGrant D actor typeID opIDs \<longleftrightarrow> targeted D (ActorChain D actor) (TypeChain D typeID) opIDs"

section \<open>The entry points\<close>

datatype authz_error = ErrUnauthenticated | ErrForbidden | AuthzFault

definition effectiveActor :: "req_ctx \<Rightarrow> int option" where
  "effectiveActor ctx = (case ctx_sudo ctx of Some s \<Rightarrow> Some s | None \<Rightarrow> ctx_actor ctx)"

text \<open>The outcome of the shared prelude: final (\<open>None\<close> is permission), or to be continued.\<close>

datatype prelude = Done "authz_error option" | Continue int "int list"

definition authorizePrelude :: "(string \<Rightarrow> int list option) \<Rightarrow> faults \<Rightarrow> authz_db \<Rightarrow> req_ctx \<Rightarrow> string \<Rightarrow> prelude" where
  "authorizePrelude satisfiedBy flt D ctx operation =
     (case effectiveActor ctx of
        None \<Rightarrow> Done (Some ErrUnauthenticated)
      | Some actor \<Rightarrow>
          (case satisfiedBy operation of
             None \<Rightarrow>
               (case satisfiedBy ''manage'' of
                  None \<Rightarrow> Done (Some ErrForbidden)
                | Some manageIDs \<Rightarrow>
                    if flt 0 then Done (Some AuthzFault)
                    else if checkWildcardGrant D actor manageIDs then Done None
                    else Done (Some ErrForbidden))
           | Some opIDs \<Rightarrow>
               if flt 0 then Done (Some AuthzFault)
               else if checkWildcardGrant D actor opIDs then Done None
               else Continue actor opIDs))"

definition Authorize ::
  "(string \<Rightarrow> int list option) \<Rightarrow> faults \<Rightarrow> authz_db \<Rightarrow> req_ctx \<Rightarrow> string \<Rightarrow> int option \<Rightarrow> authz_error option" where
  "Authorize satisfiedBy flt D ctx operation target =
     (case authorizePrelude satisfiedBy flt D ctx operation of
        Done r \<Rightarrow> r
      | Continue actor opIDs \<Rightarrow>
          (case target of
             None \<Rightarrow> Some ErrForbidden
           | Some t \<Rightarrow>
               if flt 1 then Some AuthzFault
               else if checkGrantOrOwn D actor t opIDs then None
               else Some ErrForbidden))"

definition AuthorizeType ::
  "(string \<Rightarrow> int list option) \<Rightarrow> faults \<Rightarrow> authz_db \<Rightarrow> req_ctx \<Rightarrow> string \<Rightarrow> int \<Rightarrow> authz_error option" where
  "AuthorizeType satisfiedBy flt D ctx operation typeID =
     (if effectiveActor ctx = None then Some ErrUnauthenticated
      else if typeID \<le> 0 then Some ErrForbidden
      else
        (case authorizePrelude satisfiedBy flt D ctx operation of
           Done r \<Rightarrow> r
         | Continue actor opIDs \<Rightarrow>
             if flt 1 then Some AuthzFault
             else if checkTypeGrant D actor typeID opIDs then None
             else Some ErrForbidden))"

section \<open>The reference: group membership as an inductive predicate\<close>

inductive member_of :: "(int \<times> int) list \<Rightarrow> int \<Rightarrow> int \<Rightarrow> bool" for ms where
  self: "member_of ms x x"
| up: "member_of ms x m \<Longrightarrow> (g, m) \<in> set ms \<Longrightarrow> member_of ms x g"

text \<open>The loop invariant: everything in the result is reachable, and what is not yet expanded is in the last round.\<close>

lemma cte_loop_sound:
  assumes "\<forall>x \<in> set result. \<exists>s \<in> S. member_of ms s x" "set working \<subseteq> set result"
  shows "\<forall>x \<in> set (cte_loop ms working result). \<exists>s \<in> S. member_of ms s x"
  using assms
proof (induction ms working result rule: cte_loop.induct)
  case (1 ms working result)
  show ?case
  proof (cases "cte_new ms working result = []")
    case True
    then show ?thesis using 1(2) by (simp add: cte_loop.simps [of ms working result])
  next
    case False
    have "\<forall>x \<in> set (cte_new ms working result). \<exists>s \<in> S. member_of ms s x"
      using 1(2,3) by (auto simp: set_cte_new intro: member_of.up) (meson member_of.up subsetD)
    with 1(1) [OF refl False] 1(2) False show ?thesis
      by (simp add: cte_loop.simps [of ms working result] ball_Un Let_def)
  qed
qed

lemma cte_loop_complete:
  assumes "\<forall>m \<in> set result - set working. \<forall>g. (g, m) \<in> set ms \<longrightarrow> g \<in> set result" "set working \<subseteq> set result"
  shows "set result \<subseteq> set (cte_loop ms working result) \<and>
    (\<forall>m \<in> set (cte_loop ms working result). \<forall>g. (g, m) \<in> set ms \<longrightarrow> g \<in> set (cte_loop ms working result))"
  using assms
proof (induction ms working result rule: cte_loop.induct)
  case (1 ms working result)
  let ?new = "cte_new ms working result"
  have closed: "(g, m) \<in> set ms \<Longrightarrow> m \<in> set result \<Longrightarrow> g \<in> set result \<union> set ?new" for g m
    using 1(2) by (cases "m \<in> set working") (auto simp: set_cte_new)
  show ?case
  proof (cases "?new = []")
    case True
    then show ?thesis using closed by (simp add: cte_loop.simps [of ms working result])
  next
    case False
    have "\<forall>m \<in> set (result @ ?new) - set ?new. \<forall>g. (g, m) \<in> set ms \<longrightarrow> g \<in> set (result @ ?new)"
      using closed by auto
    with 1(1) [OF refl False] False show ?thesis
      by (simp add: cte_loop.simps [of ms working result] Let_def)
  qed
qed

lemma set_cte: "set (cte ms seed) = {g. \<exists>s \<in> set seed. member_of ms s g}"
proof
  show "set (cte ms seed) \<subseteq> {g. \<exists>s \<in> set seed. member_of ms s g}"
    using cte_loop_sound [of seed "set seed" ms seed] member_of.self by (auto simp: cte_def)
  have c: "set seed \<subseteq> set (cte ms seed)" "m \<in> set (cte ms seed) \<Longrightarrow> (g, m) \<in> set ms \<Longrightarrow> g \<in> set (cte ms seed)" for m g
    using cte_loop_complete [of seed seed ms] by (auto simp: cte_def)
  have "member_of ms s g \<Longrightarrow> s \<in> set seed \<Longrightarrow> g \<in> set (cte ms seed)" for s g
    by (induction rule: member_of.induct) (use c in auto)
  then show "{g. \<exists>s \<in> set seed. member_of ms s g} \<subseteq> set (cte ms seed)" by blast
qed

text \<open>The loop is the iteration of one round; every round but the last adds a group.\<close>

definition cte_round :: "(int \<times> int) list \<Rightarrow> int list \<times> int list \<Rightarrow> int list \<times> int list" where
  "cte_round ms = (\<lambda>(working, result). (cte_new ms working result, result @ cte_new ms working result))"

lemma cte_loop_rounds:
  "\<exists>n \<le> card (fst ` set ms - set result). snd ((cte_round ms ^^ n) (working, result)) = cte_loop ms working result \<and>
     fst ((cte_round ms ^^ Suc n) (working, result)) = []"
proof (induction ms working result rule: cte_loop.induct)
  case (1 ms working result)
  let ?new = "cte_new ms working result"
  have r: "cte_round ms (working, result) = (?new, result @ ?new)" by (simp add: cte_round_def)
  show ?case
  proof (cases "?new = []")
    case True
    then show ?thesis by (intro exI [of _ 0]) (simp add: r cte_loop.simps [of ms working result])
  next
    case False
    from 1 [OF refl False] obtain n where n: "n \<le> card (fst ` set ms - set (result @ ?new))"
      "snd ((cte_round ms ^^ n) (?new, result @ ?new)) = cte_loop ms ?new (result @ ?new)"
      "fst ((cte_round ms ^^ Suc n) (?new, result @ ?new)) = []" by blast
    have "(cte_round ms ^^ Suc k) (working, result) = (cte_round ms ^^ k) (?new, result @ ?new)" for k
      by (simp only: funpow_Suc_right o_apply r)
    moreover have "Suc n \<le> card (fst ` set ms - set result)" using n(1) cte_new_card [OF False] by simp
    moreover have "cte_loop ms working result = cte_loop ms ?new (result @ ?new)"
      using False by (simp add: cte_loop.simps [of ms working result] Let_def)
    ultimately show ?thesis using n(2,3) by (intro exI [of _ "Suc n"]) simp
  qed
qed

section \<open>The policy\<close>

text \<open>The policy of the package documentation, stated on memberships and grants.\<close>

definition holds_wildcard :: "authz_db \<Rightarrow> int \<Rightarrow> int list \<Rightarrow> bool" where
  "holds_wildcard D actor ops \<longleftrightarrow>
     (\<exists>g \<in> set (grants D). member_of (actor_members D) actor (g_actor g) \<and> g_operation g \<in> set ops \<and> g_target g = None)"

definition holds_grant_on :: "authz_db \<Rightarrow> int \<Rightarrow> int list \<Rightarrow> int \<Rightarrow> bool" where
  "holds_grant_on D actor ops x \<longleftrightarrow>
     (\<exists>g \<in> set (grants D). \<exists>t. member_of (actor_members D) actor (g_actor g) \<and> g_operation g \<in> set ops \<and>
        g_target g = Some t \<and> member_of (target_members D) x t)"

definition type_entity_of :: "authz_db \<Rightarrow> int \<Rightarrow> int \<Rightarrow> bool" where
  "type_entity_of D typeID te \<longleftrightarrow> (\<exists>t \<in> set (type_rows D). t_id t = typeID \<and> t_entity t = Some te)"

definition is_type_entity :: "authz_db \<Rightarrow> int \<Rightarrow> bool" where
  "is_type_entity D x \<longleftrightarrow> (\<exists>t \<in> set (type_rows D). t_entity t = Some x)"

definition may_access :: "authz_db \<Rightarrow> int \<Rightarrow> int list \<Rightarrow> int \<Rightarrow> bool" where
  "may_access D actor ops x \<longleftrightarrow>
     holds_grant_on D actor ops x \<or>
     (\<exists>e \<in> set (entities D). e_id e = x \<and> \<not> is_type_entity D x \<and>
        (\<exists>te. type_entity_of D (e_type e) te \<and> holds_grant_on D actor ops te)) \<or>
     (\<exists>e \<in> set (entities D). e_id e = x \<and> e_owner e = Some actor)"

lemma checkWildcardGrant_iff: "checkWildcardGrant D actor ops \<longleftrightarrow> holds_wildcard D actor ops"
  by (auto simp: checkWildcardGrant_def holds_wildcard_def ActorChain_def set_cte list_ex_iff)

lemma targeted_cte_iff:
  "targeted D (ActorChain D actor) (cte (target_members D) seed) ops \<longleftrightarrow> (\<exists>x \<in> set seed. holds_grant_on D actor ops x)"
  by (fastforce simp: targeted_def holds_grant_on_def ActorChain_def set_cte list_ex_iff split: option.splits)

lemma in_type_seed: "te \<in> set (type_seed D x) \<longleftrightarrow>
    (\<exists>e \<in> set (entities D). e_id e = x \<and> \<not> is_type_entity D x \<and> type_entity_of D (e_type e) te)"
  by (auto simp: type_seed_def is_type_entity_def type_entity_of_def list_ex_iff split: option.splits)
     (force split: option.splits)+

lemma checkGrantOrOwn_iff: "checkGrantOrOwn D actor x ops \<longleftrightarrow> may_access D actor ops x"
proof -
  have "(\<exists>y \<in> set (type_seed D x). holds_grant_on D actor ops y) \<longleftrightarrow>
    (\<exists>e \<in> set (entities D). e_id e = x \<and> \<not> is_type_entity D x \<and>
        (\<exists>te. type_entity_of D (e_type e) te \<and> holds_grant_on D actor ops te))"
    unfolding Bex_def in_type_seed by blast
  then show ?thesis
    by (simp add: checkGrantOrOwn_def may_access_def TargetChain_def targeted_cte_iff list_ex_iff)
qed

lemma checkTypeGrant_iff:
  "checkTypeGrant D actor typeID ops \<longleftrightarrow> (\<exists>te. type_entity_of D typeID te \<and> holds_grant_on D actor ops te)"
  unfolding checkTypeGrant_def TypeChain_def targeted_cte_iff
  by (auto simp: type_entity_of_def split: option.splits) (force split: option.splits)+

lemma type_entity_of_le0: "(\<And>t. t \<in> set (type_rows D) \<Longrightarrow> 0 < t_id t) \<Longrightarrow> typeID \<le> 0 \<Longrightarrow> \<not> type_entity_of D typeID te"
  by (force simp: type_entity_of_def)

section \<open>Properties\<close>

text \<open>
  C34. The recursive membership queries always end, with cyclic groups too: after at most as many
  rounds as there are groups a round adds nothing, and the result then holds exactly the groups
  that contain a seed element directly or through other groups.
\<close>

theorem membership_query_terminates:
  "\<exists>n \<le> card (fst ` set ms).
     snd ((cte_round ms ^^ n) (seed, seed)) = cte ms seed \<and> fst ((cte_round ms ^^ Suc n) (seed, seed)) = [] \<and>
     set (cte ms seed) = {g. \<exists>s \<in> set seed. member_of ms s g}"
proof -
  have "card (fst ` set ms - set seed) \<le> card (fst ` set ms)" by (rule card_mono) auto
  with cte_loop_rounds [of ms seed seed] show ?thesis unfolding cte_def [symmetric] set_cte by (meson order_trans)
qed

text \<open>
  C19. The authorizer implements the documented policy: the recursive queries compute exactly group
  membership (and always terminate), and an operation on an entity is allowed exactly if the
  effective actor, directly or through its groups, holds a wildcard grant for an operation that
  implies it, or a grant on the entity, on one of its groups or on the entity of its exact type, or
  owns the entity; without a target only the wildcard counts; an unknown operation needs a
  wildcard \<open>manage\<close>. A failed query is never taken for permission.
\<close>

theorem Authorize_refines_policy:
  "Authorize satisfiedBy flt D ctx op target = None \<longleftrightarrow>
    \<not> flt 0 \<and>
    (\<exists>actor. effectiveActor ctx = Some actor \<and>
      (case satisfiedBy op of
         None \<Rightarrow> (\<exists>ops. satisfiedBy ''manage'' = Some ops \<and> holds_wildcard D actor ops)
       | Some ops \<Rightarrow> holds_wildcard D actor ops \<or> \<not> flt 1 \<and> (\<exists>x. target = Some x \<and> may_access D actor ops x)))"
  by (auto simp: Authorize_def authorizePrelude_def checkWildcardGrant_iff checkGrantOrOwn_iff
      split: option.splits)

text \<open>
  Type-level checks: creating or listing a type needs a wildcard grant or a grant on the entity of
  exactly that type; a non-positive type identifier is refused even to a wildcard holder; and the
  answer does not depend on who owns or holds grants over the unrelated entity whose identifier
  happens to equal the type's: changing all entity rows changes nothing.
\<close>

theorem AuthorizeType_refines_policy:
  "(AuthorizeType satisfiedBy flt D ctx op typeID = None \<longleftrightarrow>
     0 < typeID \<and> \<not> flt 0 \<and>
     (\<exists>actor. effectiveActor ctx = Some actor \<and>
       (case satisfiedBy op of
          None \<Rightarrow> (\<exists>ops. satisfiedBy ''manage'' = Some ops \<and> holds_wildcard D actor ops)
        | Some ops \<Rightarrow> holds_wildcard D actor ops \<or>
            \<not> flt 1 \<and> (\<exists>te. type_entity_of D typeID te \<and> holds_grant_on D actor ops te)))) \<and>
   AuthorizeType satisfiedBy flt (D\<lparr>entities := es\<rparr>) ctx op typeID = AuthorizeType satisfiedBy flt D ctx op typeID"
proof -
  have same: "holds_wildcard (D\<lparr>entities := es\<rparr>) = holds_wildcard D" "holds_grant_on (D\<lparr>entities := es\<rparr>) = holds_grant_on D"
    "type_entity_of (D\<lparr>entities := es\<rparr>) = type_entity_of D"
    by (intro ext, simp add: holds_wildcard_def holds_grant_on_def type_entity_of_def)+
  show ?thesis
    by (auto simp: AuthorizeType_def authorizePrelude_def checkWildcardGrant_iff checkTypeGrant_iff same
        split: option.splits)
qed

text \<open>
  Assuming an identity swaps authority, it never adds any: with an assumed user on the context,
  every decision is exactly the one the assumed user would get, whoever the administrator is;
  so an administrator's own grants do not leak into an assumed session.
\<close>

theorem assumed_authority:
  assumes "uc_AssumedUser uc = Some a"
  shows "Authorize satisfiedBy flt D (contextWithAuthenticatedActor empty_ctx uc) op target =
      Authorize satisfiedBy flt D (empty_ctx\<lparr>ctx_actor := Some (as_EntityID a)\<rparr>) op target \<and>
    AuthorizeType satisfiedBy flt D (contextWithAuthenticatedActor empty_ctx uc) op typeID =
      AuthorizeType satisfiedBy flt D (empty_ctx\<lparr>ctx_actor := Some (as_EntityID a)\<rparr>) op typeID"
proof -
  have "effectiveActor (contextWithAuthenticatedActor empty_ctx uc) = Some (as_EntityID a)"
    "effectiveActor (empty_ctx\<lparr>ctx_actor := Some (as_EntityID a)\<rparr>) = Some (as_EntityID a)"
    using assms by (simp_all add: effectiveActor_def contextWithAuthenticatedActor_def empty_ctx_def Let_def)
  then show ?thesis by (simp add: Authorize_def AuthorizeType_def authorizePrelude_def)
qed

theorem assumed_authority_witness:
  "\<exists>uc. uc_AssumedUser uc = Some \<lparr>as_UserAccountID = 2, as_UserUUID = ''u2'', as_EntityID = 8, as_Email = []\<rparr> \<and>
     Authorize (\<lambda>_. Some [1]) (\<lambda>_. False)
       \<lparr>actor_members = [], target_members = [], grants = [\<lparr>g_actor = 7, g_operation = 1, g_target = None\<rparr>],
        entities = [], type_rows = []\<rparr>
       (contextWithAuthenticatedActor empty_ctx uc) ''read'' None = Some ErrForbidden"
proof -
  let ?a = "\<lparr>as_UserAccountID = 2, as_UserUUID = ''u2'', as_EntityID = 8, as_Email = []\<rparr>"
  let ?uc = "\<lparr>uc_UserAccountID = 1, uc_UserUUID = ''u1'', uc_EntityID = 7, uc_Email = [], uc_EmailVerifiedAt = None,
     uc_AssumedUser = Some ?a, uc_AppID = None, uc_AppRoles = []\<rparr>"
  let ?D = "\<lparr>actor_members = [], target_members = [], grants = [\<lparr>g_actor = 7, g_operation = 1, g_target = None\<rparr>],
        entities = [], type_rows = []\<rparr>"
  have chain: "ActorChain ?D 8 = [8]"
    by (simp add: ActorChain_def cte_def cte_loop.simps cte_new_def)
  have "Authorize (\<lambda>_. Some [1]) (\<lambda>_. False) ?D (empty_ctx\<lparr>ctx_actor := Some 8\<rparr>) ''read'' None = Some ErrForbidden"
    by (simp add: Authorize_def authorizePrelude_def effectiveActor_def empty_ctx_def checkWildcardGrant_def chain)
  with assumed_authority [of ?uc ?a "\<lambda>_. Some [1]" "\<lambda>_. False" ?D "''read''" None] show ?thesis
    by (intro exI [of _ ?uc]) simp
qed

end
