(* ===== verification/UserAccounts.thy ===== *)
theory UserAccounts
  imports Authz
begin

text \<open>
  Administration of accounts: \<open>service/user_accounts.go\<close>, and the handlers \<open>handlers/assume.go\<close> and
  \<open>handlers/auth/anonymous.go\<close> on top of it.

  A service method first authorizes, then runs its writes in one transaction, then reports to
  the observers. The authorizer is the interface \<open>authorizer\<close> below, interpreted on the model of
  \<open>authz.go\<close>. The core module's part (creating, renaming and archiving a person) is a record of
  functions over its state. An error of a statement inside a transaction aborts it: also where the
  code ignores the error, the commit then fails, so the old database stays.
\<close>

section \<open>Types\<close>

datatype svc_error =
    SvcAuthz authz_error
  | SvcInvalid string string
  | SvcEmailTaken
  | SvcNotFound
  | SvcFault

text \<open>The status \<open>apiresp.WriteError\<close> gives an error.\<close>

fun http_status :: "svc_error \<Rightarrow> nat" where
  "http_status (SvcAuthz ErrUnauthenticated) = 401"
| "http_status (SvcAuthz ErrForbidden) = 403"
| "http_status (SvcAuthz AuthzFault) = 500"
| "http_status (SvcInvalid _ _) = 400"
| "http_status SvcEmailTaken = 409"
| "http_status SvcNotFound = 404"
| "http_status SvcFault = 500"

record SvcUserAccount =
  su_ID :: int
  su_UUID :: string
  su_AccountHolder :: int
  su_Email :: "string option"
  su_IsAnonymous :: bool
  su_EmailVerified :: bool
  su_GivenName :: string
  su_FamilyName :: string
  su_EntityKind :: string
  su_CreatedAt :: instant

definition toUserAccount :: "UserAccount \<Rightarrow> string \<Rightarrow> string \<Rightarrow> SvcUserAccount" where
  "toUserAccount ua givenName familyName =
     \<lparr>su_ID = ua_ID ua, su_UUID = ua_Uuid ua, su_AccountHolder = ua_AccountHolder ua, su_Email = ua_Email ua,
      su_IsAnonymous = (ua_Email ua = None), su_EmailVerified = (ua_EmailVerifiedAt ua \<noteq> None),
      su_GivenName = givenName, su_FamilyName = familyName, su_EntityKind = [], su_CreatedAt = ua_CreatedAt ua\<rparr>"

text \<open>The core module: creation in a transaction, names of a person, the entity of a holder.\<close>

record 'c person_ops =
  CreateInTx :: "'c \<Rightarrow> string \<Rightarrow> string \<Rightarrow> (int \<times> 'c) query"
  GetNaturalPersonByEntityID :: "'c \<Rightarrow> int \<Rightarrow> (string option \<times> string option) query"
  UpdateNaturalPerson :: "'c \<Rightarrow> int \<Rightarrow> string option \<Rightarrow> string option \<Rightarrow> 'c query"
  GetEntityByID :: "'c \<Rightarrow> int \<Rightarrow> string query"
  ArchiveEntity :: "'c \<Rightarrow> string \<Rightarrow> 'c query"

type_synonym authorize = "req_ctx \<Rightarrow> string \<Rightarrow> int option \<Rightarrow> authz_error option"
type_synonym authorize_type = "req_ctx \<Rightarrow> string \<Rightarrow> int \<Rightarrow> authz_error option"

record 'c UserAccountService =
  us_az :: "authorize option"
  us_azType :: "authorize_type option"
  us_natural_person :: int
  us_core :: "'c person_ops"
  us_hashPw :: "string \<Rightarrow> string option"

section \<open>Authorization\<close>

text \<open>
  \<open>authorizeType\<close>: the type-level check if the authorizer has one, else the check without a target.
  (The authorizer of a service whose type-level check is used is never nil.)
\<close>

definition authorizeType :: "'c UserAccountService \<Rightarrow> req_ctx \<Rightarrow> string \<Rightarrow> int \<Rightarrow> authz_error option" where
  "authorizeType S ctx op typeID =
     (case us_azType S of
        Some azt \<Rightarrow> azt ctx op typeID
      | None \<Rightarrow>
          if typeID \<le> 0 then Some ErrForbidden
          else (case us_az S of Some az \<Rightarrow> az ctx op None | None \<Rightarrow> Some ErrForbidden))"

definition AuthorizeCreate :: "'c UserAccountService \<Rightarrow> req_ctx \<Rightarrow> authz_error option" where
  "AuthorizeCreate S ctx = authorizeType S ctx ''create'' (us_natural_person S)"

definition authorizeUserAccount ::
  "'c UserAccountService \<Rightarrow> faults \<Rightarrow> 'c db \<Rightarrow> req_ctx \<Rightarrow> string \<Rightarrow> string \<Rightarrow> (svc_error, UserAccount) result" where
  "authorizeUserAccount S flt d ctx op uuid =
     (if effectiveActor ctx = None then Inl (SvcAuthz ErrUnauthenticated)
      else
        (case us_az S of
           None \<Rightarrow> Inl (SvcAuthz ErrForbidden)
         | Some az \<Rightarrow>
             (case at flt 0 (GetUserAccountByUUID d uuid) of
                Inl NoRows \<Rightarrow> Inl (SvcAuthz ErrForbidden)
              | Inl _ \<Rightarrow> Inl SvcFault
              | Inr ua \<Rightarrow>
                  (case az ctx op (Some (ua_AccountHolder ua)) of
                     Some e \<Rightarrow> Inl (SvcAuthz e)
                   | None \<Rightarrow> Inr ua))))"

section \<open>Creation\<close>

definition isEmailTakenViolation :: "db_error \<Rightarrow> bool" where
  "isEmailTakenViolation e \<longleftrightarrow> e = UniqueViolation ''user_accounts_email_key''"

definition tx_result :: "db_error \<Rightarrow> svc_error" where
  "tx_result e = (if isEmailTakenViolation e then SvcEmailTaken else SvcFault)"

record CreateUserAccountInput =
  ci_Email :: string
  ci_Password :: "string option"
  ci_GivenName :: string
  ci_FamilyName :: string

definition create_account_checks :: "CreateUserAccountInput \<Rightarrow> svc_error option" where
  "create_account_checks inp =
     (if canonical_email (ci_Email inp) = [] then Some (SvcInvalid ''email'' ''users.email_required'')
      else if TrimSpace (ci_GivenName inp) = [] then Some (SvcInvalid ''given_name'' ''users.given_name_required'')
      else if TrimSpace (ci_FamilyName inp) = [] then Some (SvcInvalid ''family_name'' ''users.family_name_required'')
      else if (case ci_Password inp of None \<Rightarrow> False | Some pw \<Rightarrow> length pw < 12)
        then Some (SvcInvalid ''password'' ''users.password_too_short'')
      else None)"

text \<open>Sites: 1 begin, 2 person, 3 account, 4 password, 5 observer, 6 commit.\<close>

definition Create ::
  "'c UserAccountService \<Rightarrow> faults \<Rightarrow> instant \<Rightarrow> string \<Rightarrow> 'c db \<Rightarrow> req_ctx \<Rightarrow> CreateUserAccountInput
     \<Rightarrow> (svc_error, SvcUserAccount) result \<times> 'c db \<times> events" where
  "Create S flt now uuid d ctx inp =
     (let fail = (\<lambda>e. (Inl e, d, [])) in
      case AuthorizeCreate S ctx of
        Some e \<Rightarrow> fail (SvcAuthz e)
      | None \<Rightarrow>
          (case create_account_checks inp of
             Some e \<Rightarrow> fail e
           | None \<Rightarrow>
               if flt 1 then fail SvcFault
               else
                 (case at flt 2 (CreateInTx (us_core S) (core d) (ci_GivenName inp) (ci_FamilyName inp)) of
                    Inl e \<Rightarrow> fail (tx_result e)
                  | Inr (entity, c') \<Rightarrow>
                      (case at flt 3 (CreateUserAccount (d\<lparr>core := c'\<rparr>) now uuid entity
                              (Some (canonical_email (ci_Email inp))) None) of
                         Inl e \<Rightarrow> fail (tx_result e)
                       | Inr (ua, d1) \<Rightarrow>
                           let stored = (case ci_Password inp of
                               None \<Rightarrow> Inr d1
                             | Some pw \<Rightarrow>
                                 (case us_hashPw S pw of
                                    None \<Rightarrow> Inl SvcFault
                                  | Some hash \<Rightarrow>
                                      (case at flt 4 (UpsertAuthLocal d1 now (ua_ID ua) hash) of
                                         Inl e \<Rightarrow> Inl (tx_result e)
                                       | Inr d2 \<Rightarrow> Inr d2)))
                           in (case stored of
                                 Inl e \<Rightarrow> fail e
                               | Inr d2 \<Rightarrow>
                                   if flt 5 \<or> flt 6 then fail SvcFault
                                   else (Inr (toUserAccount ua (ci_GivenName inp) (ci_FamilyName inp)), d2,
                                         [(''create'', ''user_account''), (''create'', ''natural_person'')]))))))"

section \<open>Guest accounts\<close>

definition anon_ttl :: int where
  "anon_ttl = 30 * 24 * 3600 * second"

definition default_name :: "string \<Rightarrow> string \<Rightarrow> string" where
  "default_name placeholder name = (if TrimSpace name = [] then placeholder else name)"

text \<open>
  The result has the raw session token; the database has its hash. \<open>rnd\<close> is what the random source
  delivers. Sites: 1 begin, 2 person, 3 account, 4 token, 5 observer, 6 commit.
\<close>

definition CreateAnonymousUser ::
  "(string \<Rightarrow> string) \<Rightarrow> string option \<Rightarrow> 'c UserAccountService \<Rightarrow> faults \<Rightarrow> instant \<Rightarrow> string \<Rightarrow> string \<Rightarrow> 'c db
     \<Rightarrow> string \<Rightarrow> string \<Rightarrow> string \<Rightarrow> (svc_error, SvcUserAccount \<times> AnonToken \<times> string) result \<times> 'c db" where
  "CreateAnonymousUser sha256 rnd S flt now uuid tuuid d device given family =
     (let fail = (\<lambda>e. (Inl e, d)) in
      if TrimSpace device = [] then fail (SvcInvalid ''device_id'' ''users.device_id_required'')
      else if flt 1 then fail SvcFault
      else
        (case at flt 2 (CreateInTx (us_core S) (core d) (default_name ''Anonymous'' given) (default_name ''User'' family)) of
           Inl _ \<Rightarrow> fail SvcFault
         | Inr (entity, c') \<Rightarrow>
             (case at flt 3 (CreateUserAccount (d\<lparr>core := c'\<rparr>) now uuid entity None None) of
                Inl _ \<Rightarrow> fail SvcFault
              | Inr (ua, d1) \<Rightarrow>
                  (case rnd of
                     None \<Rightarrow> fail SvcFault
                   | Some raw \<Rightarrow>
                       let plain = hex_encode raw in
                       (case at flt 4 (CreateAnonToken d1 now tuuid device (hex_encode (sha256 plain)) (ua_ID ua) (now + anon_ttl)) of
                          Inl _ \<Rightarrow> fail SvcFault
                        | Inr (row, d2) \<Rightarrow>
                            if flt 5 \<or> flt 6 then fail SvcFault
                            else (Inr (toUserAccount ua given family, row, plain), d2))))))"

section \<open>Reading\<close>

definition list_limit :: "int \<Rightarrow> nat" where
  "list_limit limit = (if limit \<le> 0 then 20 else if limit > 200 then 200 else nat limit)"

definition List ::
  "'c UserAccountService \<Rightarrow> faults \<Rightarrow> 'c db \<Rightarrow> req_ctx \<Rightarrow> string \<Rightarrow> int \<Rightarrow> int \<Rightarrow> (svc_error, SvcUserAccount list) result" where
  "List S flt d ctx search limit offset =
     (case authorizeType S ctx ''list'' (us_natural_person S) of
        Some e \<Rightarrow> Inl (SvcAuthz e)
      | None \<Rightarrow>
          if flt 1 then Inl SvcFault
          else Inr (map (\<lambda>ua. toUserAccount ua [] [])
                 (SearchUserAccounts d search (list_limit limit) (nat (max 0 offset)))))"

definition Get ::
  "'c UserAccountService \<Rightarrow> faults \<Rightarrow> 'c db \<Rightarrow> req_ctx \<Rightarrow> string \<Rightarrow> (svc_error, SvcUserAccount) result" where
  "Get S flt d ctx uuid =
     (case authorizeUserAccount S flt d ctx ''read'' uuid of
        Inl e \<Rightarrow> Inl e
      | Inr ua \<Rightarrow>
          (case at flt 1 (GetNaturalPersonByEntityID (us_core S) (core d) (ua_AccountHolder ua)) of
             Inl _ \<Rightarrow> Inr (toUserAccount ua [] [])
           | Inr (given, family) \<Rightarrow>
               Inr ((toUserAccount ua (text_String given) (text_String family))\<lparr>su_EntityKind := ''natural_person''\<rparr>)))"

section \<open>Update\<close>

record UpdateUserAccountInput =
  ui_Email :: "string option"
  ui_GivenName :: "string option"
  ui_FamilyName :: "string option"

definition blank :: "string option \<Rightarrow> bool" where
  "blank f = (case f of None \<Rightarrow> False | Some s \<Rightarrow> TrimSpace s = [])"

definition update_account_checks :: "UpdateUserAccountInput \<Rightarrow> svc_error option" where
  "update_account_checks inp =
     (if blank (ui_Email inp) then Some (SvcInvalid ''email'' ''users.email_required'')
      else if blank (ui_GivenName inp) then Some (SvcInvalid ''given_name'' ''users.given_name_required'')
      else if blank (ui_FamilyName inp) then Some (SvcInvalid ''family_name'' ''users.family_name_required'')
      else None)"

text \<open>The new names in the transaction: a person that does not exist is left alone.\<close>

definition update_names ::
  "'c UserAccountService \<Rightarrow> faults \<Rightarrow> 'c db \<Rightarrow> int \<Rightarrow> UpdateUserAccountInput \<Rightarrow> 'c db query" where
  "update_names S flt d holder inp =
     (if ui_GivenName inp = None \<and> ui_FamilyName inp = None then Inr d
      else
        (case at flt 4 (GetNaturalPersonByEntityID (us_core S) (core d) holder) of
           Inl NoRows \<Rightarrow> Inr d
         | Inl e \<Rightarrow> Inl e
         | Inr (gn, fn) \<Rightarrow>
             (case at flt 5 (UpdateNaturalPerson (us_core S) (core d) holder
                     (if ui_GivenName inp \<noteq> None then ui_GivenName inp else gn)
                     (if ui_FamilyName inp \<noteq> None then ui_FamilyName inp else fn)) of
                Inl e \<Rightarrow> Inl e
              | Inr c' \<Rightarrow> Inr (d\<lparr>core := c'\<rparr>))))"

definition new_email :: "UpdateUserAccountInput \<Rightarrow> UserAccount \<Rightarrow> string option" where
  "new_email inp ua = (case ui_Email inp of None \<Rightarrow> ua_Email ua | Some e \<Rightarrow> Some (canonical_email e))"

text \<open>A guest that gets an e-mail address loses its guest tokens.\<close>

definition upgrade :: "UserAccount \<Rightarrow> string option \<Rightarrow> 'c db \<Rightarrow> 'c db" where
  "upgrade ua email d =
     (if ua_Email ua = None \<and> email \<noteq> None then DeleteAnonTokensByUserAccountID d (ua_ID ua) else d)"

text \<open>Sites: 0 load, 1 begin, 2 update, 3 guest tokens, 4 and 5 names, 6 reload, 7 observer, 8 commit.\<close>

definition Update ::
  "'c UserAccountService \<Rightarrow> faults \<Rightarrow> instant \<Rightarrow> 'c db \<Rightarrow> req_ctx \<Rightarrow> string \<Rightarrow> UpdateUserAccountInput
     \<Rightarrow> (svc_error, SvcUserAccount) result \<times> 'c db" where
  "Update S flt now d ctx uuid inp =
     (case authorizeUserAccount S flt d ctx ''update'' uuid of
        Inl e \<Rightarrow> (Inl e, d)
      | Inr ua \<Rightarrow>
          (case update_account_checks inp of
             Some e \<Rightarrow> (Inl e, d)
           | None \<Rightarrow>
               if flt 1 then (Inl SvcFault, d)
               else
                 (case at flt 2 (UpdateUserAccount d now (ua_ID ua) (new_email inp ua) (ua_EmailVerifiedAt ua)) of
                    Inl e \<Rightarrow> (Inl (tx_result e), d)
                  | Inr d1 \<Rightarrow>
                      if ua_Email ua = None \<and> new_email inp ua \<noteq> None \<and> flt 3 then (Inl SvcFault, d)
                      else
                        (case update_names S flt (upgrade ua (new_email inp ua) d1) (ua_AccountHolder ua) inp of
                           Inl e \<Rightarrow> (Inl (tx_result e), d)
                         | Inr d3 \<Rightarrow>
                             if flt 6 \<or> flt 7 \<or> flt 8 then (Inl SvcFault, d)
                             else
                               (Inr (toUserAccount
                                  (case GetUserAccountByID d3 (ua_ID ua) of
                                     Inr updated \<Rightarrow> updated
                                   | Inl _ \<Rightarrow> ua\<lparr>ua_Email := new_email inp ua\<rparr>) [] []), d3)))))"

section \<open>Deletion, login records, assuming an identity\<close>

text \<open>Sites: 0 load, 1 begin, 2 entity, 3 archive, 4 observer, 5 commit.\<close>

definition Delete ::
  "'c UserAccountService \<Rightarrow> faults \<Rightarrow> 'c db \<Rightarrow> req_ctx \<Rightarrow> string \<Rightarrow> svc_error option \<times> 'c db" where
  "Delete S flt d ctx uuid =
     (case authorizeUserAccount S flt d ctx ''delete'' uuid of
        Inl e \<Rightarrow> (Some e, d)
      | Inr ua \<Rightarrow>
          if flt 1 then (Some SvcFault, d)
          else
            (case at flt 2 (GetEntityByID (us_core S) (core d) (ua_AccountHolder ua)) of
               Inl _ \<Rightarrow> (Some SvcFault, d)
             | Inr euuid \<Rightarrow>
                 (case at flt 3 (ArchiveEntity (us_core S) (core d) euuid) of
                    Inl _ \<Rightarrow> (Some SvcFault, d)
                  | Inr c' \<Rightarrow> if flt 4 \<or> flt 5 then (Some SvcFault, d) else (None, d\<lparr>core := c'\<rparr>))))"

definition RecordLogin ::
  "'c UserAccountService \<Rightarrow> faults \<Rightarrow> 'c db \<Rightarrow> req_ctx \<Rightarrow> int \<Rightarrow> svc_error option \<times> events" where
  "RecordLogin S flt d ctx accountID =
     (case at flt 0 (GetUserAccountByID d accountID) of
        Inl NoRows \<Rightarrow> (Some SvcNotFound, [])
      | Inl _ \<Rightarrow> (Some SvcFault, [])
      | Inr ua \<Rightarrow>
          (case us_az S of
             None \<Rightarrow> (Some SvcFault, [])
           | Some az \<Rightarrow>
               (case az (ctx\<lparr>ctx_actor := Some (ua_AccountHolder ua)\<rparr>) ''login'' (Some (ua_AccountHolder ua)) of
                  Some e \<Rightarrow> (Some (SvcAuthz e), [])
                | None \<Rightarrow> if flt 1 then (Some SvcFault, []) else (None, [(''login'', ''user_account'')]))))"

text \<open>The administrator's account and the assumed account, with the audit event.\<close>

definition Assume ::
  "'c UserAccountService \<Rightarrow> faults \<Rightarrow> 'c db \<Rightarrow> req_ctx \<Rightarrow> string \<Rightarrow> (svc_error, UserAccount \<times> UserAccount) result \<times> events" where
  "Assume S flt d ctx targetUUID =
     (case authorizeUserAccount S flt d ctx ''assume'' targetUUID of
        Inl e \<Rightarrow> (Inl e, [])
      | Inr actorUA \<Rightarrow>
          (case effectiveActor ctx of
             None \<Rightarrow> (Inl (SvcAuthz ErrUnauthenticated), [])
           | Some actor \<Rightarrow>
               (case at flt 1 (GetUserAccountByAccountHolder d actor) of
                  Inl NoRows \<Rightarrow> (Inl SvcNotFound, [])
                | Inl _ \<Rightarrow> (Inl SvcFault, [])
                | Inr sudoUA \<Rightarrow>
                    if flt 2 then (Inl SvcFault, []) else (Inr (sudoUA, actorUA), [(''assume'', ''user_account'')]))))"

section \<open>Handlers\<close>

text \<open>\<open>AssumeHandler.Assume\<close>: the token for the assumed session and the account shown to the client.\<close>

definition assume_jwtSigner :: "string \<Rightarrow> Signer option \<Rightarrow> (jwt_error, Signer) result" where
  "assume_jwtSigner jwtSecret signer = (case signer of Some s \<Rightarrow> Inr s | None \<Rightarrow> NewHS256Signer jwtSecret [])"

definition AssumeHandler_Assume ::
  "(string \<Rightarrow> string option) \<Rightarrow> jwt_lib \<Rightarrow> string \<Rightarrow> Signer option \<Rightarrow> string \<Rightarrow> 'c UserAccountService \<Rightarrow> faults \<Rightarrow> instant
     \<Rightarrow> 'c db \<Rightarrow> req_ctx \<Rightarrow> string \<Rightarrow> (svc_error, string \<times> UserAccount) result" where
  "AssumeHandler_Assume uuid_Parse jwt_sign jwtSecret signer issuer S flt now d ctx param =
     (case uuid_Parse param of
        None \<Rightarrow> Inl (SvcInvalid ''uuid'' ''invalid_uuid'')
      | Some uuid \<Rightarrow>
          (case fst (Assume S flt d ctx uuid) of
             Inl e \<Rightarrow> Inl e
           | Inr (sudoUA, actorUA) \<Rightarrow>
               (case assume_jwtSigner jwtSecret signer of
                  Inl _ \<Rightarrow> Inl SvcFault
                | Inr s \<Rightarrow>
                    (case IssueAssumeJWTWithSigner jwt_sign (ua_Uuid sudoUA) (ua_Uuid actorUA) (Some s) issuer now of
                       Inl _ \<Rightarrow> Inl SvcFault
                     | Inr token \<Rightarrow> Inr (token, actorUA)))))"

text \<open>\<open>Anonymous\<close>: the session of a new guest account; the answer has the token and the session token.\<close>

definition Anonymous ::
  "(string \<Rightarrow> string) \<Rightarrow> string option \<Rightarrow> jwt_lib \<Rightarrow> Handler \<Rightarrow> 'c UserAccountService \<Rightarrow> faults \<Rightarrow> instant \<Rightarrow> string \<Rightarrow> string
     \<Rightarrow> 'c db \<Rightarrow> string \<Rightarrow> (svc_error, string \<times> string \<times> string) result \<times> 'c db" where
  "Anonymous sha256 rnd jwt_sign h S flt now uuid tuuid d device =
     (if device = [] then (Inl (SvcInvalid ''device_id'' ''users.device_id_required''), d)
      else
        (case CreateAnonymousUser sha256 rnd S flt now uuid tuuid d device [] [] of
           (Inl e, d') \<Rightarrow> (Inl e, d')
         | (Inr (ua, row, plain), d') \<Rightarrow>
             (case (case jwtSigner h of
                      Inl e \<Rightarrow> Inl e
                    | Inr s \<Rightarrow> IssueAnonymousJWTWithSigner jwt_sign (su_UUID ua) (Some s) (h_issuer h) now) of
                Inl _ \<Rightarrow> (Inl SvcFault, d')
              | Inr token \<Rightarrow> (Inr (token, plain, su_UUID ua), d'))))"

section \<open>The authorizer as an interface\<close>

text \<open>
  What the service relies on: without an effective actor the answer is \<open>ErrUnauthenticated\<close>, the
  decision depends on the effective actor alone, and a type-level permission is for a real type.
\<close>

locale authorizer =
  fixes az :: authorize and azt :: authorize_type
  assumes no_actor: "effectiveActor ctx = None \<Longrightarrow> az ctx op t = Some ErrUnauthenticated"
    and no_actor_type: "effectiveActor ctx = None \<Longrightarrow> azt ctx op i = Some ErrUnauthenticated"
    and same_actor: "effectiveActor ctx = effectiveActor ctx' \<Longrightarrow> az ctx op t = az ctx' op t \<and> azt ctx op i = azt ctx' op i"
    and real_type: "azt ctx op i = None \<Longrightarrow> 0 < i"
begin

definition wired :: "'c UserAccountService \<Rightarrow> bool" where
  "wired S \<longleftrightarrow> us_az S = Some az \<and> us_azType S = Some azt"

lemma create_needs: "wired S \<Longrightarrow> AuthorizeCreate S ctx = azt ctx ''create'' (us_natural_person S)"
  by (simp add: wired_def AuthorizeCreate_def authorizeType_def)

lemma list_needs: "wired S \<Longrightarrow> authorizeType S ctx op i = azt ctx op i"
  by (simp add: wired_def authorizeType_def)

text \<open>Access to one account: exactly for an existing account whose holder the actor may access.\<close>

lemma account_Inr:
  "wired S \<Longrightarrow> authorizeUserAccount S flt d ctx op uuid = Inr ua \<longleftrightarrow>
     \<not> flt 0 \<and> GetUserAccountByUUID d uuid = Inr ua \<and> az ctx op (Some (ua_AccountHolder ua)) = None \<and> effectiveActor ctx \<noteq> None"
  by (auto simp: wired_def authorizeUserAccount_def split: sum.splits db_error.splits option.splits)

text \<open>A missing account and a forbidden one give the same answer.\<close>

lemma account_masked:
  assumes "wired S" "\<not> flt 0" "effectiveActor ctx \<noteq> None"
    and "GetUserAccountByUUID d uuid = Inl NoRows \<or>
      (\<exists>ua. GetUserAccountByUUID d uuid = Inr ua \<and> az ctx op (Some (ua_AccountHolder ua)) = Some ErrForbidden)"
  shows "authorizeUserAccount S flt d ctx op uuid = Inl (SvcAuthz ErrForbidden)"
  using assms by (auto simp: wired_def authorizeUserAccount_def at_def)

lemma unauthenticated:
  assumes "wired S" "effectiveActor ctx = None"
  shows "authorizeUserAccount S flt d ctx op uuid = Inl (SvcAuthz ErrUnauthenticated)"
    and "AuthorizeCreate S ctx = Some ErrUnauthenticated"
    and "List S flt d ctx q l off = Inl (SvcAuthz ErrUnauthenticated)"
  using assms no_actor_type by (simp_all add: authorizeUserAccount_def create_needs List_def list_needs)

end

interpretation module_authz: authorizer "Authorize satisfiedBy flt D" "AuthorizeType satisfiedBy flt D"
  for satisfiedBy flt D
  by unfold_locales
    (auto simp: Authorize_def AuthorizeType_def authorizePrelude_def split: if_splits option.splits)

section \<open>Lemmas on the operations\<close>

lemma authorizeUserAccount_row:
  "authorizeUserAccount S flt d ctx op uuid = Inr ua \<Longrightarrow> ua \<in> set (user_accounts d) \<and> ua_Uuid ua = uuid"
  by (auto simp: authorizeUserAccount_def GetUserAccountByUUID_def dest!: find_SomeD
      split: if_splits option.splits sum.splits db_error.splits)

lemma Get_core [simp]: "GetUserAccountByEmail (d\<lparr>core := c\<rparr>) e = GetUserAccountByEmail d e"
  "GetAuthLocal (d\<lparr>core := c\<rparr>) i = GetAuthLocal d i" "GetUserAccountByUUID (d\<lparr>core := c\<rparr>) u = GetUserAccountByUUID d u"
  by (simp_all add: GetUserAccountByEmail_def GetAuthLocal_def GetUserAccountByUUID_def)

lemma buildUserContext_core [simp]: "buildUserContext P flt (d\<lparr>core := c\<rparr>) ua p = buildUserContext P flt d ua p"
  unfolding buildUserContext_def Get_core ..

lemma core_self: "\<exists>c. d = d\<lparr>core := c\<rparr>"
  by (rule exI [of _ "core d"]) simp

lemma update_names_frame: "update_names S flt d h inp = Inr d' \<Longrightarrow> \<exists>c. d' = d\<lparr>core := c\<rparr>"
  unfolding update_names_def
  by (auto split: if_splits sum.splits db_error.splits prod.splits simp: core_self)

lemma Update_Inr:
  assumes "Update S flt now d ctx uuid inp = (Inr su, d')"
  obtains ua d1 c where "authorizeUserAccount S flt d ctx ''update'' uuid = Inr ua"
    "update_account_checks inp = None"
    "UpdateUserAccount d now (ua_ID ua) (new_email inp ua) (ua_EmailVerifiedAt ua) = Inr d1"
    "d' = (upgrade ua (new_email inp ua) d1)\<lparr>core := c\<rparr>"
proof -
  obtain ua d1 d3 where "authorizeUserAccount S flt d ctx ''update'' uuid = Inr ua" "update_account_checks inp = None"
    "UpdateUserAccount d now (ua_ID ua) (new_email inp ua) (ua_EmailVerifiedAt ua) = Inr d1"
    "update_names S flt (upgrade ua (new_email inp ua) d1) (ua_AccountHolder ua) inp = Inr d3" "d' = d3"
    using assms unfolding Update_def by (auto split: if_splits sum.splits option.splits)
  with update_names_frame that show thesis by blast
qed

lemma Update_Inl: "Update S flt now d ctx uuid inp = (Inl e, d') \<Longrightarrow> d' = d"
  unfolding Update_def by (auto split: if_splits sum.splits option.splits)

lemma upgrade_frame [simp]: "user_accounts (upgrade ua e d) = user_accounts d" "auth_local (upgrade ua e d) = auth_local d"
  "auth_oidc_identities (upgrade ua e d) = auth_oidc_identities d" "core (upgrade ua e d) = core d"
  by (simp_all add: upgrade_def DeleteAnonTokensByUserAccountID_def)

lemma db_ok_upgrade: "db_ok d \<Longrightarrow> db_ok (upgrade ua e d)"
  by (simp add: upgrade_def DeleteAnonTokensByUserAccountID_def db_ok_anon_filter)

section \<open>Properties\<close>



text \<open>
  Deletion archives the holder's entity and nothing else: every account, password, identity and
  key stays, so the deleted account can still log in with its password and its session tokens
  still authenticate.
\<close>

theorem Delete_keeps_credentials:
  assumes "Delete S flt d ctx uuid = (r, d')"
  shows "(\<exists>c. d' = d\<lparr>core := c\<rparr>) \<and> (r \<noteq> None \<longrightarrow> d' = d) \<and>
    Login IDKey jwt_sign h lflt t d' body = Login IDKey jwt_sign h lflt t d body \<and>
    resolveLocal uuid_Parse lflt d' p = resolveLocal uuid_Parse lflt d p"
proof -
  obtain c where c: "d' = d\<lparr>core := c\<rparr>"
  proof -
    have "\<exists>c. d' = d\<lparr>core := c\<rparr>"
      using assms by (auto simp: Delete_def split: sum.splits if_splits simp: core_self)
    then show thesis using that by blast
  qed
  have "Login IDKey jwt_sign h lflt t d' body = Login IDKey jwt_sign h lflt t d body"
    "resolveLocal uuid_Parse lflt d' p = resolveLocal uuid_Parse lflt d p"
    unfolding c Login_def resolveLocal_def Get_core buildUserContext_core by (rule refl)+
  moreover have "r \<noteq> None \<longrightarrow> d' = d"
    using assms by (auto simp: Delete_def split: sum.splits if_splits)
  ultimately show ?thesis using c by blast
qed


section \<open>Examples\<close>

text \<open>
  An administrator (account 1, holder 7) with a wildcard grant, and a service over a core module that
  does nothing.
\<close>

definition demo_authz :: authz_db where
  "demo_authz = \<lparr>actor_members = [], target_members = [], grants = [\<lparr>g_actor = 7, g_operation = 1, g_target = None\<rparr>],
     entities = [], type_rows = []\<rparr>"

definition demo_person_ops :: "unit person_ops" where
  "demo_person_ops = \<lparr>CreateInTx = \<lambda>c _ _. Inr (8, c), GetNaturalPersonByEntityID = \<lambda>_ _. Inl NoRows,
     UpdateNaturalPerson = \<lambda>c _ _ _. Inr c, GetEntityByID = \<lambda>_ _. Inr ''e'', ArchiveEntity = \<lambda>c _. Inr c\<rparr>"

definition demo_service :: "unit UserAccountService" where
  "demo_service = \<lparr>us_az = Some (Authorize (\<lambda>_. Some [1]) (\<lambda>_. False) demo_authz),
     us_azType = Some (AuthorizeType (\<lambda>_. Some [1]) (\<lambda>_. False) demo_authz),
     us_natural_person = 3, us_core = demo_person_ops, us_hashPw = Some\<rparr>"

definition demo_ctx :: req_ctx where
  "demo_ctx = empty_ctx\<lparr>ctx_actor := Some 7\<rparr>"

lemma demo_actor [simp]: "effectiveActor demo_ctx = Some 7"
  by (simp add: demo_ctx_def empty_ctx_def effectiveActor_def)

lemma demo_admin [simp]:
  "Authorize (\<lambda>_. Some [1]) (\<lambda>_. False) demo_authz demo_ctx op t = None"
  "0 < i \<Longrightarrow> AuthorizeType (\<lambda>_. Some [1]) (\<lambda>_. False) demo_authz demo_ctx op i = None"
proof -
  have "checkWildcardGrant demo_authz 7 [1]"
    by (simp add: checkWildcardGrant_iff holds_wildcard_def demo_authz_def member_of.self)
  then show "Authorize (\<lambda>_. Some [1]) (\<lambda>_. False) demo_authz demo_ctx op t = None"
    "0 < i \<Longrightarrow> AuthorizeType (\<lambda>_. Some [1]) (\<lambda>_. False) demo_authz demo_ctx op i = None"
    by (simp_all add: Authorize_def AuthorizeType_def authorizePrelude_def)
qed

lemma demo_service_sel [simp]:
  "us_az demo_service = Some (Authorize (\<lambda>_. Some [1]) (\<lambda>_. False) demo_authz)"
  "us_azType demo_service = Some (AuthorizeType (\<lambda>_. Some [1]) (\<lambda>_. False) demo_authz)"
  "us_natural_person demo_service = 3" "us_core demo_service = demo_person_ops" "us_hashPw demo_service = Some"
  by (simp_all add: demo_service_def)

lemma demo_account:
  assumes "user_accounts d = [u]" "ua_Uuid u = ''u1''"
  shows "authorizeUserAccount demo_service (\<lambda>_. False) d demo_ctx op ''u1'' = Inr u"
  using assms by (simp add: authorizeUserAccount_def at_def GetUserAccountByUUID_def)



theorem Delete_keeps_credentials_witness:
  "\<exists>(d :: unit db) d'. Delete demo_service (\<lambda>_. False) d demo_ctx ''u1'' = (None, d') \<and>
     (\<exists>uc. resolveLocal Some (\<lambda>_. False) d' \<lparr>Subject = ''u1'', Issuer = ''urn:mod-users'', Email = [], EmailVerified = False,
        Roles = [], SudoUserUUID = []\<rparr> = Inr uc \<and> uc_UserAccountID uc = 1)"
proof -
  let ?p = "\<lparr>Subject = ''u1'', Issuer = ''urn:mod-users'', Email = [], EmailVerified = False, Roles = [], SudoUserUUID = []\<rparr>"
  obtain d :: "unit db" and u where d: "db_ok d" "user_accounts d = [u]" "ua_ID u = 1" "auth_oidc_identities d = []"
    "GetUserAccountByEmail d ''a@b'' = Inr u" "ua_EmailVerifiedAt u = Some 3" "ua_Uuid u = ''u1''" "ua_AccountHolder u = 7"
    by (rule resolver_demo)
  obtain d' where r: "Delete demo_service (\<lambda>_. False) d demo_ctx ''u1'' = (None, d')"
    using demo_account [OF d(2,7)] by (simp add: Delete_def at_def demo_person_ops_def)
  have "resolveLocal Some (\<lambda>_. False) d ?p = Inr (buildUserContext Some (\<lambda>_. False) d u ?p)"
    using d by (simp add: resolveLocal_def at_def GetUserAccountByUUID_def)
  moreover have "resolveLocal Some (\<lambda>_. False) d' ?p = resolveLocal Some (\<lambda>_. False) d ?p"
    using Delete_keeps_credentials [OF r] by blast
  ultimately show ?thesis using r d(3) by (intro exI [of _ d] exI [of _ d']) simp
qed


end
