(* ===== verification/OAuth.thy ===== *)
theory OAuth
  imports UserAccounts Providers StateSigner
begin

text \<open>
  Sign-in with an external identity provider: \<open>auth/oauth.go\<close> (the set of initialized providers,
  the authorization URL with its signed state, the exchange of the code) and
  \<open>handlers/auth/oidc.go\<close> (start, callback and link mode).

  The OIDC and OAuth2 libraries are the parameters \<open>discover\<close> (the endpoints of a provider),
  \<open>auth_code_url\<close>, \<open>token_exchange\<close> (the \<open>id_token\<close> of the answer, \<open>None\<close> inside when the
  answer has none) and \<open>verify_id\<close> (issuer, nonce and claims of a verified token). \<open>url.Parse\<close> is
  modelled for the rooted paths \<open>validateReturnPath\<close> hands to it; for the configured front-end URL
  it is the parameter \<open>parses\<close>, and a redirect to that URL is its query as a list of pairs.
\<close>

section \<open>Return paths\<close>

datatype oauth_error =
    NilConfig
  | NoStateKey jwt_error
  | BadStateKey state_error
  | RedirectBaseRequired
  | FrontendURLRequired
  | Discovery string
  | UnknownMapper claim_error
  | ErrUnknownProvider
  | ErrProviderNotAvailable
  | ErrStateValidation
  | ErrInvalidReturnPath
  | RandomFailed
  | TokenExchange
  | NoIDToken
  | VerifyIDToken
  | IssuerNotAccepted
  | NonceMismatch
  | ParseClaims
  | MapClaims claim_error

definition is_ctl :: "char \<Rightarrow> bool" where
  "is_ctl c \<longleftrightarrow> byte c < 32 \<or> byte c = 127"

definition is_hex_digit :: "char \<Rightarrow> bool" where
  "is_hex_digit c \<longleftrightarrow> is_ascii_digit c \<or> 97 \<le> byte c \<and> byte c \<le> 102 \<or> 65 \<le> byte c \<and> byte c \<le> 70"

fun escapes_ok :: "string \<Rightarrow> bool" where
  "escapes_ok [] = True"
| "escapes_ok (c # cs) =
     (if c = CHR ''%''
      then (case cs of a # b # r \<Rightarrow> is_hex_digit a \<and> is_hex_digit b \<and> escapes_ok r | _ \<Rightarrow> False)
      else escapes_ok cs)"

text \<open>
  \<open>url.Parse\<close> of a string that begins with one slash: scheme and host are empty; it fails on a
  control byte before the fragment and on a bad escape in the path or in the fragment.
\<close>

definition url_Parse_rooted :: "string \<Rightarrow> (string \<times> string) option" where
  "url_Parse_rooted raw =
     (let u = takeWhile (\<lambda>c. c \<noteq> CHR ''#'') raw;
          frag = drop (Suc (length u)) raw;
          path = takeWhile (\<lambda>c. c \<noteq> CHR ''?'') u
      in if (\<exists>c \<in> set u. is_ctl c) \<or> \<not> escapes_ok path \<or> \<not> escapes_ok frag then None else Some ([], []))"

definition validateReturnPath :: "string \<Rightarrow> (oauth_error, string) result" where
  "validateReturnPath raw =
     (if raw = [] then Inr ''/''
      else if \<not> HasPrefix raw ''/'' then Inl ErrInvalidReturnPath
      else if HasPrefix raw ''//'' then Inl ErrInvalidReturnPath
      else
        (case url_Parse_rooted raw of
           None \<Rightarrow> Inl ErrInvalidReturnPath
         | Some (scheme, host) \<Rightarrow>
             if scheme \<noteq> [] \<or> host \<noteq> [] then Inl ErrInvalidReturnPath else Inr raw))"

definition ValidateReturnPath :: "string \<Rightarrow> (oauth_error, unit) result" where
  "ValidateReturnPath raw = (case validateReturnPath raw of Inl e \<Rightarrow> Inl e | Inr _ \<Rightarrow> Inr ())"

section \<open>Providers\<close>

text \<open>\<open>^https://login\.microsoftonline\.com/[0-9a-f-]{36}/v2\.0$\<close>\<close>

definition isValidMicrosoftIssuer :: "string \<Rightarrow> bool" where
  "isValidMicrosoftIssuer iss \<longleftrightarrow>
     (let pre = ''https://login.microsoftonline.com/''; tenant = take 36 (drop (length pre) iss)
      in HasPrefix iss pre \<and> length tenant = 36 \<and>
         list_all (\<lambda>c. is_ascii_digit c \<or> 97 \<le> byte c \<and> byte c \<le> 102 \<or> c = CHR ''-'') tenant \<and>
         drop (length pre + 36) iss = ''/v2.0'')"

definition multiTenantDiscoveryIssuer :: string where
  "multiTenantDiscoveryIssuer = ''https://login.microsoftonline.com/{tenantid}/v2.0''"

definition stateTTL :: int where "stateTTL = 300 * second"

record oauth2_config =
  o2_ClientID :: string
  o2_ClientSecret :: string
  o2_Endpoint :: string
  o2_RedirectURL :: string
  o2_Scopes :: "string list"

text \<open>\<open>go-oidc\<close>'s verifier is determined by the provider, the client id and the issuer check.\<close>

record id_verifier =
  iv_Issuer :: string
  iv_ClientID :: string
  iv_SkipIssuerCheck :: bool

record IDToken =
  it_Issuer :: string
  it_Nonce :: string
  it_Claims :: "claims option"

type_synonym mapper = "claims \<Rightarrow> (claim_error, Principal) result"

text \<open>\<open>InitOK\<close> with the fields that are set only then: \<open>Inr\<close>; the error otherwise: \<open>Inl\<close>.\<close>

record ProviderState =
  ps_ID :: string
  ps_Provider :: Provider
  ps_Init :: "(oauth_error, id_verifier \<times> oauth2_config \<times> mapper) result"

record AuthConfig =
  ac_AdminRole :: string
  ac_FrontendReturnURL :: string
  ac_OAuthRedirectBaseURL :: string
  ac_CookiePath :: string
  ac_RequireStepUp :: bool

record OAuth =
  oa_States :: "(string \<times> ProviderState) list"
  oa_StateSigner :: StateSigner
  oa_FrontendReturnURL :: string
  oa_cfg :: "AuthConfig option"
  oa_envNoOIDCAccounts :: bool

record libs =
  discover :: "string option \<Rightarrow> string \<Rightarrow> string option"
  auth_code_url :: "oauth2_config \<Rightarrow> string \<Rightarrow> string \<Rightarrow> string"
  token_exchange :: "oauth2_config \<Rightarrow> string \<Rightarrow> string option option"
  verify_id :: "id_verifier \<Rightarrow> string \<Rightarrow> IDToken option"
  hmac :: "string \<Rightarrow> string \<Rightarrow> string"
  visit :: "string list \<Rightarrow> string list"

definition buildCallbackURL :: "string \<Rightarrow> string \<Rightarrow> string" where
  "buildCallbackURL base providerID =
     TrimRight (\<lambda>c. c = CHR ''/'') base @ ''/v1/auth/oidc/'' @ providerID @ ''/callback''"

definition initProvider :: "libs \<Rightarrow> AuthConfig \<Rightarrow> string \<Rightarrow> Provider \<Rightarrow> ProviderState" where
  "initProvider L cfg pid p =
     \<lparr>ps_ID = pid, ps_Provider = p,
      ps_Init =
        (case discover L (if pr_MultiTenantIssuer p then Some multiTenantDiscoveryIssuer else None) (pr_IssuerURL p) of
           None \<Rightarrow> Inl (Discovery pid)
         | Some endpoint \<Rightarrow>
             (case NewClaimMapper (visit L) (pr_ClaimStyle p)
                     \<lparr>AdminRole = ac_AdminRole cfg, RolesNamespace = [], RolesPath = [], EmailPath = []\<rparr> of
                Inl e \<Rightarrow> Inl (UnknownMapper e)
              | Inr mp \<Rightarrow>
                  Inr (\<lparr>iv_Issuer = pr_IssuerURL p, iv_ClientID = pr_ClientID p, iv_SkipIssuerCheck = pr_MultiTenantIssuer p\<rparr>,
                       \<lparr>o2_ClientID = pr_ClientID p, o2_ClientSecret = pr_ClientSecret p, o2_Endpoint = endpoint,
                        o2_RedirectURL = buildCallbackURL (ac_OAuthRedirectBaseURL cfg) pid, o2_Scopes = pr_Scopes p\<rparr>,
                       mp)))\<rparr>"

definition InitOK :: "ProviderState \<Rightarrow> bool" where
  "InitOK s \<longleftrightarrow> is_ok (ps_Init s)"

definition parseBoolEnv :: "string \<Rightarrow> bool" where
  "parseBoolEnv v \<longleftrightarrow> ToLower (TrimSpace v) \<in> {''1'', ''true'', ''yes''}"

definition NewOAuth ::
  "crypto \<Rightarrow> libs \<Rightarrow> string \<Rightarrow> (AuthConfig \<times> LocalAuthConfig \<times> ProviderRegistry) option \<Rightarrow> (oauth_error, OAuth) result" where
  "NewOAuth C L envOptOut cfg =
     (case cfg of
        None \<Rightarrow> Inl NilConfig
      | Some (ac, lc, providers) \<Rightarrow>
          (case OAuthStateKey C lc of
             Inl e \<Rightarrow> Inl (NoStateKey e)
           | Inr stateKey \<Rightarrow>
               (case NewStateSigner stateKey of
                  Inl e \<Rightarrow> Inl (BadStateKey e)
                | Inr signer \<Rightarrow>
                    if providers \<noteq> [] \<and> ac_OAuthRedirectBaseURL ac = [] then Inl RedirectBaseRequired
                    else if providers \<noteq> [] \<and> ac_FrontendReturnURL ac = [] then Inl FrontendURLRequired
                    else Inr \<lparr>oa_States = map (\<lambda>(pid, p). (pid, initProvider L ac pid p)) providers,
                              oa_StateSigner = signer, oa_FrontendReturnURL = ac_FrontendReturnURL ac,
                              oa_cfg = Some ac, oa_envNoOIDCAccounts = parseBoolEnv envOptOut\<rparr>)))"

definition Rebuild :: "libs \<Rightarrow> ProviderRegistry \<Rightarrow> OAuth \<Rightarrow> (oauth_error, OAuth) result" where
  "Rebuild L newRegistry oa =
     (case oa_cfg oa of
        None \<Rightarrow> Inl NilConfig
      | Some ac \<Rightarrow> Inr (oa\<lparr>oa_States := map (\<lambda>(pid, p). (pid, initProvider L ac pid p)) newRegistry\<rparr>))"

definition EnabledProviders :: "OAuth \<Rightarrow> ProviderState list" where
  "EnabledProviders oa = sort_key ps_ID (filter InitOK (map snd (oa_States oa)))"

definition AllProviders :: "OAuth \<Rightarrow> ProviderState list" where
  "AllProviders oa = sort_key ps_ID (map snd (oa_States oa))"

datatype OverallStatus = StatusOK | StatusInitFailed | StatusNoEnvNoFlag | StatusEmptyNoConsent

definition Status :: "OAuth \<Rightarrow> OverallStatus" where
  "Status oa =
     (if oa_States oa = [] then (if oa_envNoOIDCAccounts oa then StatusEmptyNoConsent else StatusNoEnvNoFlag)
      else if list_ex (\<lambda>(_, s). InitOK s) (oa_States oa) then StatusOK else StatusInitFailed)"

definition ProviderAvailable :: "OAuth \<Rightarrow> string \<Rightarrow> bool" where
  "ProviderAvailable oa pid = (case map_of (oa_States oa) pid of None \<Rightarrow> False | Some s \<Rightarrow> InitOK s)"

definition stateByID :: "OAuth \<Rightarrow> string \<Rightarrow> (oauth_error, ProviderState \<times> id_verifier \<times> oauth2_config \<times> mapper) result" where
  "stateByID oa pid =
     (case map_of (oa_States oa) pid of
        None \<Rightarrow> Inl ErrUnknownProvider
      | Some s \<Rightarrow> (case ps_Init s of Inl _ \<Rightarrow> Inl ErrProviderNotAvailable | Inr (v, c, mp) \<Rightarrow> Inr (s, v, c, mp)))"

section \<open>The authorization-code flow\<close>

definition randomBase64 :: "string option \<Rightarrow> (oauth_error, string) result" where
  "randomBase64 rnd = (case rnd of None \<Rightarrow> Inl RandomFailed | Some b \<Rightarrow> Inr (RawURL_encode b))"

definition authorize_with ::
  "libs \<Rightarrow> OAuth \<Rightarrow> string option \<Rightarrow> instant \<Rightarrow> string \<Rightarrow> string \<Rightarrow> bool \<Rightarrow> bool \<Rightarrow> string
     \<Rightarrow> (oauth_error, string \<times> string) result" where
  "authorize_with L oa rnd now pid returnPath testMode linkMode linkUser =
     (case stateByID oa pid of
        Inl e \<Rightarrow> Inl e
      | Inr (s, v, c, mp) \<Rightarrow>
          (case validateReturnPath returnPath of
             Inl e \<Rightarrow> Inl e
           | Inr path \<Rightarrow>
               (case randomBase64 rnd of
                  Inl e \<Rightarrow> Inl e
                | Inr nonce \<Rightarrow>
                    let payload = \<lparr>StatePayload.Provider = pid, ReturnPath = path, Nonce = nonce, Expires = Unix (now + stateTTL),
                                   TestMode = testMode, LinkMode = linkMode, LinkUserAccountID = linkUser\<rparr>;
                        token = Sign (hmac L) (oa_StateSigner oa) payload
                    in Inr (auth_code_url L c token nonce, token))))"

definition AuthorizeURL ::
  "libs \<Rightarrow> OAuth \<Rightarrow> string option \<Rightarrow> instant \<Rightarrow> string \<Rightarrow> string \<Rightarrow> bool \<Rightarrow> (oauth_error, string \<times> string) result" where
  "AuthorizeURL L oa rnd now pid returnPath testMode = authorize_with L oa rnd now pid returnPath testMode False []"

definition LinkAuthorizeURL ::
  "libs \<Rightarrow> OAuth \<Rightarrow> string option \<Rightarrow> instant \<Rightarrow> string \<Rightarrow> string \<Rightarrow> string \<Rightarrow> (oauth_error, string \<times> string) result" where
  "LinkAuthorizeURL L oa rnd now pid userUUID returnPath = authorize_with L oa rnd now pid returnPath False True userUUID"

text \<open>The result has both the principal and the payload; on an error Go returns their zero values.\<close>

definition Exchange ::
  "libs \<Rightarrow> OAuth \<Rightarrow> instant \<Rightarrow> string \<Rightarrow> string \<Rightarrow> string \<Rightarrow> string
     \<Rightarrow> (oauth_error, Principal) result \<times> StatePayload" where
  "Exchange L oa now pid code rawState cookieState =
     (let fail = (\<lambda>e. (Inl e, empty_StatePayload)) in
      case stateByID oa pid of
        Inl e \<Rightarrow> fail e
      | Inr (s, v, c, mp) \<Rightarrow>
          if rawState = [] \<or> cookieState = [] then fail ErrStateValidation
          else if rawState \<noteq> cookieState then fail ErrStateValidation
          else
            (case Verify (hmac L) (oa_StateSigner oa) now rawState of
               Inl _ \<Rightarrow> fail ErrStateValidation
             | Inr payload \<Rightarrow>
                 if StatePayload.Provider payload \<noteq> pid then fail ErrStateValidation
                 else
                   (case token_exchange L c code of
                      None \<Rightarrow> fail TokenExchange
                    | Some rawID \<Rightarrow>
                        (case rawID of
                           None \<Rightarrow> fail NoIDToken
                         | Some rawIDToken \<Rightarrow>
                             if rawIDToken = [] then fail NoIDToken
                             else
                               (case verify_id L v rawIDToken of
                                  None \<Rightarrow> fail VerifyIDToken
                                | Some idToken \<Rightarrow>
                                    if pr_MultiTenantIssuer (ps_Provider s) \<and> \<not> isValidMicrosoftIssuer (it_Issuer idToken)
                                    then fail IssuerNotAccepted
                                    else if it_Nonce idToken \<noteq> Nonce payload then fail NonceMismatch
                                    else
                                      (case it_Claims idToken of
                                         None \<Rightarrow> fail ParseClaims
                                       | Some cl \<Rightarrow>
                                           (case mp cl of
                                              Inl e \<Rightarrow> fail (MapClaims e)
                                            | Inr p \<Rightarrow> (Inr p, payload))))))))"

section \<open>The OIDC handler\<close>

record http_req =
  rq_Path :: string
  rq_TLS :: bool
  rq_XForwardedProto :: string

record cookie =
  ck_Name :: string
  ck_Value :: string
  ck_Path :: string
  ck_MaxAge :: int
  ck_HttpOnly :: bool
  ck_Secure :: bool
  ck_SameSiteLax :: bool

text \<open>
  The answers. \<open>ToFrontend\<close>: the configured front-end URL with these query parameters set;
  \<open>ToTestResult\<close>: the onboarding page with the outcome of a test sign-in; \<open>ToSession\<close>: the
  front-end URL with the session token in its fragment.
\<close>

datatype oidc_response =
    OidcNotFound
  | OidcInvalid string string
  | OidcFault
  | ToProvider string
  | ToFrontend "(string \<times> string) list"
  | ToTestResult string string "(oauth_error, string \<times> string \<times> string) result"
  | ToSession string

record 'c OIDCHandler =
  oh_oauth :: OAuth
  oh_resolver :: UserResolver
  oh_core :: "'c core_ops"
  oh_userSvc :: "'c UserAccountService"
  oh_signer :: "(jwt_error, Signer) result"
  oh_localIssuer :: string
  oh_cookiePath :: string
  oh_obs :: bool

definition stateCookieName :: string where "stateCookieName = ''oidc_state''"

definition stateCookieMaxAge :: int where "stateCookieMaxAge = 300"

definition requestIsHTTPS :: "http_req \<Rightarrow> bool" where
  "requestIsHTTPS r \<longleftrightarrow> rq_TLS r \<or> rq_XForwardedProto r = ''https''"

definition newStateCookie :: "'c OIDCHandler \<Rightarrow> string \<Rightarrow> int \<Rightarrow> http_req \<Rightarrow> cookie" where
  "newStateCookie h value maxAge r =
     \<lparr>ck_Name = stateCookieName, ck_Value = value, ck_Path = OIDCStateCookiePath (Some (rq_Path r)) (oh_cookiePath h),
      ck_MaxAge = maxAge, ck_HttpOnly = True, ck_Secure = requestIsHTTPS r, ck_SameSiteLax = True\<rparr>"

definition clearStateCookie :: "'c OIDCHandler \<Rightarrow> http_req \<Rightarrow> cookie" where
  "clearStateCookie h r = newStateCookie h [] (-1) r"

definition normalizeProviderID :: "string \<Rightarrow> string" where
  "normalizeProviderID param = ToLower param"

definition ListProviders :: "'c OIDCHandler \<Rightarrow> (string \<times> string) list" where
  "ListProviders h = map (\<lambda>s. (pr_ID (ps_Provider s), pr_DisplayName (ps_Provider s))) (EnabledProviders (oh_oauth h))"

definition Start ::
  "libs \<Rightarrow> 'c OIDCHandler \<Rightarrow> string option \<Rightarrow> instant \<Rightarrow> http_req \<Rightarrow> string \<Rightarrow> string \<Rightarrow> string \<Rightarrow> cookie option \<times> oidc_response" where
  "Start L h rnd now r param returnPath mode =
     (case AuthorizeURL L (oh_oauth h) rnd now (normalizeProviderID param) returnPath (mode = ''test'') of
        Inl e \<Rightarrow>
          (None, if e = ErrUnknownProvider \<or> e = ErrProviderNotAvailable then OidcNotFound
                 else OidcInvalid ''return'' ''users.oidc_start_invalid'')
      | Inr (authURL, state) \<Rightarrow> (Some (newStateCookie h state stateCookieMaxAge r), ToProvider authURL))"

text \<open>\<open>url.QueryEscape\<close> and \<open>url.Values.Encode\<close>, which sorts by key.\<close>

definition upper_hex :: "nat \<Rightarrow> char" where
  "upper_hex n = (if n < 10 then char_of (48 + n) else char_of (55 + n))"

definition unreserved :: "char \<Rightarrow> bool" where
  "unreserved c \<longleftrightarrow> is_ascii_digit c \<or> is_ascii_lower c \<or> is_ascii_upper c \<or> c \<in> set ''-_.~''"

fun QueryEscape :: "string \<Rightarrow> string" where
  "QueryEscape [] = []"
| "QueryEscape (c # cs) =
     (if unreserved c then [c] else if c = CHR '' '' then ''+''
      else [CHR ''%'', upper_hex (byte c div 16), upper_hex (byte c mod 16)]) @ QueryEscape cs"

definition values_Encode :: "(string \<times> string) list \<Rightarrow> string" where
  "values_Encode kvs = Join (map (\<lambda>(k, v). QueryEscape k @ ''='' @ QueryEscape v) (sort_key fst kvs)) ''&''"

definition buildSuccessRedirect :: "'c OIDCHandler \<Rightarrow> string \<Rightarrow> string \<Rightarrow> string" where
  "buildSuccessRedirect h token returnPath =
     oa_FrontendReturnURL (oh_oauth h) @ ''#'' @ values_Encode [(''token'', token), (''return'', returnPath)]"

definition redirectToFrontendError :: "(string \<Rightarrow> bool) \<Rightarrow> 'c OIDCHandler \<Rightarrow> string \<Rightarrow> oidc_response" where
  "redirectToFrontendError parses h code =
     (if parses (oa_FrontendReturnURL (oh_oauth h)) then ToFrontend [(''error'', code)] else OidcFault)"

definition testResultPath :: "'c OIDCHandler \<Rightarrow> string" where
  "testResultPath h =
     (if oh_cookiePath h \<noteq> [] \<and> is_ok (ValidateCookieBasePath (oh_cookiePath h)) then oh_cookiePath h @ ''/oidc-config''
      else ''/oidc-config'')"

definition redirectToTestResult ::
  "(string \<Rightarrow> bool) \<Rightarrow> 'c OIDCHandler \<Rightarrow> string \<Rightarrow> (oauth_error, string \<times> string \<times> string) result \<Rightarrow> oidc_response" where
  "redirectToTestResult parses h pid outcome =
     (if parses (oa_FrontendReturnURL (oh_oauth h)) then ToTestResult (testResultPath h) pid outcome else OidcFault)"

definition redirectToLinkSuccess :: "(string \<Rightarrow> bool) \<Rightarrow> 'c OIDCHandler \<Rightarrow> string \<Rightarrow> oidc_response" where
  "redirectToLinkSuccess parses h returnPath =
     (if parses (oa_FrontendReturnURL (oh_oauth h))
      then ToFrontend ((''linked'', ''1'') # (if returnPath \<noteq> [] then [(''return'', returnPath)] else []))
      else OidcFault)"

text \<open>Link mode. Sites: 60 account, 61 identity, 62 touch, 63 begin, 64 insert, 65 observer, 66 commit.\<close>

definition link_insert ::
  "(string \<Rightarrow> bool) \<Rightarrow> 'c OIDCHandler \<Rightarrow> faults \<Rightarrow> instant \<Rightarrow> string \<Rightarrow> 'c db \<Rightarrow> UserAccount \<Rightarrow> Principal \<Rightarrow> string
     \<Rightarrow> oidc_response \<times> 'c db \<times> events" where
  "link_insert parses h flt now iuuid d ua p returnPath =
     (if flt 63 then (OidcFault, d, [])
      else
        (case at flt 64 (InsertOIDCIdentity d now iuuid (ua_ID ua) (Issuer p) (Subject p)
                (text_nonempty (Email p)) (if EmailVerified p then Some now else None)) of
           Inl _ \<Rightarrow> (OidcFault, d, [])
         | Inr (_, d') \<Rightarrow>
             if oh_obs h \<and> flt 65 \<or> flt 66 then (OidcFault, d, [])
             else (redirectToLinkSuccess parses h returnPath, d',
                   if oh_obs h then [(''create'', ''auth_oidc_identity'')] else [])))"

definition handleLinkMode ::
  "(string \<Rightarrow> string option) \<Rightarrow> (string \<Rightarrow> bool) \<Rightarrow> 'c OIDCHandler \<Rightarrow> faults \<Rightarrow> instant \<Rightarrow> string \<Rightarrow> 'c db
     \<Rightarrow> Principal \<Rightarrow> StatePayload \<Rightarrow> oidc_response \<times> 'c db \<times> events" where
  "handleLinkMode uuid_Parse parses h flt now iuuid d p payload =
     (case uuid_Parse (LinkUserAccountID payload) of
        None \<Rightarrow> (redirectToFrontendError parses h ''authentication_failed'', d, [])
      | Some accountUUID \<Rightarrow>
          (case at flt 60 (GetUserAccountByUUID d accountUUID) of
             Inl NoRows \<Rightarrow> (redirectToFrontendError parses h ''authentication_failed'', d, [])
           | Inl _ \<Rightarrow> (OidcFault, d, [])
           | Inr ua \<Rightarrow>
               (case at flt 61 (GetOIDCIdentityByIssuerSubject d (Issuer p) (Subject p)) of
                  Inr existing \<Rightarrow>
                    if oi_UserAccountID existing = ua_ID ua
                    then (redirectToLinkSuccess parses h (ReturnPath payload),
                          if flt 62 then d else TouchOIDCIdentityLastSeen d now (oi_ID existing), [])
                    else (redirectToFrontendError parses h ''identity_in_use'', d, [])
                | Inl NoRows \<Rightarrow> link_insert parses h flt now iuuid d ua p (ReturnPath payload)
                | Inl _ \<Rightarrow> (OidcFault, d, []))))"

text \<open>
  The callback after a successful exchange in the normal mode. Sites: those of \<open>Resolve\<close>, 70 for
  the reload, and 80 on for the login record.
\<close>

definition oidc_login ::
  "(string \<Rightarrow> string option) \<Rightarrow> jwt_lib \<Rightarrow> (string \<Rightarrow> bool) \<Rightarrow> 'c OIDCHandler \<Rightarrow> faults \<Rightarrow> instant \<Rightarrow> string \<Rightarrow> string
     \<Rightarrow> 'c db \<Rightarrow> req_ctx \<Rightarrow> Principal \<Rightarrow> StatePayload \<Rightarrow> oidc_response \<times> 'c db \<times> events" where
  "oidc_login uuid_Parse jwt_sign parses h flt now auuid iuuid d ctx p payload =
     (let r = Resolve uuid_Parse (oh_core h) (oh_resolver h) flt now auuid iuuid d p; d' = res_db r; ev = res_events r in
      case res_out r of
        Inl e \<Rightarrow>
          (if e = ErrUserGone then redirectToFrontendError parses h ''authentication_failed''
           else if e = ErrUnverifiedTakeover then redirectToFrontendError parses h ''unverified_account_exists''
           else OidcFault, d', ev)
      | Inr uc \<Rightarrow>
          (case at flt 70 (GetUserAccountByID d' (uc_UserAccountID uc)) of
             Inl _ \<Rightarrow> (OidcFault, d', ev)
           | Inr ua \<Rightarrow>
               (case RecordLogin (oh_userSvc h) (\<lambda>k. flt (80 + k)) d' ctx (ua_ID ua) of
                  (Some _, ev') \<Rightarrow> (OidcFault, d', ev @ ev')
                | (None, ev') \<Rightarrow>
                    (case oh_signer h of
                       Inl _ \<Rightarrow> (OidcFault, d', ev @ ev')
                     | Inr signer \<Rightarrow>
                         (case IssueLocalJWTWithSigner jwt_sign (ua_Uuid ua) (Some signer) (oh_localIssuer h) now of
                            Inl _ \<Rightarrow> (OidcFault, d', ev @ ev')
                          | Inr token \<Rightarrow> (ToSession (buildSuccessRedirect h token (ReturnPath payload)), d', ev @ ev'))))))"

record callback_query =
  cq_error :: string
  cq_code :: string
  cq_state :: string
  cq_cookie :: "string option"

text \<open>Errors of the exchange, and what follows a successful one.\<close>

definition exchange_failed ::
  "(string \<Rightarrow> bool) \<Rightarrow> 'c OIDCHandler \<Rightarrow> string \<Rightarrow> oauth_error \<Rightarrow> StatePayload \<Rightarrow> oidc_response" where
  "exchange_failed parses h pid e payload =
     (if e = ErrUnknownProvider \<or> e = ErrProviderNotAvailable then OidcNotFound
      else if e = ErrStateValidation then OidcInvalid ''state'' ''users.oidc_state_invalid''
      else if TestMode payload then redirectToTestResult parses h pid (Inl e)
      else redirectToFrontendError parses h ''authentication_failed'')"

definition exchanged ::
  "(string \<Rightarrow> string option) \<Rightarrow> jwt_lib \<Rightarrow> (string \<Rightarrow> bool) \<Rightarrow> 'c OIDCHandler \<Rightarrow> faults \<Rightarrow> instant \<Rightarrow> string \<Rightarrow> string
     \<Rightarrow> 'c db \<Rightarrow> req_ctx \<Rightarrow> string \<Rightarrow> Principal \<Rightarrow> StatePayload \<Rightarrow> oidc_response \<times> 'c db \<times> events" where
  "exchanged uuid_Parse jwt_sign parses h flt now auuid iuuid d ctx pid p payload =
     (if TestMode payload then (redirectToTestResult parses h pid (Inr (Email p, Subject p, Issuer p)), d, [])
      else if LinkMode payload then handleLinkMode uuid_Parse parses h flt now iuuid d p payload
      else if Email p = [] then (redirectToFrontendError parses h ''missing_email'', d, [])
      else oidc_login uuid_Parse jwt_sign parses h flt now auuid iuuid d ctx p payload)"

text \<open>The state cookie is cleared with every answer (\<open>clearStateCookie\<close>).\<close>

definition Callback ::
  "libs \<Rightarrow> (string \<Rightarrow> string option) \<Rightarrow> jwt_lib \<Rightarrow> (string \<Rightarrow> bool) \<Rightarrow> 'c OIDCHandler \<Rightarrow> faults \<Rightarrow> instant \<Rightarrow> string \<Rightarrow> string
     \<Rightarrow> 'c db \<Rightarrow> req_ctx \<Rightarrow> http_req \<Rightarrow> string \<Rightarrow> callback_query \<Rightarrow> cookie \<times> oidc_response \<times> 'c db \<times> events" where
  "Callback L uuid_Parse jwt_sign parses h flt now auuid iuuid d ctx r param q =
     (let pid = normalizeProviderID param in
      (clearStateCookie h r,
       if \<not> ProviderAvailable (oh_oauth h) pid then (OidcNotFound, d, [])
       else if cq_error q \<noteq> [] then (redirectToFrontendError parses h (cq_error q), d, [])
       else if cq_code q = [] \<or> cq_state q = [] then (OidcInvalid ''code'' ''users.oidc_code_or_state_required'', d, [])
       else
         (case cq_cookie q of
            None \<Rightarrow> (OidcInvalid ''state_cookie'' ''users.oidc_state_cookie_required'', d, [])
          | Some cookie \<Rightarrow>
              (case Exchange L (oh_oauth h) now pid (cq_code q) (cq_state q) cookie of
                 (Inl e, payload) \<Rightarrow> (exchange_failed parses h pid e payload, d, [])
               | (Inr p, payload) \<Rightarrow> exchanged uuid_Parse jwt_sign parses h flt now auuid iuuid d ctx pid p payload))))"

section \<open>Lemmas\<close>

lemma stateByID_Inr:
  "stateByID oa pid = Inr (s, v, c, mp) \<longleftrightarrow> map_of (oa_States oa) pid = Some s \<and> ps_Init s = Inr (v, c, mp)"
  by (auto simp: stateByID_def split: option.splits sum.splits)

lemma stateByID_ProviderAvailable: "(\<exists>x. stateByID oa pid = Inr x) \<longleftrightarrow> ProviderAvailable oa pid"
  by (auto simp: stateByID_def ProviderAvailable_def InitOK_def split: option.splits sum.splits)

lemma Exchange_successE:
  assumes "Exchange L oa now pid code raw cookie = (Inr p, payload)"
  obtains s v c mp tok idt cl where "stateByID oa pid = Inr (s, v, c, mp)" "raw = cookie"
    "Verify (hmac L) (oa_StateSigner oa) now raw = Inr payload" "StatePayload.Provider payload = pid"
    "token_exchange L c code = Some (Some tok)" "verify_id L v tok = Some idt"
    "pr_MultiTenantIssuer (ps_Provider s) \<longrightarrow> isValidMicrosoftIssuer (it_Issuer idt)"
    "it_Nonce idt = Nonce payload" "it_Claims idt = Some cl" "mp cl = Inr p"
  using assms unfolding Exchange_def Let_def
  by (auto split: if_splits sum.splits option.splits)

lemma Exchange_failure: "Exchange L oa now pid code raw cookie = (Inl e, payload) \<Longrightarrow> payload = empty_StatePayload"
  unfolding Exchange_def Let_def by (auto split: if_splits sum.splits option.splits)

lemma validateReturnPath_Inr:
  "validateReturnPath raw = Inr path \<Longrightarrow>
     path = (if raw = [] then ''/'' else raw) \<and> HasPrefix path ''/'' \<and> \<not> HasPrefix path ''//''"
  by (auto simp: validateReturnPath_def HasPrefix_def split: if_splits option.splits)

text \<open>The state a start request signs, and what the exchange makes of it.\<close>

lemma authorize_with_Inr:
  assumes "authorize_with L oa rnd now pid rp t l u = Inr (url, token)"
  obtains raw path where "rnd = Some raw" "validateReturnPath rp = Inr path" "ProviderAvailable oa pid"
    "token = Sign (hmac L) (oa_StateSigner oa)
       \<lparr>StatePayload.Provider = pid, ReturnPath = path, Nonce = RawURL_encode raw, Expires = Unix (now + stateTTL),
        TestMode = t, LinkMode = l, LinkUserAccountID = u\<rparr>"
proof -
  have "ProviderAvailable oa pid"
    using assms by (auto simp: authorize_with_def stateByID_ProviderAvailable [symmetric] split: sum.splits)
  with assms that show ?thesis
    by (auto simp: authorize_with_def randomBase64_def Let_def split: sum.splits option.splits)
qed

lemma Sign_not_Nil [simp]: "Sign k s p \<noteq> []"
  by (simp add: Sign_def Let_def)

lemma Exchange_signed:
  assumes st: "stateByID oa pid' = Inr (s, v, c, mp)"
    and tok: "token = Sign (hmac L) (oa_StateSigner oa) payload" and int: "in_int64 (Expires payload)"
  shows "cookie \<noteq> token \<or> pid' \<noteq> StatePayload.Provider payload \<or> Expires payload < Unix now' \<Longrightarrow>
      Exchange L oa now' pid' code token cookie = (Inl ErrStateValidation, empty_StatePayload)"
    and "pid' = StatePayload.Provider payload \<Longrightarrow> Unix now' \<le> Expires payload \<Longrightarrow>
      token_exchange L c code = Some (Some rawID) \<Longrightarrow> rawID \<noteq> [] \<Longrightarrow> verify_id L v rawID = Some idt \<Longrightarrow>
      pr_MultiTenantIssuer (ps_Provider s) \<longrightarrow> isValidMicrosoftIssuer (it_Issuer idt) \<Longrightarrow>
      it_Nonce idt = Nonce payload \<Longrightarrow> it_Claims idt = Some cl \<Longrightarrow> mp cl = Inr p \<Longrightarrow>
      Exchange L oa now' pid' code token token = (Inr p, payload)"
proof -
  have ver: "Verify (hmac L) (oa_StateSigner oa) now' token =
      (if Unix now' \<le> Expires payload then Inr payload else Inl StateExpired)"
    by (simp add: tok Verify_def Split_Sign url.dec_enc unmarshal_marshal_StatePayload [OF int] Expired_def)
  have ne: "token \<noteq> []" by (simp add: tok)
  show "Exchange L oa now' pid' code token cookie = (Inl ErrStateValidation, empty_StatePayload)"
    if "cookie \<noteq> token \<or> pid' \<noteq> StatePayload.Provider payload \<or> Expires payload < Unix now'"
    using that ne ver by (cases "cookie = token") (auto simp: Exchange_def st Let_def)
  show "Exchange L oa now' pid' code token token = (Inr p, payload)"
    if "pid' = StatePayload.Provider payload" "Unix now' \<le> Expires payload"
      "token_exchange L c code = Some (Some rawID)" "rawID \<noteq> []" "verify_id L v rawID = Some idt"
      "pr_MultiTenantIssuer (ps_Provider s) \<longrightarrow> isValidMicrosoftIssuer (it_Issuer idt)"
      "it_Nonce idt = Nonce payload" "it_Claims idt = Some cl" "mp cl = Inr p"
    using that ne ver st by (auto simp: Exchange_def Let_def)
qed

lemma redirects_no_session [simp]:
  "redirectToFrontendError parses h e \<noteq> ToSession u" "redirectToTestResult parses h pid r \<noteq> ToSession u"
  "redirectToLinkSuccess parses h rp \<noteq> ToSession u"
  "redirectToFrontendError parses h e \<noteq> ToTestResult pa pi re" "redirectToLinkSuccess parses h rp \<noteq> ToTestResult pa pi re"
  "redirectToTestResult parses h pid (Inr x) \<noteq> ToTestResult pa pi (Inl er)"
  by (simp_all add: redirectToFrontendError_def redirectToTestResult_def redirectToLinkSuccess_def)

lemma handleLinkMode_no_session:
  assumes "handleLinkMode P parses h flt now iuuid d p payload = (resp, d', ev)"
  shows "resp \<noteq> ToSession u" "resp \<noteq> ToTestResult pa pi re"
  using assms unfolding handleLinkMode_def link_insert_def
  by (auto split: if_splits sum.splits option.splits db_error.splits)

lemma oidc_login_no_test:
  "oidc_login P jwt_sign parses h flt now auuid iuuid d ctx p payload = (resp, d', ev) \<Longrightarrow> resp \<noteq> ToTestResult pa pi re"
  unfolding oidc_login_def Let_def by (auto split: if_splits sum.splits option.splits prod.splits)

lemma link_success_cases:
  "redirectToLinkSuccess parses h rp = ToFrontend q \<Longrightarrow> (''linked'', ''1'') \<in> set q"
  by (auto simp: redirectToLinkSuccess_def split: if_splits)

lemma link_insert_effect:
  assumes "link_insert parses h flt now iuuid d ua p rp = (resp, d', ev)"
  shows "d' = d \<and> resp = OidcFault \<or>
    identity_of d (Issuer p, Subject p) = None \<and> identity_of d' = (identity_of d)((Issuer p, Subject p) \<mapsto> ua_ID ua) \<and>
    user_accounts d' = user_accounts d \<and> auth_local d' = auth_local d \<and> (db_ok d \<longrightarrow> db_ok d') \<and> resp = redirectToLinkSuccess parses h rp"
proof (cases "d' = d \<and> resp = OidcFault")
  case False
  then obtain x v where i: "InsertOIDCIdentity d now iuuid (ua_ID ua) (Issuer p) (Subject p) (text_nonempty (Email p)) v = Inr (x, d')"
    and r: "resp = redirectToLinkSuccess parses h rp"
    using assms by (auto simp: link_insert_def split: if_splits sum.splits)
  have "identity_of d' = (identity_of d)((Issuer p, Subject p) \<mapsto> ua_ID ua)"
    by (rule ext) (simp add: identity_of_InsertOIDCIdentity(2) [OF i])
  then show ?thesis
    using identity_of_InsertOIDCIdentity(1) [OF i] InsertOIDCIdentity_frame [OF i] db_ok_InsertOIDCIdentity [OF i] r by simp
qed simp

lemma Touch_auth_local: "auth_local (TouchOIDCIdentityLastSeen d now i) = auth_local d"
  by (simp add: TouchOIDCIdentityLastSeen_def)

section \<open>Properties\<close>

text \<open>
  What a successful exchange has established: the state of the query is the state of the cookie,
  carries the server's MAC, has not expired and was issued for this very provider; the provider is
  initialized; the token endpoint's \<open>id_token\<close> passed the library's verification (and the tenant
  pattern for a multi-tenant issuer) and repeats the nonce of the state; and the principal is the
  claim mapper's image of its claims. On failure nothing of the state is handed back.
\<close>

theorem Exchange_sound:
  assumes "Exchange L oa now pid code raw cookie = (Inr p, payload)"
  shows "raw = cookie \<and> (\<exists>body. raw = body @ ''.'' @ state_mac (hmac L) (oa_StateSigner oa) body) \<and>
    Unix now \<le> Expires payload \<and> StatePayload.Provider payload = pid \<and> ProviderAvailable oa pid \<and>
    (\<exists>s v c mp tok idt cl. stateByID oa pid = Inr (s, v, c, mp) \<and> token_exchange L c code = Some (Some tok) \<and>
       verify_id L v tok = Some idt \<and> (pr_MultiTenantIssuer (ps_Provider s) \<longrightarrow> isValidMicrosoftIssuer (it_Issuer idt)) \<and>
       it_Nonce idt = Nonce payload \<and> it_Claims idt = Some cl \<and> mp cl = Inr p)"
proof -
  obtain s v c mp tok idt cl where *: "stateByID oa pid = Inr (s, v, c, mp)" "raw = cookie"
    "Verify (hmac L) (oa_StateSigner oa) now raw = Inr payload" "StatePayload.Provider payload = pid"
    "token_exchange L c code = Some (Some tok)" "verify_id L v tok = Some idt"
    "pr_MultiTenantIssuer (ps_Provider s) \<longrightarrow> isValidMicrosoftIssuer (it_Issuer idt)"
    "it_Nonce idt = Nonce payload" "it_Claims idt = Some cl" "mp cl = Inr p"
    using assms by (rule Exchange_successE)
  have "ProviderAvailable oa pid" using *(1) stateByID_ProviderAvailable by blast
  with * show ?thesis by (auto simp: Verify_Inr_iff)
qed


text \<open>
  C24. What a callback can do. A database change or a session needs a successful exchange whose state
  is not in test mode, and in link mode there is never a session. A test sign-in that fails is
  never shown as such: the page with the error of the test is unreachable, because a failed exchange
  hands back no state.
\<close>

theorem Callback_effects:
  assumes "Callback L P jwt_sign parses h flt now auuid iuuid d ctx r param q = (ck, resp, d', ev)"
  shows "ck_Value ck = [] \<and> ck_MaxAge ck = -1 \<and>
    (d' \<noteq> d \<or> (\<exists>u. resp = ToSession u) \<longrightarrow>
      (\<exists>cookie p payload. cq_cookie q = Some cookie \<and>
         Exchange L (oh_oauth h) now (normalizeProviderID param) (cq_code q) (cq_state q) cookie = (Inr p, payload) \<and>
         \<not> TestMode payload \<and> (LinkMode payload \<longrightarrow> (\<forall>u. resp \<noteq> ToSession u)))) \<and>
    (\<forall>path pid e. resp \<noteq> ToTestResult path pid (Inl e))"
proof -
  let ?pid = "normalizeProviderID param"
  have ck: "ck_Value ck = [] \<and> ck_MaxAge ck = -1"
    using assms by (auto simp: Callback_def Let_def clearStateCookie_def newStateCookie_def)
  show ?thesis
  proof (cases "\<exists>cookie p payload. cq_cookie q = Some cookie \<and> ProviderAvailable (oh_oauth h) ?pid \<and> cq_error q = [] \<and>
      cq_code q \<noteq> [] \<and> cq_state q \<noteq> [] \<and>
      Exchange L (oh_oauth h) now ?pid (cq_code q) (cq_state q) cookie = (Inr p, payload)")
    case True
    then obtain cookie p payload where c: "cq_cookie q = Some cookie" "ProviderAvailable (oh_oauth h) ?pid" "cq_error q = []"
      "cq_code q \<noteq> []" "cq_state q \<noteq> []" "Exchange L (oh_oauth h) now ?pid (cq_code q) (cq_state q) cookie = (Inr p, payload)"
      by blast
    then have "exchanged P jwt_sign parses h flt now auuid iuuid d ctx ?pid p payload = (resp, d', ev)"
      using assms by (simp add: Callback_def Let_def)
    then show ?thesis
      using ck c by (auto simp: exchanged_def dest: handleLinkMode_no_session oidc_login_no_test split: if_splits)
  next
    case False
    then have "d' = d \<and> (\<exists>e. resp \<in> {OidcNotFound, OidcInvalid ''code'' ''users.oidc_code_or_state_required'',
        OidcInvalid ''state_cookie'' ''users.oidc_state_cookie_required'', redirectToFrontendError parses h (cq_error q),
        exchange_failed parses h ?pid e empty_StatePayload})"
      using assms unfolding Callback_def Let_def
      by (fastforce dest: Exchange_failure split: if_splits option.splits sum.splits prod.splits)
    moreover have "exchange_failed parses h ?pid e empty_StatePayload \<noteq> ToSession u"
      "exchange_failed parses h ?pid e empty_StatePayload \<noteq> ToTestResult pa pi re" for e u pa pi re
      by (simp_all add: exchange_failed_def empty_StatePayload_def)
    ultimately show ?thesis using ck by auto
  qed
qed

text \<open>
  Link mode attaches the presented identity to the account named in the state, and to no other:
  an identity that already belongs to an account keeps its owner; accounts, passwords and all other
  identities stay as they are; and the browser is told \<open>linked\<close> only if the identity now belongs
  to that account.
\<close>

theorem handleLinkMode_effect:
  assumes run: "handleLinkMode P parses h flt now iuuid d p payload = (resp, d', ev)" and ok: "db_ok d"
  shows "db_ok d' \<and> user_accounts d' = user_accounts d \<and> auth_local d' = auth_local d \<and>
    (\<forall>k. k \<noteq> (Issuer p, Subject p) \<or> identity_of d k \<noteq> None \<longrightarrow> identity_of d' k = identity_of d k) \<and>
    (\<forall>q. resp = ToFrontend q \<and> (''linked'', ''1'') \<in> set q \<longrightarrow>
      (\<exists>u ua. P (LinkUserAccountID payload) = Some u \<and> GetUserAccountByUUID d u = Inr ua \<and>
        identity_of d' (Issuer p, Subject p) = Some (ua_ID ua)))"
proof -
  let ?k = "(Issuer p, Subject p)"
  consider (failed) "d' = d" "resp = OidcFault \<or> (\<exists>e. resp = redirectToFrontendError parses h e)"
    | (found) u ua existing where "P (LinkUserAccountID payload) = Some u" "GetUserAccountByUUID d u = Inr ua"
      "GetOIDCIdentityByIssuerSubject d (Issuer p) (Subject p) = Inr existing" "oi_UserAccountID existing = ua_ID ua"
      "d' = d \<or> d' = TouchOIDCIdentityLastSeen d now (oi_ID existing)"
    | (new) u ua where "P (LinkUserAccountID payload) = Some u" "GetUserAccountByUUID d u = Inr ua"
      "link_insert parses h flt now iuuid d ua p (ReturnPath payload) = (resp, d', ev)"
    using run unfolding handleLinkMode_def
    by (fastforce split: if_splits sum.splits option.splits db_error.splits)
  then show ?thesis
  proof cases
    case failed
    then show ?thesis using ok by (auto simp: redirectToFrontendError_def split: if_splits)
  next
    case found
    then have "identity_of d ?k = Some (ua_ID ua)" by (simp add: identity_of_def)
    with found ok show ?thesis by (auto simp: Touch_frame Touch_auth_local db_ok_Touch)
  next
    case new
    then show ?thesis using link_insert_effect [OF new(3)] ok by (auto split: if_splits)
  qed
qed

section \<open>Examples\<close>

text \<open>One provider in the Google style whose tokens repeat the nonce \<open>n\<close>.\<close>

definition demo_provider :: Provider where
  "demo_provider = \<lparr>pr_ID = ''google'', pr_DisplayName = ''Google'', pr_IssuerURL = ''https://idp'', pr_ClientID = ''c'',
     pr_ClientSecret = ''s'', pr_ClaimStyle = ''google'', pr_Scopes = defaultScopes, pr_MultiTenantIssuer = False\<rparr>"

definition demo_claims :: claims where
  "demo_claims = [(''sub'', JStr ''s1''), (''iss'', JStr ''https://idp''), (''email'', JStr ''a@b'')]"

definition demo_libs :: "string \<Rightarrow> libs" where
  "demo_libs n = \<lparr>discover = \<lambda>_ _. Some ''https://idp/auth'', auth_code_url = \<lambda>_ s _. ''https://idp/auth?'' @ s,
     token_exchange = \<lambda>_ _. Some (Some ''t''), verify_id = \<lambda>_ _. Some \<lparr>it_Issuer = ''https://idp'', it_Nonce = n, it_Claims = Some demo_claims\<rparr>,
     hmac = \<lambda>k m. k @ m, visit = \<lambda>xs. xs\<rparr>"

definition demo_auth_config :: AuthConfig where
  "demo_auth_config = \<lparr>ac_AdminRole = ''admin'', ac_FrontendReturnURL = ''https://gui/return'', ac_OAuthRedirectBaseURL = ''https://api'',
     ac_CookiePath = [], ac_RequireStepUp = True\<rparr>"

definition demo_oauth :: "string \<Rightarrow> OAuth" where
  "demo_oauth n = \<lparr>oa_States = [(''google'', initProvider (demo_libs n) demo_auth_config ''google'' demo_provider)],
     oa_StateSigner = \<lparr>signer_key = ''key''\<rparr>, oa_FrontendReturnURL = ''https://gui/return'', oa_cfg = Some demo_auth_config,
     oa_envNoOIDCAccounts = False\<rparr>"

definition demo_handler :: "string \<Rightarrow> unit OIDCHandler" where
  "demo_handler n = \<lparr>oh_oauth = demo_oauth n, oh_resolver = demo_resolver, oh_core = demo_core, oh_userSvc = demo_service,
     oh_signer = Inl NilSigner, oh_localIssuer = ''urn:mod-users'', oh_cookiePath = [], oh_obs = False\<rparr>"

definition demo_state :: "string \<Rightarrow> StatePayload" where
  "demo_state n = \<lparr>StatePayload.Provider = ''google'', ReturnPath = ''/'', Nonce = n, Expires = 300, TestMode = True,
     LinkMode = False, LinkUserAccountID = []\<rparr>"

lemma demo_stateByID:
  "\<exists>s v c mp p. stateByID (demo_oauth n) ''google'' = Inr (s, v, c, mp) \<and> mp demo_claims = Inr p \<and>
     \<not> pr_MultiTenantIssuer (ps_Provider s)"
  by (simp add: stateByID_def demo_oauth_def initProvider_def demo_libs_def demo_provider_def NewClaimMapper_def
      googleMapper_Map_def extractRequired_def getString_def demo_claims_def claim_def)

lemma demo_exchange:
  obtains p where "Exchange (demo_libs n) (demo_oauth n) 0 ''google'' ''code''
      (Sign (\<lambda>k m. k @ m) \<lparr>signer_key = ''key''\<rparr> (demo_state n)) (Sign (\<lambda>k m. k @ m) \<lparr>signer_key = ''key''\<rparr> (demo_state n)) =
    (Inr p, demo_state n)"
proof -
  obtain s v c mp p where st: "stateByID (demo_oauth n) ''google'' = Inr (s, v, c, mp)" "mp demo_claims = Inr p"
    "\<not> pr_MultiTenantIssuer (ps_Provider s)"
    using demo_stateByID by blast
  have int: "in_int64 (Expires (demo_state n))" by (simp add: demo_state_def in_int64_def)
  have sel: "hmac (demo_libs n) = (\<lambda>k m. k @ m)" "oa_StateSigner (demo_oauth n) = \<lparr>signer_key = ''key''\<rparr>"
    by (simp_all add: demo_libs_def demo_oauth_def)
  show ?thesis
    by (rule that, rule Exchange_signed(2) [OF st(1) _ int, unfolded sel, where p = p and rawID = "''t''" and
          idt = "\<lparr>it_Issuer = ''https://idp'', it_Nonce = n, it_Claims = Some demo_claims\<rparr>" and cl = demo_claims])
       (use st in \<open>simp_all add: sel demo_state_def demo_libs_def Unix_def second_def\<close>)
qed

theorem Exchange_sound_witness:
  "\<exists>raw p. Exchange (demo_libs ''n'') (demo_oauth ''n'') 0 ''google'' ''code'' raw raw = (Inr p, demo_state ''n'') \<and>
     (\<exists>body. raw = body @ ''.'' @ state_mac (hmac (demo_libs ''n'')) (oa_StateSigner (demo_oauth ''n'')) body)"
proof -
  obtain p where e: "Exchange (demo_libs ''n'') (demo_oauth ''n'') 0 ''google'' ''code''
      (Sign (\<lambda>k m. k @ m) \<lparr>signer_key = ''key''\<rparr> (demo_state ''n'')) (Sign (\<lambda>k m. k @ m) \<lparr>signer_key = ''key''\<rparr> (demo_state ''n'')) =
    (Inr p, demo_state ''n'')"
    by (rule demo_exchange)
  with Exchange_sound [OF e] show ?thesis by blast
qed

definition demo_req :: http_req where
  "demo_req = \<lparr>rq_Path = ''/v1/auth/oidc/google/start'', rq_TLS = True, rq_XForwardedProto = []\<rparr>"

lemma normalize_google [simp]: "normalizeProviderID ''google'' = ''google''"
  by (simp add: normalizeProviderID_def ToLower_def lower_char_def is_ascii_upper_def byte_def)

lemma demo_start:
  obtains ck url where "Start (demo_libs (RawURL_encode ''r'')) (demo_handler (RawURL_encode ''r'')) (Some ''r'') 0 demo_req ''google'' [] ''test'' = (Some ck, ToProvider url)"
proof -
  obtain s v c mp p where st: "stateByID (demo_oauth (RawURL_encode ''r'')) ''google'' = Inr (s, v, c, mp)"
    using demo_stateByID by blast
  then show ?thesis
    using that by (simp add: Start_def AuthorizeURL_def authorize_with_def demo_handler_def validateReturnPath_def randomBase64_def Let_def)
qed


theorem Callback_effects_witness:
  "\<exists>raw ck resp (d' :: unit db) ev. Callback (demo_libs ''n'') Some demo_sign (\<lambda>_. True) (demo_handler ''n'') (\<lambda>_. False) 0 ''a1'' ''i1'' (empty_db ())
     empty_ctx demo_req ''google'' \<lparr>cq_error = [], cq_code = ''code'', cq_state = raw, cq_cookie = Some raw\<rparr> = (ck, resp, d', ev) \<and>
     ck_MaxAge ck = -1 \<and> (\<exists>path pid x. resp = ToTestResult path pid x \<and> (\<forall>e. x \<noteq> Inl e)) \<and> d' = empty_db ()"
proof -
  let ?raw = "Sign (\<lambda>k m. k @ m) \<lparr>signer_key = ''key''\<rparr> (demo_state ''n'')"
  obtain p where e: "Exchange (demo_libs ''n'') (demo_oauth ''n'') 0 ''google'' ''code'' ?raw ?raw = (Inr p, demo_state ''n'')"
    by (rule demo_exchange)
  have "ProviderAvailable (demo_oauth ''n'') ''google''"
    using demo_stateByID stateByID_ProviderAvailable by blast
  then obtain ck ev x where c: "Callback (demo_libs ''n'') Some demo_sign (\<lambda>_. True) (demo_handler ''n'') (\<lambda>_. False) 0 ''a1'' ''i1'' (empty_db ())
     empty_ctx demo_req ''google'' \<lparr>cq_error = [], cq_code = ''code'', cq_state = ?raw, cq_cookie = Some ?raw\<rparr> =
       (ck, ToTestResult ''/oidc-config'' ''google'' x, empty_db (), ev)"
    using e by (simp add: Callback_def Let_def demo_handler_def exchanged_def demo_state_def redirectToTestResult_def testResultPath_def)
  have f: "ck_MaxAge ck = -1" "\<And>e. x \<noteq> Inl e" using Callback_effects [OF c] by simp_all
  show ?thesis
    by (rule exI [of _ ?raw], rule exI [of _ ck], rule exI [of _ "ToTestResult ''/oidc-config'' ''google'' x"],
        rule exI [of _ "empty_db ()"], rule exI [of _ ev]) (simp add: c f)
qed

theorem handleLinkMode_effect_witness:
  "\<exists>(d :: unit db) d' ev q. db_ok d \<and> handleLinkMode Some (\<lambda>_. True) (demo_handler ''n'') (\<lambda>_. False) 5 ''i1'' d (demo_principal False)
       ((demo_state ''n'')\<lparr>TestMode := False, LinkMode := True, LinkUserAccountID := ''u1''\<rparr>) = (ToFrontend q, d', ev) \<and>
     identity_of d' (Issuer (demo_principal False), Subject (demo_principal False)) = Some 1"
proof -
  let ?pl = "(demo_state ''n'')\<lparr>TestMode := False, LinkMode := True, LinkUserAccountID := ''u1''\<rparr>"
  let ?p = "demo_principal False"
  obtain d :: "unit db" and u where d: "db_ok d" "user_accounts d = [u]" "ua_ID u = 1" "auth_oidc_identities d = []"
    "GetUserAccountByEmail d ''a@b'' = Inr u" "ua_EmailVerifiedAt u = None" "ua_Uuid u = ''u1''" "ua_AccountHolder u = 7"
    by (rule resolver_demo)
  have u: "GetUserAccountByUUID d ''u1'' = Inr u" using d by (simp add: GetUserAccountByUUID_def)
  obtain q d' ev where r: "handleLinkMode Some (\<lambda>_. True) (demo_handler ''n'') (\<lambda>_. False) 5 ''i1'' d ?p ?pl = (ToFrontend q, d', ev)"
    and q: "(''linked'', ''1'') \<in> set q"
    using d u by (simp add: handleLinkMode_def at_def GetOIDCIdentityByIssuerSubject_def link_insert_def redirectToLinkSuccess_def
        InsertOIDCIdentity_def Let_def account_exists_def demo_state_def)
  have "identity_of d' (Issuer ?p, Subject ?p) = Some 1"
    using handleLinkMode_effect [OF r d(1)] q u d(3) by auto
  with d(1) r show ?thesis by blast
qed

end
