(* ===== verification/Identities.thy ===== *)
theory Identities
  imports OAuth StepUp
begin

text \<open>
  A user's own sign-in methods: \<open>handlers/identities.go\<close> (list, link, unlink, set and remove the
  password, step-up challenge) and \<open>service/identities.go\<close>.

  A handler maps the database, the map of used step-up tokens and the request to a response, the two
  maps afterwards and the reported events. \<open>txhelper.Run\<close> and \<open>RunSerializable\<close> of the core
  module run their function in one transaction: a database value that replaces the old one only on
  commit, with faults at begin and commit. The caller's \<open>UserContext\<close> comes from the middleware.
  Sending an answer after the fixed delay of \<open>StepUpRequest\<close> has no effect on the state.
\<close>

section \<open>The handler\<close>

record IdentitiesHandler =
  ih_oauth :: OAuth
  ih_obs :: bool
  ih_sender :: bool
  ih_jwtSecret :: string
  ih_stepUpRequired :: bool
  ih_cookiePath :: string

datatype id_response =
    IdBadBody
  | IdInvalid string string
  | IdUnauthenticated string
  | IdFault
  | IdStepUpRequired
  | IdLastIdentity
  | IdNotFound
  | IdentityNotFound
  | IdNoContent
  | IdStartLink string string cookie
  | IdStepUpToken string int
  | IdList "instant option" "(string \<times> string \<times> string \<times> string \<times> instant \<times> instant) list"

definition maxEmailCodeAttempts :: int where "maxEmailCodeAttempts = 5"

definition emailCodeRequestCooldown :: int where "emailCodeRequestCooldown = 60 * second"

definition checkStepUp ::
  "(string \<Rightarrow> string \<Rightarrow> string) \<Rightarrow> string \<Rightarrow> int \<Rightarrow> bool \<Rightarrow> string \<Rightarrow> instant \<Rightarrow> consumed_map
     \<Rightarrow> (stepup_error, unit) result \<times> consumed_map" where
  "checkStepUp mac token userAccountID stepUpRequired jwtSecret now consumed =
     (if \<not> stepUpRequired then (Inr (), consumed)
      else if token = [] then (Inl ErrStepUpRequired, consumed)
      else VerifyStepUpToken mac jwtSecret token userAccountID now consumed)"

definition requireStepUp ::
  "(string \<Rightarrow> string \<Rightarrow> string) \<Rightarrow> IdentitiesHandler \<Rightarrow> string \<Rightarrow> int \<Rightarrow> instant \<Rightarrow> consumed_map
     \<Rightarrow> (stepup_error, unit) result \<times> consumed_map" where
  "requireStepUp mac h token userAccountID now consumed =
     checkStepUp mac token userAccountID (ih_stepUpRequired h) (ih_jwtSecret h) now consumed"

section \<open>Listing and linking\<close>

definition IdentitiesHandler_List :: "faults \<Rightarrow> 'c db \<Rightarrow> UserContext \<Rightarrow> id_response" where
  "IdentitiesHandler_List flt d uc =
     (let rows = map (\<lambda>i. (oi_Uuid i, oi_Issuer i, oi_Subject i, text_String (oi_Email i), oi_LinkedAt i, oi_LastSeenAt i))
                   (ListOIDCIdentitiesByUserAccount d (uc_UserAccountID uc))
      in case at flt 0 (GetAuthLocal d (uc_UserAccountID uc)) of
           Inr al \<Rightarrow> if flt 1 then IdFault else IdList (Some (al_PasswordUpdatedAt al)) rows
         | Inl NoRows \<Rightarrow> if flt 1 then IdFault else IdList None rows
         | Inl _ \<Rightarrow> IdFault)"

definition normalizeIdentityProviderID :: "string \<Rightarrow> string" where
  "normalizeIdentityProviderID param = ToLower param"

definition newOIDCStateCookie :: "string \<Rightarrow> int \<Rightarrow> http_req \<Rightarrow> string \<Rightarrow> cookie" where
  "newOIDCStateCookie value maxAge r basePath =
     \<lparr>ck_Name = ''oidc_state'', ck_Value = value, ck_Path = OIDCStateCookiePath (Some (rq_Path r)) basePath, ck_MaxAge = maxAge,
      ck_HttpOnly = True, ck_Secure = (rq_TLS r \<or> rq_XForwardedProto r = ''https''), ck_SameSiteLax = True\<rparr>"

definition StartLink ::
  "libs \<Rightarrow> IdentitiesHandler \<Rightarrow> string option \<Rightarrow> instant \<Rightarrow> consumed_map \<Rightarrow> UserContext \<Rightarrow> http_req \<Rightarrow> string \<Rightarrow> string \<Rightarrow> string
     \<Rightarrow> id_response \<times> consumed_map" where
  "StartLink L h rnd now consumed uc r token param returnPath =
     (case ValidateReturnPath returnPath of
        Inl _ \<Rightarrow> (IdInvalid ''return'' ''users.return_path_invalid'', consumed)
      | Inr _ \<Rightarrow>
          (case requireStepUp (hmac L) h token (uc_UserAccountID uc) now consumed of
             (Inl _, c) \<Rightarrow> (IdStepUpRequired, c)
           | (Inr _, c) \<Rightarrow>
               (case LinkAuthorizeURL L (ih_oauth h) rnd now (normalizeIdentityProviderID param) (uc_UserUUID uc) returnPath of
                  Inl e \<Rightarrow>
                    (if e = ErrUnknownProvider \<or> e = ErrProviderNotAvailable then IdNotFound
                     else if e = ErrInvalidReturnPath then IdInvalid ''return'' ''users.return_path_invalid''
                     else IdFault, c)
                | Inr (authURL, state) \<Rightarrow>
                    (IdStartLink authURL state (newOIDCStateCookie state 300 r (ih_cookiePath h)), c))))"

section \<open>Removing and setting methods\<close>

text \<open>Sites \<open>k\<close> and \<open>k + 1\<close>.\<close>

definition IdentityCounts :: "faults \<Rightarrow> nat \<Rightarrow> 'c db \<Rightarrow> int \<Rightarrow> (db_error, int \<times> bool) result" where
  "IdentityCounts flt k d u =
     (case at flt k (Inr (CountOIDCIdentitiesByUserAccount d u)) of
        Inl e \<Rightarrow> Inl e
      | Inr oidc \<Rightarrow>
          (case at flt (k + 1) (GetAuthLocal d u) of
             Inr _ \<Rightarrow> Inr (oidc, True)
           | Inl NoRows \<Rightarrow> Inr (oidc, False)
           | Inl e \<Rightarrow> Inl e))"

text \<open>Sites: 0 begin, 1 and 2 counts, 3 delete, 4 observer, 5 commit.\<close>

definition unlink_tx :: "bool \<Rightarrow> faults \<Rightarrow> 'c db \<Rightarrow> int \<Rightarrow> string \<Rightarrow> id_response \<times> 'c db" where
  "unlink_tx obs flt d u identUUID =
     (if flt 0 then (IdFault, d)
      else
        (case IdentityCounts flt 1 d u of
           Inl _ \<Rightarrow> (IdFault, d)
         | Inr (oidcCount, hasLocal) \<Rightarrow>
             if (oidcCount - 1) + (if hasLocal then 1 else 0) = 0 then (IdLastIdentity, d)
             else if flt 3 then (IdFault, d)
             else
               (case DeleteOIDCIdentityByUUID d identUUID u of
                  (rowsDeleted, d') \<Rightarrow>
                    if rowsDeleted = 0 then (IdentityNotFound, d)
                    else if obs \<and> flt 4 \<or> flt 5 then (IdFault, d)
                    else (IdNoContent, d'))))"

definition Unlink ::
  "(string \<Rightarrow> string \<Rightarrow> string) \<Rightarrow> (string \<Rightarrow> string option) \<Rightarrow> IdentitiesHandler \<Rightarrow> faults \<Rightarrow> instant \<Rightarrow> 'c db \<Rightarrow> consumed_map
     \<Rightarrow> UserContext \<Rightarrow> string \<Rightarrow> string \<Rightarrow> id_response \<times> consumed_map \<times> 'c db" where
  "Unlink mac uuid_Parse h flt now d consumed uc token param =
     (case uuid_Parse param of
        None \<Rightarrow> (IdInvalid ''identity_uuid'' ''invalid_uuid'', consumed, d)
      | Some identUUID \<Rightarrow>
          (case requireStepUp mac h token (uc_UserAccountID uc) now consumed of
             (Inl _, c) \<Rightarrow> (IdStepUpRequired, c, d)
           | (Inr _, c) \<Rightarrow>
               (case unlink_tx (ih_obs h) flt d (uc_UserAccountID uc) identUUID of (resp, d') \<Rightarrow> (resp, c, d'))))"

record setPasswordRequest =
  sp_CurrentPassword :: "string option"
  sp_NewPassword :: string

definition setPassword_Validate :: "setPasswordRequest \<Rightarrow> (string \<times> string) option" where
  "setPassword_Validate r =
     (if sp_NewPassword r = [] then Some (''new_password'', ''users.new_password_required'')
      else if length (sp_NewPassword r) < 12 then Some (''new_password'', ''users.password_too_short'')
      else None)"

text \<open>The check of the current password: \<open>None\<close> to go on. Then the transaction; sites 1 begin, 2 upsert, 3 observer, 4 commit.\<close>

definition current_password_ok :: "id_key \<Rightarrow> AuthLocal option \<Rightarrow> string option \<Rightarrow> id_response option" where
  "current_password_ok IDKey existing current =
     (case existing of
        None \<Rightarrow> None
      | Some al \<Rightarrow>
          (case current of
             None \<Rightarrow> Some (IdUnauthenticated ''users.bad_credentials'')
           | Some cur \<Rightarrow>
               if cur = [] then Some (IdUnauthenticated ''users.bad_credentials'')
               else
                 (case VerifyPassword IDKey cur (al_PasswordHash al) of
                    Inl _ \<Rightarrow> Some IdFault
                  | Inr ok \<Rightarrow> if ok then None else Some (IdUnauthenticated ''users.bad_credentials''))))"

definition set_password_tx :: "bool \<Rightarrow> faults \<Rightarrow> instant \<Rightarrow> 'c db \<Rightarrow> int \<Rightarrow> string \<Rightarrow> id_response \<times> 'c db" where
  "set_password_tx obs flt now d u hash =
     (if flt 1 then (IdFault, d)
      else
        (case at flt 2 (UpsertAuthLocal d now u hash) of
           Inl _ \<Rightarrow> (IdFault, d)
         | Inr d' \<Rightarrow> if obs \<and> flt 3 \<or> flt 4 then (IdFault, d) else (IdNoContent, d')))"

definition SetPassword ::
  "(string \<Rightarrow> string \<Rightarrow> string) \<Rightarrow> id_key \<Rightarrow> string option \<Rightarrow> IdentitiesHandler \<Rightarrow> faults \<Rightarrow> instant \<Rightarrow> 'c db \<Rightarrow> consumed_map
     \<Rightarrow> UserContext \<Rightarrow> string \<Rightarrow> setPasswordRequest option \<Rightarrow> id_response \<times> consumed_map \<times> 'c db" where
  "SetPassword mac IDKey salt h flt now d consumed uc token body =
     (case body of
        None \<Rightarrow> (IdBadBody, consumed, d)
      | Some req \<Rightarrow>
          (case setPassword_Validate req of
             Some (field, code) \<Rightarrow> (IdInvalid field code, consumed, d)
           | None \<Rightarrow>
               (case requireStepUp mac h token (uc_UserAccountID uc) now consumed of
                  (Inl _, c) \<Rightarrow> (IdStepUpRequired, c, d)
                | (Inr _, c) \<Rightarrow>
                    (case (case at flt 0 (GetAuthLocal d (uc_UserAccountID uc)) of
                             Inr al \<Rightarrow> Inr (Some al) | Inl NoRows \<Rightarrow> Inr None | Inl e \<Rightarrow> Inl e) of
                       Inl _ \<Rightarrow> (IdFault, c, d)
                     | Inr existing \<Rightarrow>
                         (case current_password_ok IDKey existing (sp_CurrentPassword req) of
                            Some resp \<Rightarrow> (resp, c, d)
                          | None \<Rightarrow>
                              (case HashPassword IDKey salt (sp_NewPassword req) of
                                 Inl _ \<Rightarrow> (IdFault, c, d)
                               | Inr hash \<Rightarrow>
                                   (case set_password_tx (ih_obs h) flt now d (uc_UserAccountID uc) hash of
                                      (resp, d') \<Rightarrow> (resp, c, d'))))))))"

text \<open>Sites: 0 begin, 1 and 2 counts, 3 delete, 4 observer, 5 commit.\<close>

definition remove_password_tx :: "bool \<Rightarrow> faults \<Rightarrow> 'c db \<Rightarrow> int \<Rightarrow> id_response \<times> 'c db" where
  "remove_password_tx obs flt d u =
     (if flt 0 then (IdFault, d)
      else
        (case IdentityCounts flt 1 d u of
           Inl _ \<Rightarrow> (IdFault, d)
         | Inr (oidcCount, hasLocal) \<Rightarrow>
             if \<not> hasLocal then (if flt 5 then (IdFault, d) else (IdNoContent, d))
             else if oidcCount = 0 then (IdLastIdentity, d)
             else if flt 3 \<or> obs \<and> flt 4 \<or> flt 5 then (IdFault, d)
             else (IdNoContent, DeleteAuthLocal d u)))"

definition RemovePassword ::
  "(string \<Rightarrow> string \<Rightarrow> string) \<Rightarrow> IdentitiesHandler \<Rightarrow> faults \<Rightarrow> instant \<Rightarrow> 'c db \<Rightarrow> consumed_map
     \<Rightarrow> UserContext \<Rightarrow> string \<Rightarrow> id_response \<times> consumed_map \<times> 'c db" where
  "RemovePassword mac h flt now d consumed uc token =
     (case requireStepUp mac h token (uc_UserAccountID uc) now consumed of
        (Inl _, c) \<Rightarrow> (IdStepUpRequired, c, d)
      | (Inr _, c) \<Rightarrow>
          (case remove_password_tx (ih_obs h) flt d (uc_UserAccountID uc) of (resp, d') \<Rightarrow> (resp, c, d')))"

section \<open>The step-up challenge\<close>

definition generateEmailCode :: "nat option \<Rightarrow> (string \<Rightarrow> string option) \<Rightarrow> (string \<times> string) option" where
  "generateEmailCode rnd hash =
     (case rnd of None \<Rightarrow> None | Some n \<Rightarrow> (case hash (six_digits n) of None \<Rightarrow> None | Some hs \<Rightarrow> Some (six_digits n, hs)))"

text \<open>The goroutine of \<open>StepUpRequest\<close>: the mail it sends, if any.\<close>

definition sendStepUpCode ::
  "nat option \<Rightarrow> (string \<Rightarrow> string option) \<Rightarrow> IdentitiesHandler \<Rightarrow> faults \<Rightarrow> instant \<Rightarrow> 'c db \<Rightarrow> UserContext \<Rightarrow> mail option \<times> 'c db" where
  "sendStepUpCode rnd hash h flt now d uc =
     (if \<not> ih_sender h \<or> uc_Email uc = [] then (None, d)
      else if \<not> flt 0 \<and> HasRecentEmailCode d now (uc_UserAccountID uc) ''credential_change'' (emailCodeRequestCooldown div second)
      then (None, d)
      else
        (case generateEmailCode rnd hash of
           None \<Rightarrow> (None, d)
         | Some (code, hs) \<Rightarrow>
             (case at flt 1 (CreateEmailCodeWithCooldown d now (uc_UserAccountID uc) hs ''credential_change''
                      (now + 300 * second) (emailCodeRequestCooldown div second)) of
                Inl _ \<Rightarrow> (None, d)
              | Inr (_, d') \<Rightarrow>
                  (Some \<lparr>mail_to = uc_Email uc, mail_subject = ''Credential change verification code'', mail_code = code\<rparr>, d'))))"

definition issue_step_up ::
  "(string \<Rightarrow> string \<Rightarrow> string) \<Rightarrow> IdentitiesHandler \<Rightarrow> string option \<Rightarrow> instant \<Rightarrow> UserContext \<Rightarrow> id_response" where
  "issue_step_up mac h rnd now uc =
     (case IssueStepUpToken mac (ih_jwtSecret h) (uc_UserAccountID uc) StepUpTTL rnd now of
        Inl _ \<Rightarrow> IdFault
      | Inr (token, _, _) \<Rightarrow> IdStepUpToken token (StepUpTTL div second))"

definition StepUpVerify ::
  "(string \<Rightarrow> string \<Rightarrow> string) \<Rightarrow> (string \<Rightarrow> string \<Rightarrow> bool) \<Rightarrow> IdentitiesHandler \<Rightarrow> string option \<Rightarrow> faults \<Rightarrow> instant \<Rightarrow> 'c db
     \<Rightarrow> UserContext \<Rightarrow> string option \<Rightarrow> id_response \<times> 'c db" where
  "StepUpVerify mac bcrypt_ok h rnd flt now d uc body =
     (let refuse = IdUnauthenticated [] in
      case body of
        None \<Rightarrow> (IdBadBody, d)
      | Some code \<Rightarrow>
          if code = [] then (IdInvalid [] [], d)
          else
            (case at flt 0 (GetActiveEmailCode d now (uc_UserAccountID uc) ''credential_change'') of
               Inl NoRows \<Rightarrow> (refuse, d)
             | Inl _ \<Rightarrow> (IdFault, d)
             | Inr emailCode \<Rightarrow>
                 (case at flt 1 (ClaimEmailCodeAttempt d now (ec_ID emailCode) maxEmailCodeAttempts) of
                    Inl NoRows \<Rightarrow> (refuse, d)
                  | Inl _ \<Rightarrow> (IdFault, d)
                  | Inr (claimed, d1) \<Rightarrow>
                      if \<not> bcrypt_ok (ec_CodeHash claimed) code then (refuse, d1)
                      else if ec_ConsumedAt claimed = None then
                        (if flt 2 then (IdFault, d1)
                         else
                           (case ConsumeEmailCode d1 now (ec_ID emailCode) of
                              (n, d2) \<Rightarrow> if n = 0 then (refuse, d2) else (issue_step_up mac h rnd now uc, d2)))
                      else (issue_step_up mac h rnd now uc, d1))))"

section \<open>Sign-in methods\<close>

definition has_method :: "'c db \<Rightarrow> int \<Rightarrow> bool" where
  "has_method d u \<longleftrightarrow> u \<in> oi_UserAccountID ` set (auth_oidc_identities d) \<or> u \<in> al_UserAccountID ` set (auth_local d)"

lemma has_method_mono:
  "has_method d u \<Longrightarrow> oi_UserAccountID ` set (auth_oidc_identities d) \<subseteq> oi_UserAccountID ` set (auth_oidc_identities d') \<Longrightarrow>
     al_UserAccountID ` set (auth_local d) \<subseteq> al_UserAccountID ` set (auth_local d') \<Longrightarrow> has_method d' u"
  by (auto simp: has_method_def)

lemma GetAuthLocal_iff: "(\<exists>al. GetAuthLocal d u = Inr al) \<longleftrightarrow> u \<in> al_UserAccountID ` set (auth_local d)"
  by (auto simp: GetAuthLocal_def one_def find_None_iff split: option.splits dest: find_SomeD)

lemma IdentityCounts_Inr:
  assumes "IdentityCounts flt k d u = Inr (n, l)"
  shows "n = int (length (filter (\<lambda>i. oi_UserAccountID i = u) (auth_oidc_identities d)))"
    and "l \<longleftrightarrow> u \<in> al_UserAccountID ` set (auth_local d)"
proof -
  have "n = CountOIDCIdentitiesByUserAccount d u \<and> (l \<longleftrightarrow> (\<exists>al. GetAuthLocal d u = Inr al))"
    using assms by (auto simp: IdentityCounts_def at_def split: sum.splits db_error.splits if_splits)
  then show "n = int (length (filter (\<lambda>i. oi_UserAccountID i = u) (auth_oidc_identities d)))"
    and "l \<longleftrightarrow> u \<in> al_UserAccountID ` set (auth_local d)"
    by (simp_all add: CountOIDCIdentitiesByUserAccount_def GetAuthLocal_iff)
qed

lemma another_with_key:
  assumes "distinct (map key xs)" "2 \<le> length (filter P xs)"
  shows "\<exists>x \<in> set xs. P x \<and> key x \<noteq> k"
proof (rule ccontr)
  assume "\<not> ?thesis"
  then have "set (map key (filter P xs)) \<subseteq> {k}" by auto
  then have "card (set (map key (filter P xs))) \<le> 1" using card_mono [of "{k}"] by fastforce
  moreover have "card (set (map key (filter P xs))) = length (map key (filter P xs))"
    using assms(1) by (intro distinct_card distinct_map_filter)
  ultimately have "length (map key (filter P xs)) \<le> 1" by (simp only:)
  then show False using assms(2) by simp
qed

lemma unlink_tx_cases:
  assumes "unlink_tx obs flt d u uuid = (resp, d')"
  obtains "d' = d" "resp \<noteq> IdNoContent"
  | n l r where "resp = IdNoContent" "IdentityCounts flt 1 d u = Inr (n, l)" "(n - 1) + (if l then 1 else 0) \<noteq> 0"
      "DeleteOIDCIdentityByUUID d uuid u = (r, d')" "r \<noteq> 0"
  using assms by (auto simp: unlink_tx_def split: if_splits sum.splits prod.splits)

lemma unlink_keeps_method:
  assumes t: "unlink_tx obs flt d u uuid = (resp, d')" and ok: "db_ok d" and m: "has_method d v"
  shows "has_method d' v"
  using t
proof (cases rule: unlink_tx_cases)
  case 1
  with m show ?thesis by simp
next
  case (2 n l r)
  let ?is = "auth_oidc_identities d"
  have d': "auth_local d' = auth_local d" "auth_oidc_identities d' = filter (\<lambda>i. \<not> (oi_Uuid i = uuid \<and> oi_UserAccountID i = u)) ?is"
    and r: "r = int (length (filter (\<lambda>i. oi_Uuid i = uuid \<and> oi_UserAccountID i = u) ?is))"
    using 2 by (auto simp: DeleteOIDCIdentityByUUID_def)
  note c = IdentityCounts_Inr [OF 2(2)]
  show ?thesis
  proof (cases "v = u \<and> \<not> l")
    case True
    have "0 < length (filter (\<lambda>i. oi_UserAccountID i = u) ?is)"
      using 2(5) unfolding r by (auto simp: filter_empty_conv)
    moreover have "int (length (filter (\<lambda>i. oi_UserAccountID i = u) ?is)) \<noteq> 1" using 2(3) c(1) True by simp
    ultimately have two: "2 \<le> length (filter (\<lambda>i. oi_UserAccountID i = u) ?is)" by linarith
    have "distinct (map oi_Uuid ?is)" using ok by (auto simp: db_ok_def identities_ok_def)
    from another_with_key [OF this two] obtain x where "x \<in> set ?is" "oi_UserAccountID x = u" "oi_Uuid x \<noteq> uuid" by blast
    with True d' show ?thesis by (auto simp: has_method_def)
  next
    case False
    then show ?thesis using m d' c(2) by (auto simp: has_method_def)
  qed
qed

lemma remove_password_keeps_method:
  assumes t: "remove_password_tx obs flt d u = (resp, d')" and m: "has_method d v"
  shows "has_method d' v"
proof (cases "d' = d")
  case False
  then obtain n l where c: "IdentityCounts flt 1 d u = Inr (n, l)" "n \<noteq> 0" and d': "d' = DeleteAuthLocal d u"
    using t by (auto simp: remove_password_tx_def split: if_splits sum.splits prod.splits)
  then have "u \<in> oi_UserAccountID ` set (auth_oidc_identities d)"
    using IdentityCounts_Inr(1) [OF c(1)] by (auto simp: filter_empty_conv)
  then show ?thesis using m by (cases "v = u") (auto simp: has_method_def d' DeleteAuthLocal_def)
qed (use m in simp)

lemma upsert_local_ids:
  assumes "UpsertAuthLocal d now u hash = Inr d'"
  shows "auth_oidc_identities d' = auth_oidc_identities d"
    "al_UserAccountID ` set (auth_local d) \<subseteq> al_UserAccountID ` set (auth_local d')"
proof -
  show "auth_oidc_identities d' = auth_oidc_identities d"
    using assms by (auto simp: UpsertAuthLocal_def split: if_splits)
  have "al_UserAccountID a \<in> al_UserAccountID ` set (auth_local d')" if "a \<in> set (auth_local d)" for a
  proof (cases "al_UserAccountID a = u")
    case True
    then show ?thesis using UpsertAuthLocal_effect(5) [OF assms] by (metis imageI)
  next
    case False
    then have "a \<in> {al \<in> set (auth_local d'). al_UserAccountID al \<noteq> u}"
      using that UpsertAuthLocal_effect(2) [OF assms] by simp
    then show ?thesis by simp
  qed
  then show "al_UserAccountID ` set (auth_local d) \<subseteq> al_UserAccountID ` set (auth_local d')" by blast
qed

lemma upsert_keeps_method:
  assumes "UpsertAuthLocal d now u hash = Inr d'" "has_method d v"
  shows "has_method d' v"
  using assms(2) upsert_local_ids [OF assms(1)] by (intro has_method_mono [OF assms(2)]) auto

lemma Touch_users:
  "oi_UserAccountID ` set (auth_oidc_identities (TouchOIDCIdentityLastSeen d now i)) = oi_UserAccountID ` set (auth_oidc_identities d)"
proof -
  have "map oi_UserAccountID (auth_oidc_identities (TouchOIDCIdentityLastSeen d now i)) = map oi_UserAccountID (auth_oidc_identities d)"
    by (simp add: TouchOIDCIdentityLastSeen_def)
  then show ?thesis by (metis set_map)
qed

text \<open>What any number of requests, by any number of users, do to database and used tokens.\<close>

inductive cred_step ::
  "(string \<Rightarrow> string \<Rightarrow> string) \<Rightarrow> (string \<Rightarrow> string option) \<Rightarrow> id_key \<Rightarrow> IdentitiesHandler \<Rightarrow> 'c OIDCHandler
     \<Rightarrow> 'c db \<times> consumed_map \<Rightarrow> 'c db \<times> consumed_map \<Rightarrow> bool" for mac P IDKey h H where
  unlink: "Unlink mac P h flt now d c uc token param = (resp, c', d') \<Longrightarrow> cred_step mac P IDKey h H (d, c) (d', c')"
| set_password: "SetPassword mac IDKey salt h flt now d c uc token body = (resp, c', d') \<Longrightarrow> cred_step mac P IDKey h H (d, c) (d', c')"
| remove_password: "RemovePassword mac h flt now d c uc token = (resp, c', d') \<Longrightarrow> cred_step mac P IDKey h H (d, c) (d', c')"
| link: "handleLinkMode P parses H flt now iuuid d p payload = (oresp, d', ev) \<Longrightarrow> cred_step mac P IDKey h H (d, c) (d', c)"
| other_tables: "db_write d d' \<Longrightarrow> auth_local d' = auth_local d \<Longrightarrow> auth_oidc_identities d' = auth_oidc_identities d \<Longrightarrow>
     cred_step mac P IDKey h H (d, c) (d', c)"
| janitor: "cred_step mac P IDKey h H (d, c) (d, janitor_tick now c)"

definition method_inv :: "int \<Rightarrow> 'c db \<times> consumed_map \<Rightarrow> bool" where
  "method_inv u s \<longleftrightarrow> db_ok (fst s) \<and> has_method (fst s) u"

lemma unlink_tx_write: "unlink_tx obs flt d u uuid = (resp, d') \<Longrightarrow> db_ok d \<Longrightarrow> db_ok d'"
  by (erule unlink_tx_cases) (auto intro: db_write_ok [OF delete_identity])

lemma remove_password_tx_write: "remove_password_tx obs flt d u = (resp, d') \<Longrightarrow> db_ok d \<Longrightarrow> db_ok d'"
  by (auto simp: remove_password_tx_def split: if_splits sum.splits intro: db_write_ok [OF delete_local])

lemma SetPassword_db:
  assumes "SetPassword mac IDKey salt h flt now d c uc token body = (resp, c', d')"
  shows "d' = d \<or> (\<exists>hash. UpsertAuthLocal d now (uc_UserAccountID uc) hash = Inr d')"
  using assms unfolding SetPassword_def set_password_tx_def
  by (auto split: option.splits prod.splits sum.splits if_splits)

lemma handleLinkMode_identities:
  assumes "handleLinkMode P parses H flt now iuuid d p payload = (resp, d', ev)"
  shows "auth_local d' = auth_local d"
    "oi_UserAccountID ` set (auth_oidc_identities d) \<subseteq> oi_UserAccountID ` set (auth_oidc_identities d')"
proof -
  have "auth_local d' = auth_local d \<and>
      oi_UserAccountID ` set (auth_oidc_identities d) \<subseteq> oi_UserAccountID ` set (auth_oidc_identities d')"
    using assms unfolding handleLinkMode_def link_insert_def
    by (auto simp: Touch_users Touch_auth_local InsertOIDCIdentity_def Let_def
        split: if_splits sum.splits option.splits db_error.splits)
  then show "auth_local d' = auth_local d"
    "oi_UserAccountID ` set (auth_oidc_identities d) \<subseteq> oi_UserAccountID ` set (auth_oidc_identities d')"
    by blast+
qed

lemma handleLinkMode_ok:
  assumes "handleLinkMode P parses H flt now iuuid d p payload = (resp, d', ev)" "db_ok d"
  shows "db_ok d'"
  using assms link_insert_effect [of parses H flt now iuuid d _ p "ReturnPath payload" resp d' ev]
  unfolding handleLinkMode_def
  by (fastforce simp: db_ok_Touch split: if_splits sum.splits option.splits db_error.splits)

lemma Unlink_db:
  "Unlink mac P h flt now d c uc token param = (resp, c', d') \<Longrightarrow>
     d' = d \<or> (\<exists>u resp'. unlink_tx (ih_obs h) flt d (uc_UserAccountID uc) u = (resp', d'))"
  by (auto simp: Unlink_def split: option.splits prod.splits sum.splits)

lemma RemovePassword_db:
  "RemovePassword mac h flt now d c uc token = (resp, c', d') \<Longrightarrow>
     d' = d \<or> (\<exists>resp'. remove_password_tx (ih_obs h) flt d (uc_UserAccountID uc) = (resp', d'))"
  by (auto simp: RemovePassword_def split: prod.splits sum.splits)

lemma cred_step_inv: "cred_step mac P IDKey h H s t \<Longrightarrow> method_inv u s \<Longrightarrow> method_inv u t"
proof (induction rule: cred_step.induct)
  case (unlink flt now d c uc token param resp c' d')
  then show ?case
    using Unlink_db [OF unlink.hyps] by (auto simp: method_inv_def intro: unlink_keeps_method unlink_tx_write)
next
  case (set_password salt flt now d c uc token body resp c' d')
  then show ?case
    using SetPassword_db [OF set_password.hyps]
    by (auto simp: method_inv_def intro: db_write_ok [OF upsert_local] upsert_keeps_method)
next
  case (remove_password flt now d c uc token resp c' d')
  then show ?case
    using RemovePassword_db [OF remove_password.hyps]
    by (auto simp: method_inv_def intro: remove_password_keeps_method remove_password_tx_write)
next
  case (link parses flt now iuuid d p payload oresp d' ev c)
  then show ?case
    using handleLinkMode_identities [OF link.hyps] handleLinkMode_ok [OF link.hyps]
    by (auto simp: method_inv_def intro: has_method_mono)
next
  case (other_tables d d' c)
  then show ?case by (auto simp: method_inv_def has_method_def intro: db_write_ok)
next
  case (janitor d c now)
  then show ?case by (simp add: method_inv_def)
qed

interpretation sign_in_methods: invariant_system "method_inv u" "cred_step mac P IDKey h H" "method_inv u"
  for u mac P IDKey h H
  by unfold_locales (auto intro: cred_step_inv)

lemma requireStepUp_ok:
  assumes "requireStepUp mac h token uid now c = (Inr x, c')" "ih_stepUpRequired h"
  shows "\<exists>p. checkStepUpToken mac (ih_jwtSecret h) token uid now = Inr p \<and> c (su_JTI p) = None \<and> c' (su_JTI p) = Some (su_Exp p)"
  using assms by (auto simp: requireStepUp_def checkStepUp_def VerifyStepUpToken_Inr_iff split: if_splits)

text \<open>What one account's requests can change.\<close>

definition others_same :: "int \<Rightarrow> 'c db \<Rightarrow> 'c db \<Rightarrow> bool" where
  "others_same u d d' \<longleftrightarrow> user_accounts d' = user_accounts d \<and>
     {i \<in> set (auth_oidc_identities d'). oi_UserAccountID i \<noteq> u} = {i \<in> set (auth_oidc_identities d). oi_UserAccountID i \<noteq> u} \<and>
     {a \<in> set (auth_local d'). al_UserAccountID a \<noteq> u} = {a \<in> set (auth_local d). al_UserAccountID a \<noteq> u}"

lemma others_same_tx:
  "unlink_tx obs flt d u uuid = (resp, d') \<Longrightarrow> others_same u d d'"
  "remove_password_tx obs flt d u = (resp, d') \<Longrightarrow> others_same u d d'"
  "set_password_tx obs flt now d u hash = (resp, d') \<Longrightarrow> others_same u d d'"
proof -
  show "unlink_tx obs flt d u uuid = (resp, d') \<Longrightarrow> others_same u d d'"
    by (erule unlink_tx_cases) (auto simp: others_same_def DeleteOIDCIdentityByUUID_def)
  show "remove_password_tx obs flt d u = (resp, d') \<Longrightarrow> others_same u d d'"
    by (auto simp: remove_password_tx_def others_same_def DeleteAuthLocal_def split: if_splits sum.splits prod.splits)
  assume "set_password_tx obs flt now d u hash = (resp, d')"
  then have "d' = d \<or> UpsertAuthLocal d now u hash = Inr d'"
    by (auto simp: set_password_tx_def split: if_splits sum.splits)
  then show "others_same u d d'"
  proof
    assume U: "UpsertAuthLocal d now u hash = Inr d'"
    show ?thesis
      using UpsertAuthLocal_effect(2,4) [OF U] upsert_local_ids(1) [OF U] by (simp add: others_same_def)
  qed (simp add: others_same_def)
qed

section \<open>Properties\<close>

text \<open>
  C25. Nobody is locked out: whatever sequence of requests of any users runs (unlinking identities,
  setting and removing passwords, linking in a callback, all other writes to the database, and the
  janitor in between; each transaction of these is serializable), an account that has a way to sign
  in keeps at least one.
\<close>

theorem sign_in_method_kept:
  assumes "db_ok d" "has_method d u" "(cred_step mac P IDKey h H)\<^sup>*\<^sup>* (d, c) (d', c')"
  shows "has_method d' u"
proof -
  have "method_inv u (d, c)" using assms(1,2) by (simp add: method_inv_def)
  from sign_in_methods.reachable_inv [OF this assms(3)] show ?thesis by (simp add: method_inv_def)
qed

text \<open>
  C26. With the step-up challenge enabled, a change of credentials needs a step-up token issued for
  the caller's account and not used before, and uses it up; and it concerns the caller's own
  credentials only.
\<close>

theorem credential_change_needs_step_up:
  assumes "Unlink mac P h flt now d c uc token param = (resp, c', d') \<or>
      SetPassword mac IDKey salt h flt now d c uc token body = (resp, c', d') \<or>
      RemovePassword mac h flt now d c uc token = (resp, c', d')"
    and "d' \<noteq> d" "ih_stepUpRequired h"
  shows "(\<exists>p. checkStepUpToken mac (ih_jwtSecret h) token (uc_UserAccountID uc) now = Inr p \<and>
       c (su_JTI p) = None \<and> c' (su_JTI p) = Some (su_Exp p)) \<and>
    others_same (uc_UserAccountID uc) d d'"
proof -
  let ?u = "uc_UserAccountID uc"
  have "\<exists>x. requireStepUp mac h token ?u now c = (Inr x, c') \<and> others_same ?u d d'"
    using assms(1)
  proof (elim disjE)
    assume "Unlink mac P h flt now d c uc token param = (resp, c', d')"
    with assms(2) show ?thesis
      by (auto simp: Unlink_def split: option.splits prod.splits sum.splits dest: others_same_tx(1))
  next
    assume "SetPassword mac IDKey salt h flt now d c uc token body = (resp, c', d')"
    with assms(2) show ?thesis
      by (auto simp: SetPassword_def split: option.splits prod.splits sum.splits db_error.splits dest: others_same_tx(3))
  next
    assume "RemovePassword mac h flt now d c uc token = (resp, c', d')"
    with assms(2) show ?thesis
      by (auto simp: RemovePassword_def split: prod.splits sum.splits dest: others_same_tx(2))
  qed
  then show ?thesis using requireStepUp_ok assms(3) by blast
qed

text \<open>
  The step-up challenge: a token is issued only against a live, unexpired code for a credential
  change of that account, with attempts left, that the presented code matches; the code is spent.
  Until five minutes later the token passes the step-up gate of that account, unless it was used,
  and it passes for no other account and not after that.
\<close>

theorem StepUpVerify_token:
  assumes run: "StepUpVerify mac bcrypt_ok h (Some raw) flt now d uc (Some code) = (IdStepUpToken tok ttl, d')"
    and ok: "db_ok d" and int: "in_int64 (uc_UserAccountID uc)" "in_int64 (Unix (now + StepUpTTL))"
  shows "(\<exists>k \<in> set (email_codes d). ec_UserAccountID k = uc_UserAccountID uc \<and> ec_Purpose k = ''credential_change'' \<and>
       ec_ConsumedAt k = None \<and> now < ec_ExpiresAt k \<and> ec_FailedAttempts k < 5 \<and> bcrypt_ok (ec_CodeHash k) code \<and>
       (\<forall>x \<in> set (email_codes d'). ec_ID x = ec_ID k \<longrightarrow> ec_ConsumedAt x \<noteq> None)) \<and>
    (\<forall>u now' c. c (hex_encode raw) = None \<longrightarrow>
       is_ok (fst (checkStepUp mac tok u True (ih_jwtSecret h) now' c)) =
         (u = uc_UserAccountID uc \<and> Unix now' \<le> Unix (now + StepUpTTL)))"
proof -
  obtain k claimed d1 where k: "GetActiveEmailCode d now (uc_UserAccountID uc) ''credential_change'' = Inr k"
    "ClaimEmailCodeAttempt d now (ec_ID k) 5 = Inr (claimed, d1)" "bcrypt_ok (ec_CodeHash claimed) code"
    "ec_ConsumedAt claimed = None \<and> snd (ConsumeEmailCode d1 now (ec_ID k)) = d' \<or> ec_ConsumedAt claimed \<noteq> None \<and> d' = d1"
    and iss: "issue_step_up mac h (Some raw) now uc = IdStepUpToken tok ttl"
    using run unfolding StepUpVerify_def Let_def maxEmailCodeAttempts_def
    by (auto split: if_splits sum.splits prod.splits db_error.splits)
  have dist: "distinct (map ec_ID (email_codes d))" using ok by (auto simp: db_ok_def codes_ok_def ids_ok_def)
  obtain c0 where c0: "c0 \<in> set (email_codes d)" "claimable (ec_ID k) 5 c0" "claimed = claim_row now 5 c0"
    "\<forall>x \<in> set (email_codes d1). ec_ID x = ec_ID k \<longrightarrow> x = claimed"
    using claim_Inr [OF k(2) dist] by blast
  have "c0 = k" using c0(1,2) GetActiveEmailCode_Inr [OF k(1)] dist by (auto simp: claimable_def distinct_map dest: inj_onD)
  have spent: "\<forall>x \<in> set (email_codes d'). ec_ID x = ec_ID k \<longrightarrow> ec_ConsumedAt x \<noteq> None"
    using k(4)
  proof
    assume "ec_ConsumedAt claimed = None \<and> snd (ConsumeEmailCode d1 now (ec_ID k)) = d'"
    then show ?thesis by (metis consumed_after_Consume prod.collapse)
  qed (use c0(4) in auto)
  have code: "\<exists>k \<in> set (email_codes d). ec_UserAccountID k = uc_UserAccountID uc \<and> ec_Purpose k = ''credential_change'' \<and>
       ec_ConsumedAt k = None \<and> now < ec_ExpiresAt k \<and> ec_FailedAttempts k < 5 \<and> bcrypt_ok (ec_CodeHash k) code \<and>
       (\<forall>x \<in> set (email_codes d'). ec_ID x = ec_ID k \<longrightarrow> ec_ConsumedAt x \<noteq> None)"
    using GetActiveEmailCode_Inr [OF k(1)] spent k(3) c0 \<open>c0 = k\<close>
    by (intro bexI [of _ k]) (auto simp: claimable_def claim_row_def)
  obtain exp jti where t: "IssueStepUpToken mac (ih_jwtSecret h) (uc_UserAccountID uc) StepUpTTL (Some raw) now = Inr (tok, jti, exp)"
    using iss by (auto simp: issue_step_up_def split: sum.splits)
  then have "jti = hex_encode raw" "exp = now + StepUpTTL" "tok \<noteq> []"
    by (auto simp: IssueStepUpToken_def Let_def split: if_splits)
  then have "is_ok (fst (checkStepUp mac tok u True (ih_jwtSecret h) now' c)) =
      (u = uc_UserAccountID uc \<and> Unix now' \<le> Unix (now + StepUpTTL))" if "c (hex_encode raw) = None" for u now' c
    using checkStepUpToken_issued [OF t int(1), of u now'] int(2) that
    by (auto simp: checkStepUp_def VerifyStepUpToken_def isConsumedJTI_def storeConsumedJTI_def)
  with code show ?thesis by blast
qed

text \<open>
  The check for the last method comes before the look-up of the identity: a user whose only method is
  the password is told that the last method cannot be removed, even for an identity that does not
  exist, while a user with two methods gets \<open>404\<close>.
\<close>

lemma Unlink_last_before_not_found:
  assumes "P param = Some x" "requireStepUp mac h token (uc_UserAccountID uc) now c = (Inr y, c')" "\<And>k. \<not> flt k"
    and "uc_UserAccountID uc \<notin> oi_UserAccountID ` set (auth_oidc_identities d)"
    and "uc_UserAccountID uc \<in> al_UserAccountID ` set (auth_local d)"
  shows "Unlink mac P h flt now d c uc token param = (IdLastIdentity, c', d)"
proof -
  obtain al where "GetAuthLocal d (uc_UserAccountID uc) = Inr al" using assms(5) GetAuthLocal_iff by blast
  moreover have "CountOIDCIdentitiesByUserAccount d (uc_UserAccountID uc) = 0"
    using assms(4) by (force simp: CountOIDCIdentitiesByUserAccount_def filter_empty_conv)
  ultimately show ?thesis
    using assms(1-3) by (simp add: Unlink_def unlink_tx_def IdentityCounts_def at_def)
qed

section \<open>Examples\<close>

definition demo_ih :: "bool \<Rightarrow> IdentitiesHandler" where
  "demo_ih b = \<lparr>ih_oauth = demo_oauth ''n'', ih_obs = False, ih_sender = True, ih_jwtSecret = ''k'', ih_stepUpRequired = b, ih_cookiePath = []\<rparr>"

definition demo_uc :: UserContext where
  "demo_uc = \<lparr>uc_UserAccountID = 1, uc_UserUUID = ''u1'', uc_EntityID = 7, uc_Email = ''a@b'', uc_EmailVerifiedAt = None,
     uc_AssumedUser = None, uc_AppID = None, uc_AppRoles = []\<rparr>"

lemma demo_uc_sel [simp]: "uc_UserAccountID demo_uc = 1" "uc_UserUUID demo_uc = ''u1''"
  by (simp_all add: demo_uc_def)

text \<open>An account with two identities, of which \<open>x1\<close> is unlinked.\<close>

lemma unlink_demo:
  obtains d d' :: "unit db" where "db_ok d" "has_method d 1" "d' \<noteq> d"
    "\<And>mac b now token c c' y. requireStepUp mac (demo_ih b) token 1 now c = (Inr y, c') \<Longrightarrow>
       Unlink mac Some (demo_ih b) (\<lambda>_. False) now d c demo_uc token ''x1'' = (IdNoContent, c', d')"
proof -
  obtain d0 :: "unit db" and u where d0: "db_ok d0" "user_accounts d0 = [u]" "ua_ID u = 1" "auth_oidc_identities d0 = []"
    "GetUserAccountByEmail d0 ''a@b'' = Inr u" "ua_EmailVerifiedAt u = None" "ua_Uuid u = ''u1''" "ua_AccountHolder u = 7"
    by (rule resolver_demo)
  obtain i1 d1 where i1: "InsertOIDCIdentity d0 0 ''x1'' 1 ''p'' ''s'' None None = Inr (i1, d1)"
    using d0 by (simp add: InsertOIDCIdentity_def Let_def account_exists_def)
  then have d1: "auth_oidc_identities d1 = [i1]" "oi_Uuid i1 = ''x1''" "oi_UserAccountID i1 = 1" "oi_Issuer i1 = ''p''" "user_accounts d1 = [u]"
    using d0 by (auto simp: InsertOIDCIdentity_def Let_def split: if_splits)
  obtain i2 d where i2: "InsertOIDCIdentity d1 0 ''x2'' 1 ''q'' ''s'' None None = Inr (i2, d)"
    using d0 d1 by (simp add: InsertOIDCIdentity_def Let_def account_exists_def)
  then have d: "auth_oidc_identities d = [i1, i2]" "oi_Uuid i2 = ''x2''" "oi_UserAccountID i2 = 1"
    using d1 by (auto simp: InsertOIDCIdentity_def Let_def split: if_splits)
  let ?d' = "d\<lparr>auth_oidc_identities := [i2]\<rparr>"
  have "auth_oidc_identities ?d' \<noteq> auth_oidc_identities d" using d by simp
  then have ne: "?d' \<noteq> d" by metis
  have del: "DeleteOIDCIdentityByUUID d ''x1'' 1 = (1, ?d')"
    using d d1 by (simp add: DeleteOIDCIdentityByUUID_def)
  have cnt: "CountOIDCIdentitiesByUserAccount d 1 = 2" using d d1 by (simp add: CountOIDCIdentitiesByUserAccount_def)
  have tx: "unlink_tx False (\<lambda>_. False) d 1 ''x1'' = (IdNoContent, ?d')"
    by (cases "GetAuthLocal d 1"; cases "find (\<lambda>a. al_UserAccountID a = 1) (auth_local d)")
       (simp_all add: unlink_tx_def IdentityCounts_def at_def cnt del GetAuthLocal_def)
  have ok: "db_ok d" using db_ok_InsertOIDCIdentity [OF i2] db_ok_InsertOIDCIdentity [OF i1] d0(1) by blast
  have m: "has_method d 1" using d by (simp add: has_method_def)
  show ?thesis
    by (rule that [OF ok m ne]) (simp add: Unlink_def tx demo_ih_def)
qed

theorem sign_in_method_kept_witness:
  "\<exists>(d :: unit db) d' c'. db_ok d \<and> has_method d 1 \<and>
     (cred_step (\<lambda>k m. m) Some (\<lambda>_ _ _ _ _ _. None) (demo_ih False) (demo_handler ''n''))\<^sup>*\<^sup>* (d, Map.empty) (d', c') \<and> d' \<noteq> d \<and> has_method d' 1"
proof -
  obtain d d' :: "unit db" where d: "db_ok d" "has_method d 1" "d' \<noteq> d"
    "\<And>mac b now token c c' y. requireStepUp mac (demo_ih b) token 1 now c = (Inr y, c') \<Longrightarrow>
       Unlink mac Some (demo_ih b) (\<lambda>_. False) now d c demo_uc token ''x1'' = (IdNoContent, c', d')"
    by (rule unlink_demo) blast
  have "requireStepUp (\<lambda>k m. m) (demo_ih False) [] 1 0 Map.empty = (Inr (), Map.empty)"
    by (simp add: requireStepUp_def checkStepUp_def demo_ih_def)
  from unlink [OF d(4) [OF this]]
  have r: "(cred_step (\<lambda>k m. m) Some (\<lambda>_ _ _ _ _ _. None) (demo_ih False) (demo_handler ''n''))\<^sup>*\<^sup>* (d, Map.empty) (d', Map.empty)"
    by (rule r_into_rtranclp)
  from sign_in_method_kept [OF d(1,2) r] d(1,2,3) r show ?thesis by blast
qed

lemma step_up_demo: "\<exists>tok c'. checkStepUp mac tok 1 True ''k'' 0 Map.empty = (Inr (), c')"
proof -
  obtain tok jti exp where t: "IssueStepUpToken mac ''k'' 1 StepUpTTL (Some ''r'') 0 = Inr (tok, jti, exp)"
    by (simp add: IssueStepUpToken_def Let_def)
  then have e: "exp = StepUpTTL" "tok \<noteq> []" by (auto simp: IssueStepUpToken_def Let_def)
  have int: "in_int64 (1 :: int)" "in_int64 (Unix exp)" "Unix 0 \<le> Unix (0 + StepUpTTL)"
    using e by (simp_all add: in_int64_def Unix_def second_def StepUpTTL_def)
  show ?thesis
    using checkStepUpToken_issued [OF t int(1,2), of 1 0] int(3) e(2)
    by (intro exI [of _ tok]) (simp add: checkStepUp_def VerifyStepUpToken_def isConsumedJTI_def storeConsumedJTI_def)
qed

theorem credential_change_needs_step_up_witness:
  "\<exists>tok c' (d :: unit db) d'. Unlink (\<lambda>k m. m) Some (demo_ih True) (\<lambda>_. False) 0 d Map.empty demo_uc tok ''x1'' = (IdNoContent, c', d') \<and> d' \<noteq> d \<and>
     others_same 1 d d' \<and> c' \<noteq> Map.empty"
proof -
  let ?mac = "\<lambda>k m :: string. m"
  obtain d d' :: "unit db" where d: "db_ok d" "has_method d 1" "d' \<noteq> d"
    "\<And>mac b now token c c' y. requireStepUp mac (demo_ih b) token 1 now c = (Inr y, c') \<Longrightarrow>
       Unlink mac Some (demo_ih b) (\<lambda>_. False) now d c demo_uc token ''x1'' = (IdNoContent, c', d')"
    by (rule unlink_demo) blast
  obtain tok c' where "requireStepUp ?mac (demo_ih True) tok 1 0 Map.empty = (Inr (), c')"
    using step_up_demo [of ?mac] by (auto simp: requireStepUp_def demo_ih_def)
  note run = d(4) [OF this]
  have "ih_stepUpRequired (demo_ih True)" by (simp add: demo_ih_def)
  from credential_change_needs_step_up [OF disjI1 [OF run] d(3) this] run d(3) show ?thesis by fastforce
qed

theorem StepUpVerify_token_witness:
  "\<exists>(d :: unit db) d' tok ttl. db_ok d \<and>
     StepUpVerify (\<lambda>k m. m) (\<lambda>hs code. hs = code) (demo_ih True) (Some ''r'') (\<lambda>_. False) 0 d demo_uc (Some ''h'') = (IdStepUpToken tok ttl, d') \<and>
     is_ok (fst (checkStepUp (\<lambda>k m. m) tok 1 True ''k'' (4 * second) Map.empty))"
proof -
  obtain d0 :: "unit db" and u where d0: "db_ok d0" "user_accounts d0 = [u]" "ua_ID u = 1" "auth_oidc_identities d0 = []"
    "GetUserAccountByEmail d0 ''a@b'' = Inr u" "ua_EmailVerifiedAt u = None" "ua_Uuid u = ''u1''" "ua_AccountHolder u = 7"
    by (rule resolver_demo)
  obtain k d where k: "CreateEmailCode (d0\<lparr>email_codes := []\<rparr>) 0 1 ''h'' ''credential_change'' 300 = Inr (k, d)"
    using d0 by (simp add: CreateEmailCode_def Let_def email_code_purposes_def account_exists_def)
  then have kk: "email_codes d = [k]" "ec_FailedAttempts k = 0" "ec_ConsumedAt k = None" "ec_CodeHash k = ''h''"
    "ec_UserAccountID k = 1" "ec_Purpose k = ''credential_change''" "ec_ExpiresAt k = 300"
    by (auto simp: CreateEmailCode_def Let_def split: if_splits)
  have "db_ok (d0\<lparr>email_codes := []\<rparr>)"
    using d0(1) by (simp add: db_ok_def accounts_ok_def identities_ok_def codes_ok_def locals_ok_def resets_ok_def keys_ok_def anon_ok_def apps_ok_def ids_ok_def fk_def account_exists_def)
  then have ok: "db_ok d" by (rule db_ok_CreateEmailCode [OF k])
  have "GetActiveEmailCode d 0 1 ''credential_change'' = Inr k"
    using kk by (simp add: GetActiveEmailCode_def newest_def)
  then obtain tok ttl d' where r: "StepUpVerify (\<lambda>k m. m) (\<lambda>hs code. hs = code) (demo_ih True) (Some ''r'') (\<lambda>_. False) 0 d demo_uc (Some ''h'') = (IdStepUpToken tok ttl, d')"
    using kk by (simp add: StepUpVerify_def at_def ClaimEmailCodeAttempt_def claimable_def claim_row_def maxEmailCodeAttempts_def
        ConsumeEmailCode_def consumable_def issue_step_up_def demo_ih_def IssueStepUpToken_def Let_def)
  have "in_int64 (uc_UserAccountID demo_uc)" "in_int64 (Unix (0 + StepUpTTL))" "Unix (4 * second) \<le> Unix (0 + StepUpTTL)" "ih_jwtSecret (demo_ih True) = ''k''"
    by (simp_all add: in_int64_def Unix_def second_def StepUpTTL_def demo_ih_def)
  with StepUpVerify_token [OF r ok] have "is_ok (fst (checkStepUp (\<lambda>k m. m) tok 1 True ''k'' (4 * second) Map.empty))" by simp
  with ok r show ?thesis by blast
qed

end
