(* ===== verification/SshKeys.thy ===== *)
theory SshKeys
  imports Identities
begin

text \<open>
  SSH public keys: the acceptance policy (\<open>sshkey/sshkey.go\<close>, \<open>sshkey/label.go\<close>), the service
  (\<open>service/ssh_keys.go\<close>), the resolver the SSH transport calls (\<open>service/ssh_key_resolver.go\<close>) and
  the handlers of the own and of the operator's routes (\<open>handlers/ssh_keys.go\<close>).

  The SSH library is a record of functions over an abstract type of keys. A label is a list of
  Unicode code points (Go's runes; an invalid byte is the replacement character already), stored
  in UTF-8. The core module's entity row is reduced to whether it is archived.
\<close>

section \<open>The SSH library\<close>

record 'k ssh_lib =
  ParseAuthorizedKey :: "string \<Rightarrow> ('k \<times> nat list \<times> string list \<times> string) option"
  KeyType :: "'k \<Rightarrow> string"
  RSABits :: "'k \<Rightarrow> int option"
  MarshalAuthorizedKey :: "'k \<Rightarrow> string"
  FingerprintSHA256 :: "'k \<Rightarrow> string"

section \<open>Keys\<close>

datatype sshkey_error = ErrInvalid | ErrUnsupportedType | ErrTooWeak | ErrLabelTooLong | ErrLabelInvalidChars

definition maxInputBytes :: nat where "maxInputBytes = 16 * 1024"
definition minRSABits :: int where "minRSABits = 2048"

definition acceptedKeyTypes :: "string list" where
  "acceptedKeyTypes =
     [''ssh-ed25519'', ''sk-ssh-ed25519@openssh.com'', ''ecdsa-sha2-nistp256'', ''ecdsa-sha2-nistp384'',
      ''ecdsa-sha2-nistp521'', ''sk-ecdsa-sha2-nistp256@openssh.com'', ''ssh-rsa'']"

record 'k Parsed =
  pk_Key :: 'k
  pk_Type :: string
  pk_Canonical :: string
  pk_Fingerprint :: string
  pk_Comment :: "nat list"

definition checkPolicy :: "'k ssh_lib \<Rightarrow> 'k \<Rightarrow> (sshkey_error, unit) result" where
  "checkPolicy S key =
     (if KeyType S key \<notin> set acceptedKeyTypes then Inl ErrUnsupportedType
      else if KeyType S key \<noteq> ''ssh-rsa'' then Inr ()
      else
        (case RSABits S key of
           None \<Rightarrow> Inl ErrInvalid
         | Some bits \<Rightarrow> if bits < minRSABits then Inl ErrTooWeak else Inr ()))"

definition Canonical :: "'k ssh_lib \<Rightarrow> 'k \<Rightarrow> string" where
  "Canonical S key = TrimSpace (MarshalAuthorizedKey S key)"

definition Fingerprint :: "'k ssh_lib \<Rightarrow> 'k \<Rightarrow> string" where
  "Fingerprint S key = FingerprintSHA256 S key"

section \<open>Labels\<close>

text \<open>\<open>unicode.IsSpace\<close> and \<open>unicode.IsControl\<close>.\<close>

definition rune_space :: "nat \<Rightarrow> bool" where
  "rune_space r \<longleftrightarrow> 9 \<le> r \<and> r \<le> 13 \<or> r \<in> {0x20, 0x85, 0xA0, 0x1680, 0x2028, 0x2029, 0x202F, 0x205F, 0x3000} \<or> 0x2000 \<le> r \<and> r \<le> 0x200A"

definition rune_control :: "nat \<Rightarrow> bool" where
  "rune_control r \<longleftrightarrow> r < 0x20 \<or> 0x7F \<le> r \<and> r < 0xA0"

definition trim_runes :: "nat list \<Rightarrow> nat list" where
  "trim_runes rs = rev (dropWhile rune_space (rev (dropWhile rune_space rs)))"

definition rune_bytes :: "nat \<Rightarrow> nat list" where
  "rune_bytes r =
     (if r < 0x80 then [r]
      else if r < 0x800 then [0xC0 + r div 64, 0x80 + r mod 64]
      else if r < 0x10000 then [0xE0 + r div 4096, 0x80 + r div 64 mod 64, 0x80 + r mod 64]
      else [0xF0 + r div 262144, 0x80 + r div 4096 mod 64, 0x80 + r div 64 mod 64, 0x80 + r mod 64])"

definition utf8 :: "nat list \<Rightarrow> string" where
  "utf8 rs = map char_of (concat (map rune_bytes rs))"

definition maxLabelRunes :: nat where "maxLabelRunes = 100"
definition maxLabelRawBytes :: nat where "maxLabelRawBytes = 4 * maxLabelRunes"

definition isDisallowedLabelRune :: "nat \<Rightarrow> bool" where
  "isDisallowedLabelRune r \<longleftrightarrow> rune_control r \<or> r = 0x061C \<or> r = 0x200E \<or> r = 0x200F \<or>
     0x202A \<le> r \<and> r \<le> 0x202E \<or> 0x2066 \<le> r \<and> r \<le> 0x2069"

definition NormalizeLabel :: "nat list option \<Rightarrow> nat list \<Rightarrow> (sshkey_error, nat list) result" where
  "NormalizeLabel requested comment =
     (case requested of
        Some req \<Rightarrow>
          if length (utf8 req) > maxLabelRawBytes then Inl ErrLabelTooLong
          else if length (trim_runes req) > maxLabelRunes then Inl ErrLabelTooLong
          else if list_ex isDisallowedLabelRune (trim_runes req) then Inl ErrLabelInvalidChars
          else Inr (trim_runes req)
      | None \<Rightarrow> Inr (take maxLabelRunes (trim_runes (filter (\<lambda>r. \<not> isDisallowedLabelRune r) comment))))"

definition Parse :: "'k ssh_lib \<Rightarrow> string \<Rightarrow> (sshkey_error, 'k Parsed) result" where
  "Parse S line =
     (if length line > maxInputBytes then Inl ErrInvalid
      else
        (case ParseAuthorizedKey S line of
           None \<Rightarrow> Inl ErrInvalid
         | Some (key, comment, options, rest) \<Rightarrow>
             if options \<noteq> [] then Inl ErrInvalid
             else if TrimSpace rest \<noteq> [] then Inl ErrInvalid
             else
               (case checkPolicy S key of
                  Inl e \<Rightarrow> Inl e
                | Inr _ \<Rightarrow> Inr \<lparr>pk_Key = key, pk_Type = KeyType S key, pk_Canonical = Canonical S key,
                                pk_Fingerprint = Fingerprint S key, pk_Comment = trim_runes comment\<rparr>)))"

section \<open>The service\<close>

definition sshKeyListDefaultLimit :: int where "sshKeyListDefaultLimit = 20"
definition sshKeyListMaxLimit :: int where "sshKeyListMaxLimit = 200"
definition sshKeyMutateOp :: string where "sshKeyMutateOp = ''assume''"

record SSHKey =
  key_UUID :: string
  key_Type :: string
  key_Fingerprint :: string
  key_PublicKey :: string
  key_Label :: string
  key_CreatedAt :: instant

definition toSSHKey :: "ModUsersSshPublicKey \<Rightarrow> SSHKey" where
  "toSSHKey row = \<lparr>key_UUID = sk_Uuid row, key_Type = sk_KeyType row, key_Fingerprint = sk_FingerprintSha256 row,
     key_PublicKey = sk_PublicKey row, key_Label = sk_Label row, key_CreatedAt = sk_CreatedAt row\<rparr>"

text \<open>The account service stands for the queries and the authorizer both services share.\<close>

record 'c SSHKeyService =
  ks_accounts :: "'c UserAccountService"
  ks_archived :: "'c \<Rightarrow> int \<Rightarrow> bool query"
  ks_obs :: bool

datatype ssh_error = SshSvc svc_error | SshInUse

definition sshKeyParseFieldError :: "sshkey_error \<Rightarrow> (string \<times> string) option" where
  "sshKeyParseFieldError e =
     (case e of
        ErrTooWeak \<Rightarrow> Some (''public_key'', ''users.ssh_key_too_weak'')
      | ErrUnsupportedType \<Rightarrow> Some (''public_key'', ''users.ssh_key_type_unsupported'')
      | ErrInvalid \<Rightarrow> Some (''public_key'', ''users.ssh_key_invalid'')
      | _ \<Rightarrow> None)"

definition sshKeyLabelFieldError :: "sshkey_error \<Rightarrow> (string \<times> string) option" where
  "sshKeyLabelFieldError e =
     (case e of
        ErrLabelTooLong \<Rightarrow> Some (''label'', ''users.ssh_key_label_too_long'')
      | ErrLabelInvalidChars \<Rightarrow> Some (''label'', ''users.ssh_key_label_invalid'')
      | _ \<Rightarrow> None)"

definition mapSSHKeyParseError :: "sshkey_error \<Rightarrow> ssh_error" where
  "mapSSHKeyParseError e =
     (case sshKeyParseFieldError e of Some (f, c) \<Rightarrow> SshSvc (SvcInvalid f c) | None \<Rightarrow> SshSvc SvcFault)"

definition mapSSHKeyLabelError :: "sshkey_error \<Rightarrow> ssh_error" where
  "mapSSHKeyLabelError e =
     (case sshKeyLabelFieldError e of Some (f, c) \<Rightarrow> SshSvc (SvcInvalid f c) | None \<Rightarrow> SshSvc SvcFault)"

definition ValidateSSHKeyShape :: "'k ssh_lib \<Rightarrow> string \<Rightarrow> nat list option \<Rightarrow> (string \<times> string) list" where
  "ValidateSSHKeyShape S line label =
     (case Parse S line of
        Inl e \<Rightarrow> (case sshKeyParseFieldError e of Some fe \<Rightarrow> [fe] | None \<Rightarrow> [(''public_key'', ''users.ssh_key_invalid'')])
      | Inr parsed \<Rightarrow>
          (case NormalizeLabel label (pk_Comment parsed) of
             Inl e \<Rightarrow> (case sshKeyLabelFieldError e of Some fe \<Rightarrow> [fe] | None \<Rightarrow> [(''label'', ''users.ssh_key_label_invalid'')])
           | Inr _ \<Rightarrow> []))"

text \<open>Sites: 0 account, 1 entity, 2 begin, 3 statement, 4 observer, 5 commit, 6 load of the key.\<close>

definition loadAuthorizedAccount ::
  "'c SSHKeyService \<Rightarrow> faults \<Rightarrow> 'c db \<Rightarrow> req_ctx \<Rightarrow> string \<Rightarrow> string \<Rightarrow> (ssh_error, UserAccount) result" where
  "loadAuthorizedAccount K flt d ctx uuid op =
     (case authorizeUserAccount (ks_accounts K) flt d ctx op uuid of
        Inl e \<Rightarrow> Inl (SshSvc e)
      | Inr ua \<Rightarrow>
          (case at flt 1 (ks_archived K (core d) (ua_AccountHolder ua)) of
             Inl NoRows \<Rightarrow> Inl (SshSvc (SvcAuthz ErrForbidden))
           | Inl _ \<Rightarrow> Inl (SshSvc SvcFault)
           | Inr archived \<Rightarrow> if archived then Inl (SshSvc (SvcAuthz ErrForbidden)) else Inr ua))"

definition SSHKeyService_Register ::
  "'k ssh_lib \<Rightarrow> 'c SSHKeyService \<Rightarrow> faults \<Rightarrow> instant \<Rightarrow> string \<Rightarrow> 'c db \<Rightarrow> req_ctx \<Rightarrow> string \<Rightarrow> string \<Rightarrow> nat list option
     \<Rightarrow> (ssh_error, SSHKey) result \<times> 'c db" where
  "SSHKeyService_Register S K flt now kuuid d ctx uuid line label =
     (case Parse S line of
        Inl e \<Rightarrow> (Inl (mapSSHKeyParseError e), d)
      | Inr parsed \<Rightarrow>
          (case NormalizeLabel label (pk_Comment parsed) of
             Inl e \<Rightarrow> (Inl (mapSSHKeyLabelError e), d)
           | Inr lab \<Rightarrow>
               (case loadAuthorizedAccount K flt d ctx uuid sshKeyMutateOp of
                  Inl e \<Rightarrow> (Inl e, d)
                | Inr ua \<Rightarrow>
                    if flt 2 then (Inl (SshSvc SvcFault), d)
                    else
                      (case at flt 3 (InsertSSHPublicKey d now kuuid (ua_ID ua) (pk_Type parsed) (pk_Canonical parsed)
                               (pk_Fingerprint parsed) (utf8 lab)) of
                         Inl (UniqueViolation _) \<Rightarrow> (Inl SshInUse, d)
                       | Inl _ \<Rightarrow> (Inl (SshSvc SvcFault), d)
                       | Inr (row, d') \<Rightarrow>
                           if ks_obs K \<and> flt 4 \<or> flt 5 then (Inl (SshSvc SvcFault), d)
                           else (Inr (toSSHKey row), d')))))"

definition clamp_limit :: "int \<Rightarrow> nat" where
  "clamp_limit limit =
     nat (if limit \<le> 0 then sshKeyListDefaultLimit else if limit > sshKeyListMaxLimit then sshKeyListMaxLimit else limit)"

definition SSHKeyService_List ::
  "'c SSHKeyService \<Rightarrow> faults \<Rightarrow> 'c db \<Rightarrow> req_ctx \<Rightarrow> string \<Rightarrow> int \<Rightarrow> int \<Rightarrow> (ssh_error, SSHKey list \<times> int) result" where
  "SSHKeyService_List K flt d ctx uuid limit offset =
     (case loadAuthorizedAccount K flt d ctx uuid ''read'' of
        Inl e \<Rightarrow> Inl e
      | Inr ua \<Rightarrow>
          if flt 2 \<or> flt 3 then Inl (SshSvc SvcFault)
          else Inr (map toSSHKey (ListActiveSSHPublicKeysByUserAccount d (ua_ID ua) (clamp_limit limit) (nat offset)),
                    CountActiveSSHPublicKeysByUserAccount d (ua_ID ua)))"

definition Revoke ::
  "'c SSHKeyService \<Rightarrow> faults \<Rightarrow> instant \<Rightarrow> 'c db \<Rightarrow> req_ctx \<Rightarrow> string \<Rightarrow> string \<Rightarrow> ssh_error option \<times> 'c db" where
  "Revoke K flt now d ctx uuid keyUUID =
     (case loadAuthorizedAccount K flt d ctx uuid sshKeyMutateOp of
        Inl e \<Rightarrow> (Some e, d)
      | Inr ua \<Rightarrow>
          (case at flt 6 (GetActiveSSHPublicKeyByUUIDForUserAccount d keyUUID (ua_ID ua)) of
             Inl NoRows \<Rightarrow> (Some (SshSvc (SvcAuthz ErrForbidden)), d)
           | Inl _ \<Rightarrow> (Some (SshSvc SvcFault), d)
           | Inr before \<Rightarrow>
               if flt 2 \<or> flt 3 then (Some (SshSvc SvcFault), d)
               else
                 (case ArchiveSSHPublicKey d now keyUUID (ua_ID ua) of
                    (rows, d') \<Rightarrow>
                      if rows = 0 then (Some (SshSvc (SvcAuthz ErrForbidden)), d)
                      else if ks_obs K \<and> flt 4 \<or> flt 5 then (Some (SshSvc SvcFault), d)
                      else (None, d'))))"

section \<open>The resolver\<close>

datatype resolve_key_error = ErrUnknownSSHKey | ResolveKeyFault

definition ResolveActor ::
  "'k ssh_lib \<Rightarrow> ('c \<Rightarrow> int \<Rightarrow> bool query) \<Rightarrow> faults \<Rightarrow> 'c db \<Rightarrow> 'k option \<Rightarrow> (resolve_key_error, int) result" where
  "ResolveActor S archived flt d key =
     (case key of
        None \<Rightarrow> Inl ErrUnknownSSHKey
      | Some k \<Rightarrow>
          (case at flt 0 (ResolveActiveSSHPublicKey d (Fingerprint S k) (Canonical S k)) of
             Inl NoRows \<Rightarrow> Inl ErrUnknownSSHKey
           | Inl _ \<Rightarrow> Inl ResolveKeyFault
           | Inr holder \<Rightarrow>
               (case at flt 1 (archived (core d) holder) of
                  Inl NoRows \<Rightarrow> Inl ErrUnknownSSHKey
                | Inl _ \<Rightarrow> Inl ResolveKeyFault
                | Inr a \<Rightarrow> if a then Inl ErrUnknownSSHKey else Inr holder)))"

section \<open>The handlers\<close>

record 'c SSHKeysHandler =
  sh_svc :: "'c SSHKeyService"
  sh_jwtSecret :: string
  sh_stepUpRequired :: bool

datatype ssh_response =
    SshBadBody
  | SshFields "(string \<times> string) list"
  | SshError ssh_error
  | SshStepUpRequired
  | SshCreated SSHKey
  | SshNoContent

record registerSSHKeyRequest =
  rk_PublicKey :: string
  rk_Label :: "nat list option"

definition registerSSHKey_Validate :: "'k ssh_lib \<Rightarrow> registerSSHKeyRequest \<Rightarrow> (string \<times> string) list" where
  "registerSSHKey_Validate S r =
     (if rk_PublicKey r = [] then [(''public_key'', ''users.public_key_required'')]
      else ValidateSSHKeyShape S (rk_PublicKey r) (rk_Label r))"

text \<open>\<open>decodeRegister\<close>: \<open>None\<close> is a body that does not decode.\<close>

definition decodeRegister :: "'k ssh_lib \<Rightarrow> registerSSHKeyRequest option \<Rightarrow> (ssh_response, registerSSHKeyRequest) result" where
  "decodeRegister S body =
     (case body of
        None \<Rightarrow> Inl SshBadBody
      | Some req \<Rightarrow> if registerSSHKey_Validate S req = [] then Inr req else Inl (SshFields (registerSSHKey_Validate S req)))"

definition register_key ::
  "'k ssh_lib \<Rightarrow> 'c SSHKeysHandler \<Rightarrow> faults \<Rightarrow> instant \<Rightarrow> string \<Rightarrow> 'c db \<Rightarrow> req_ctx \<Rightarrow> string \<Rightarrow> registerSSHKeyRequest \<Rightarrow> ssh_response \<times> 'c db" where
  "register_key S h flt now kuuid d ctx uuid req =
     (case SSHKeyService_Register S (sh_svc h) flt now kuuid d ctx uuid (rk_PublicKey req) (rk_Label req) of
        (Inl e, d') \<Rightarrow> (SshError e, d')
      | (Inr key, d') \<Rightarrow> (SshCreated key, d'))"

definition revoke_key ::
  "'c SSHKeysHandler \<Rightarrow> faults \<Rightarrow> instant \<Rightarrow> 'c db \<Rightarrow> req_ctx \<Rightarrow> string \<Rightarrow> string \<Rightarrow> ssh_response \<times> 'c db" where
  "revoke_key h flt now d ctx uuid keyUUID =
     (case Revoke (sh_svc h) flt now d ctx uuid keyUUID of
        (Some e, d') \<Rightarrow> (SshError e, d')
      | (None, d') \<Rightarrow> (SshNoContent, d'))"

definition ssh_step_up ::
  "(string \<Rightarrow> string \<Rightarrow> string) \<Rightarrow> 'c SSHKeysHandler \<Rightarrow> string \<Rightarrow> int \<Rightarrow> instant \<Rightarrow> consumed_map \<Rightarrow> (stepup_error, unit) result \<times> consumed_map" where
  "ssh_step_up mac h token uid now consumed = checkStepUp mac token uid (sh_stepUpRequired h) (sh_jwtSecret h) now consumed"

definition RegisterSelf ::
  "(string \<Rightarrow> string \<Rightarrow> string) \<Rightarrow> (string \<Rightarrow> string option) \<Rightarrow> 'k ssh_lib \<Rightarrow> 'c SSHKeysHandler \<Rightarrow> faults \<Rightarrow> instant \<Rightarrow> string \<Rightarrow> 'c db
     \<Rightarrow> consumed_map \<Rightarrow> req_ctx \<Rightarrow> UserContext \<Rightarrow> string \<Rightarrow> registerSSHKeyRequest option \<Rightarrow> ssh_response \<times> consumed_map \<times> 'c db" where
  "RegisterSelf mac uuid_Parse S h flt now kuuid d consumed ctx uc token body =
     (case decodeRegister S body of
        Inl resp \<Rightarrow> (resp, consumed, d)
      | Inr req \<Rightarrow>
          (case ssh_step_up mac h token (uc_UserAccountID uc) now consumed of
             (Inl _, c) \<Rightarrow> (SshStepUpRequired, c, d)
           | (Inr _, c) \<Rightarrow>
               (case uuid_Parse (uc_UserUUID uc) of
                  None \<Rightarrow> (SshError (SshSvc SvcFault), c, d)
                | Some u \<Rightarrow> (case register_key S h flt now kuuid d ctx u req of (resp, d') \<Rightarrow> (resp, c, d')))))"

definition RevokeSelf ::
  "(string \<Rightarrow> string \<Rightarrow> string) \<Rightarrow> (string \<Rightarrow> string option) \<Rightarrow> 'c SSHKeysHandler \<Rightarrow> faults \<Rightarrow> instant \<Rightarrow> 'c db
     \<Rightarrow> consumed_map \<Rightarrow> req_ctx \<Rightarrow> UserContext \<Rightarrow> string \<Rightarrow> string \<Rightarrow> ssh_response \<times> consumed_map \<times> 'c db" where
  "RevokeSelf mac uuid_Parse h flt now d consumed ctx uc token param =
     (case uuid_Parse param of
        None \<Rightarrow> (SshFields [(''key_uuid'', ''invalid_uuid'')], consumed, d)
      | Some keyUUID \<Rightarrow>
          (case ssh_step_up mac h token (uc_UserAccountID uc) now consumed of
             (Inl _, c) \<Rightarrow> (SshStepUpRequired, c, d)
           | (Inr _, c) \<Rightarrow>
               (case uuid_Parse (uc_UserUUID uc) of
                  None \<Rightarrow> (SshError (SshSvc SvcFault), c, d)
                | Some u \<Rightarrow> (case revoke_key h flt now d ctx u keyUUID of (resp, d') \<Rightarrow> (resp, c, d')))))"

text \<open>The gate of the operator's routes: it applies when the operator's own account is the target.\<close>

definition operator_gate ::
  "(string \<Rightarrow> string \<Rightarrow> string) \<Rightarrow> (string \<Rightarrow> string option) \<Rightarrow> 'c SSHKeysHandler \<Rightarrow> instant \<Rightarrow> consumed_map \<Rightarrow> UserContext \<Rightarrow> string \<Rightarrow> string
     \<Rightarrow> (ssh_response, unit) result \<times> consumed_map" where
  "operator_gate mac uuid_Parse h now consumed uc token target =
     (case uuid_Parse (uc_UserUUID uc) of
        None \<Rightarrow> (Inl (SshError (SshSvc SvcFault)), consumed)
      | Some callerUUID \<Rightarrow>
          if callerUUID = target then
            (case ssh_step_up mac h token (uc_UserAccountID uc) now consumed of
               (Inl _, c) \<Rightarrow> (Inl SshStepUpRequired, c)
             | (Inr _, c) \<Rightarrow> (Inr (), c))
          else (Inr (), consumed))"

definition RegisterForAccount ::
  "(string \<Rightarrow> string \<Rightarrow> string) \<Rightarrow> (string \<Rightarrow> string option) \<Rightarrow> 'k ssh_lib \<Rightarrow> 'c SSHKeysHandler \<Rightarrow> faults \<Rightarrow> instant \<Rightarrow> string \<Rightarrow> 'c db
     \<Rightarrow> consumed_map \<Rightarrow> req_ctx \<Rightarrow> UserContext \<Rightarrow> string \<Rightarrow> string \<Rightarrow> registerSSHKeyRequest option \<Rightarrow> ssh_response \<times> consumed_map \<times> 'c db" where
  "RegisterForAccount mac uuid_Parse S h flt now kuuid d consumed ctx uc token param body =
     (case uuid_Parse param of
        None \<Rightarrow> (SshFields [(''uuid'', ''invalid_uuid'')], consumed, d)
      | Some target \<Rightarrow>
          (case decodeRegister S body of
             Inl resp \<Rightarrow> (resp, consumed, d)
           | Inr req \<Rightarrow>
               (case operator_gate mac uuid_Parse h now consumed uc token target of
                  (Inl resp, c) \<Rightarrow> (resp, c, d)
                | (Inr _, c) \<Rightarrow> (case register_key S h flt now kuuid d ctx target req of (resp, d') \<Rightarrow> (resp, c, d')))))"

definition RevokeForAccount ::
  "(string \<Rightarrow> string \<Rightarrow> string) \<Rightarrow> (string \<Rightarrow> string option) \<Rightarrow> 'c SSHKeysHandler \<Rightarrow> faults \<Rightarrow> instant \<Rightarrow> 'c db
     \<Rightarrow> consumed_map \<Rightarrow> req_ctx \<Rightarrow> UserContext \<Rightarrow> string \<Rightarrow> string \<Rightarrow> string \<Rightarrow> ssh_response \<times> consumed_map \<times> 'c db" where
  "RevokeForAccount mac uuid_Parse h flt now d consumed ctx uc token param kparam =
     (case uuid_Parse param of
        None \<Rightarrow> (SshFields [(''uuid'', ''invalid_uuid'')], consumed, d)
      | Some target \<Rightarrow>
          (case uuid_Parse kparam of
             None \<Rightarrow> (SshFields [(''key_uuid'', ''invalid_uuid'')], consumed, d)
           | Some keyUUID \<Rightarrow>
               (case operator_gate mac uuid_Parse h now consumed uc token target of
                  (Inl resp, c) \<Rightarrow> (resp, c, d)
                | (Inr _, c) \<Rightarrow> (case revoke_key h flt now d ctx target keyUUID of (resp, d') \<Rightarrow> (resp, c, d')))))"

section \<open>Lemmas\<close>

lemma trim_runes_set: "set (trim_runes rs) \<subseteq> set rs"
proof
  fix x assume "x \<in> set (trim_runes rs)"
  then have "x \<in> set (dropWhile rune_space (rev (dropWhile rune_space rs)))" by (simp add: trim_runes_def)
  then have "x \<in> set (rev (dropWhile rune_space rs))" by (rule set_dropWhileD)
  then have "x \<in> set (dropWhile rune_space rs)" by simp
  then show "x \<in> set rs" by (rule set_dropWhileD)
qed

lemma trim_runes_idem [simp]: "trim_runes (trim_runes rs) = trim_runes rs"
proof -
  have "dropWhile rune_space (trim_runes rs) = trim_runes rs"
    by (simp only: trim_runes_def dropWhile_rev_dropWhile)
  then show ?thesis
    unfolding trim_runes_def [of "trim_runes rs"] by (simp add: trim_runes_def)
qed

lemma utf8_length_ge: "length rs \<le> length (utf8 rs)"
proof (induction rs)
  case (Cons r rs)
  have "1 \<le> length (rune_bytes r)" by (simp add: rune_bytes_def)
  with Cons show ?case by (simp add: utf8_def)
qed (simp add: utf8_def)

lemma utf8_length_le: "length (utf8 rs) \<le> 4 * length rs"
proof (induction rs)
  case (Cons r rs)
  have "length (rune_bytes r) \<le> 4" by (simp add: rune_bytes_def)
  with Cons show ?case by (simp add: utf8_def)
qed (simp add: utf8_def)

lemma ValidateSSHKeyShape_iff:
  "ValidateSSHKeyShape S line label = [] \<longleftrightarrow>
     (\<exists>parsed lab. Parse S line = Inr parsed \<and> NormalizeLabel label (pk_Comment parsed) = Inr lab)"
  by (auto simp: ValidateSSHKeyShape_def split: sum.splits option.splits)

lemma at_Inr_iff: "at flt k q = Inr x \<longleftrightarrow> \<not> flt k \<and> q = Inr x"
  by (auto simp: at_def)

lemma loadAuthorizedAccount_Inr:
  "loadAuthorizedAccount K flt d ctx uuid op = Inr ua \<longleftrightarrow>
     authorizeUserAccount (ks_accounts K) flt d ctx op uuid = Inr ua \<and> \<not> flt 1 \<and> ks_archived K (core d) (ua_AccountHolder ua) = Inr False"
  by (auto simp: loadAuthorizedAccount_def at_Inr_iff split: sum.splits db_error.splits if_splits)

lemma Register_InrE:
  assumes "SSHKeyService_Register S K flt now kuuid d ctx uuid line label = (Inr key, d')"
  obtains parsed lab ua row where "Parse S line = Inr parsed" "NormalizeLabel label (pk_Comment parsed) = Inr lab"
    "loadAuthorizedAccount K flt d ctx uuid sshKeyMutateOp = Inr ua"
    "InsertSSHPublicKey d now kuuid (ua_ID ua) (pk_Type parsed) (pk_Canonical parsed) (pk_Fingerprint parsed) (utf8 lab) = Inr (row, d')"
    "key = toSSHKey row"
  using assms by (auto simp: SSHKeyService_Register_def at_Inr_iff split: sum.splits if_splits db_error.splits)

lemma Register_Inl: "SSHKeyService_Register S K flt now kuuid d ctx uuid line label = (Inl e, d') \<Longrightarrow> d' = d"
  by (auto simp: SSHKeyService_Register_def split: sum.splits if_splits db_error.splits)

lemma Revoke_NoneE:
  assumes "Revoke K flt now d ctx uuid k = (None, d')"
  obtains ua n where "loadAuthorizedAccount K flt d ctx uuid sshKeyMutateOp = Inr ua" "ArchiveSSHPublicKey d now k (ua_ID ua) = (n, d')" "n \<noteq> 0"
  using assms by (auto simp: Revoke_def split: sum.splits if_splits db_error.splits prod.splits)

lemma Revoke_Some: "Revoke K flt now d ctx uuid k = (Some e, d') \<Longrightarrow> d' = d"
  by (auto simp: Revoke_def split: sum.splits if_splits db_error.splits prod.splits)

lemma Parse_Inr:
  "Parse S line = Inr p \<Longrightarrow> pk_Canonical p = Canonical S (pk_Key p) \<and> pk_Fingerprint p = Fingerprint S (pk_Key p) \<and>
     pk_Type p = KeyType S (pk_Key p) \<and> checkPolicy S (pk_Key p) = Inr ()"
  by (auto simp: Parse_def split: if_splits option.splits sum.splits)

lemma InsertSSHPublicKey_Inr:
  assumes "InsertSSHPublicKey d now uuid u t pk fp label = Inr (row, d')"
  shows "ssh_public_keys d' = ssh_public_keys d @ [row]" "user_accounts d' = user_accounts d" "core d' = core d"
    "sk_Uuid row = uuid" "sk_UserAccountID row = u" "sk_PublicKey row = pk" "sk_FingerprintSha256 row = fp" "active_key row"
    "\<forall>k \<in> set (ssh_public_keys d). \<not> (active_key k \<and> sk_FingerprintSha256 k = fp)"
    "\<forall>k \<in> set (ssh_public_keys d). sk_Uuid k \<noteq> uuid"
  using assms by (auto simp: InsertSSHPublicKey_def Let_def active_key_def split: if_splits)

lemma GetUserAccountByID_row:
  assumes "db_ok d" "ua \<in> set (user_accounts d)"
  shows "GetUserAccountByID d (ua_ID ua) = Inr ua"
proof -
  have dist: "distinct (map ua_ID (user_accounts d))" using assms(1) by (auto simp: db_ok_def accounts_ok_def ids_ok_def)
  obtain x where x: "find (\<lambda>u. ua_ID u = ua_ID ua) (user_accounts d) = Some x"
    using assms(2) by (cases "find (\<lambda>u. ua_ID u = ua_ID ua) (user_accounts d)") (auto simp: find_None_iff)
  then have "x = ua" using assms(2) dist by (auto simp: distinct_map dest!: find_SomeD dest: inj_onD)
  then show ?thesis using x by (simp add: GetUserAccountByID_def)
qed

text \<open>What a change of one account's keys leaves alone.\<close>

definition only_keys_of :: "int \<Rightarrow> 'c db \<Rightarrow> 'c db \<Rightarrow> bool" where
  "only_keys_of u d d' \<longleftrightarrow> user_accounts d' = user_accounts d \<and> auth_local d' = auth_local d \<and>
     auth_oidc_identities d' = auth_oidc_identities d \<and> core d' = core d \<and>
     filter (\<lambda>k. sk_UserAccountID k \<noteq> u) (ssh_public_keys d') = filter (\<lambda>k. sk_UserAccountID k \<noteq> u) (ssh_public_keys d)"

lemma Insert_only_keys: "InsertSSHPublicKey d now uuid u t pk fp label = Inr (row, d') \<Longrightarrow> only_keys_of u d d'"
  by (auto simp: InsertSSHPublicKey_def Let_def only_keys_of_def split: if_splits)

lemma Archive_only_keys:
  assumes "ArchiveSSHPublicKey d now k u = (n, d')"
  shows "only_keys_of u d d'"
proof -
  define f where "f = (\<lambda>x. if sk_Uuid x = k \<and> sk_UserAccountID x = u \<and> active_key x then x\<lparr>sk_ArchivedAt := Some now\<rparr> else x)"
  have d': "d' = d\<lparr>ssh_public_keys := map f (ssh_public_keys d)\<rparr>"
    using assms by (auto simp: ArchiveSSHPublicKey_def f_def)
  have "filter (\<lambda>x. sk_UserAccountID x \<noteq> u) (map f xs) = filter (\<lambda>x. sk_UserAccountID x \<noteq> u) xs" for xs
    by (induction xs) (auto simp: f_def)
  then show ?thesis by (simp add: only_keys_of_def d')
qed

lemma Archive_inactive:
  assumes a: "ArchiveSSHPublicKey d now (sk_Uuid row) u = (n, d')" "n \<noteq> 0" and ok: "keys_ok d" and r: "row \<in> set (ssh_public_keys d)"
  shows "\<forall>k \<in> set (ssh_public_keys d'). \<not> (active_key k \<and> sk_Uuid k = sk_Uuid row)"
proof -
  define f where "f = (\<lambda>x. if sk_Uuid x = sk_Uuid row \<and> sk_UserAccountID x = u \<and> active_key x then x\<lparr>sk_ArchivedAt := Some now\<rparr> else x)"
  have d': "ssh_public_keys d' = map f (ssh_public_keys d)"
    and n: "n = int (length (filter (\<lambda>k. sk_Uuid k = sk_Uuid row \<and> sk_UserAccountID k = u \<and> active_key k) (ssh_public_keys d)))"
    using a(1) by (auto simp: ArchiveSSHPublicKey_def f_def)
  have uniq: "x = row" if "x \<in> set (ssh_public_keys d)" "sk_Uuid x = sk_Uuid row" for x
    using ok that r by (auto simp: keys_ok_def distinct_map dest: inj_onD)
  have "sk_UserAccountID row = u \<and> active_key row"
    using a(2) uniq unfolding n by (auto simp: filter_empty_conv)
  moreover have "sk_Uuid (f x) = sk_Uuid x" for x by (simp add: f_def)
  ultimately show ?thesis using uniq by (auto simp: d' f_def active_key_def)
qed

section \<open>Properties\<close>

text \<open>
  C27. The life of an SSH key: a registered key was accepted by the policy and from then on the
  transport resolves it to the holder of the account it was registered for; once its revocation has
  succeeded, the very next resolution refuses it.
\<close>

theorem ssh_key_lifecycle:
  assumes reg: "SSHKeyService_Register S K flt now kuuid d ctx uuid line label = (Inr key, d')" and ok: "db_ok d"
  shows "\<exists>parsed ua. Parse S line = Inr parsed \<and> checkPolicy S (pk_Key parsed) = Inr () \<and> GetUserAccountByUUID d uuid = Inr ua \<and>
    ResolveActor S (ks_archived K) (\<lambda>_. False) d' (Some (pk_Key parsed)) = Inr (ua_AccountHolder ua) \<and>
    (\<forall>K' flt' now' ctx' uuid' d''. Revoke K' flt' now' d' ctx' uuid' (key_UUID key) = (None, d'') \<longrightarrow>
       ResolveActor S (ks_archived K) (\<lambda>_. False) d'' (Some (pk_Key parsed)) = Inl ErrUnknownSSHKey)"
proof -
  obtain parsed lab ua row where r: "Parse S line = Inr parsed" "loadAuthorizedAccount K flt d ctx uuid sshKeyMutateOp = Inr ua"
    "InsertSSHPublicKey d now kuuid (ua_ID ua) (pk_Type parsed) (pk_Canonical parsed) (pk_Fingerprint parsed) (utf8 lab) = Inr (row, d')"
    "key = toSSHKey row"
    by (rule Register_InrE [OF reg])
  note i = InsertSSHPublicKey_Inr [OF r(3)]
  have p: "pk_Canonical parsed = Canonical S (pk_Key parsed)" "pk_Fingerprint parsed = Fingerprint S (pk_Key parsed)"
    "checkPolicy S (pk_Key parsed) = Inr ()"
    using Parse_Inr [OF r(1)] by simp_all
  have a: "authorizeUserAccount (ks_accounts K) flt d ctx sshKeyMutateOp uuid = Inr ua"
    "ks_archived K (core d) (ua_AccountHolder ua) = Inr False"
    using r(2) by (simp_all add: loadAuthorizedAccount_Inr)
  have ua: "GetUserAccountByUUID d uuid = Inr ua" "ua \<in> set (user_accounts d)"
    using a(1) authorizeUserAccount_row [OF a(1)]
    by (auto simp: authorizeUserAccount_def split: if_splits option.splits sum.splits db_error.splits)
  have ok': "db_ok d'" by (rule db_write_ok [OF insert_key [OF r(3)] ok])
  have "find (\<lambda>k. sk_FingerprintSha256 k = Fingerprint S (pk_Key parsed) \<and> sk_PublicKey k = Canonical S (pk_Key parsed) \<and> active_key k)
      (ssh_public_keys d @ [row]) = Some row"
    using i(6-9) p by (auto simp: find_snoc find_None_iff split: option.splits dest!: find_SomeD)
  then have res: "ResolveActor S (ks_archived K) (\<lambda>_. False) d' (Some (pk_Key parsed)) = Inr (ua_AccountHolder ua)"
    using GetUserAccountByID_row [OF ok', of ua] ua(2) i(1-3,5) a(2)
    by (simp add: ResolveActor_def at_def ResolveActiveSSHPublicKey_def)
  have rev: "ResolveActor S (ks_archived K) (\<lambda>_. False) d'' (Some (pk_Key parsed)) = Inl ErrUnknownSSHKey"
    if R: "Revoke K' flt' now' d' ctx' uuid' (key_UUID key) = (None, d'')" for K' flt' now' ctx' uuid' d''
  proof -
    have ku: "key_UUID key = sk_Uuid row" by (simp add: r(4) toSSHKey_def)
    obtain ua' :: UserAccount and n where arch: "ArchiveSSHPublicKey d' now' (sk_Uuid row) (ua_ID ua') = (n, d'')" "n \<noteq> 0"
      by (rule Revoke_NoneE [OF R [unfolded ku]]) (rule that)
    have gone: "\<forall>k \<in> set (ssh_public_keys d''). \<not> (active_key k \<and> sk_Uuid k = sk_Uuid row)"
      using ok' i(1) by (intro Archive_inactive [OF arch]) (auto simp: db_ok_def)
    have "\<exists>x \<in> set (ssh_public_keys d'). sk_Uuid k = sk_Uuid x \<and> sk_FingerprintSha256 k = sk_FingerprintSha256 x \<and> (active_key k \<longrightarrow> active_key x)"
      if "k \<in> set (ssh_public_keys d'')" for k
    proof -
      let ?f = "\<lambda>x. if sk_Uuid x = sk_Uuid row \<and> sk_UserAccountID x = ua_ID ua' \<and> active_key x then x\<lparr>sk_ArchivedAt := Some now'\<rparr> else x"
      from that arch(1) obtain x where "x \<in> set (ssh_public_keys d')" "k = ?f x"
        by (auto simp: ArchiveSSHPublicKey_def)
      then show ?thesis by (intro bexI [of _ x]) (auto simp: active_key_def)
    qed
    then have "\<not> (active_key k \<and> sk_FingerprintSha256 k = Fingerprint S (pk_Key parsed))" if "k \<in> set (ssh_public_keys d'')" for k
      using that gone i(1,4,9) p(2) by fastforce
    then show ?thesis
      by (auto simp: ResolveActor_def at_def ResolveActiveSSHPublicKey_def find_None_iff split: option.splits dest!: find_SomeD)
  qed
  show ?thesis using r(1) p(3) ua(1) res rev by blast
qed

text \<open>
  C28. Who may change whose SSH keys. With the module's authorizer and the step-up challenge enabled:
  a request on any of the four routes that changes the database changes only the keys of one account,
  whose holder is not archived and whom the effective actor may assume; and whenever that account is
  the caller's own, also on the operator's routes, the request used up a fresh step-up token of the
  caller.
\<close>

theorem ssh_key_change_guarded:
  assumes "RegisterSelf mac P S h flt now kuuid d c ctx uc token body = (resp, c', d') \<or>
      RevokeSelf mac P h flt now d c ctx uc token kparam = (resp, c', d') \<or>
      RegisterForAccount mac P S h flt now kuuid d c ctx uc token param body = (resp, c', d') \<or>
      RevokeForAccount mac P h flt now d c ctx uc token param kparam = (resp, c', d')"
    and change: "d' \<noteq> d" and su: "sh_stepUpRequired h"
    and az: "us_az (ks_accounts (sh_svc h)) = Some (Authorize satisfiedBy aflt D)"
      "us_azType (ks_accounts (sh_svc h)) = Some (AuthorizeType satisfiedBy aflt D)"
  shows "\<exists>target ua. GetUserAccountByUUID d target = Inr ua \<and> only_keys_of (ua_ID ua) d d' \<and>
    Authorize satisfiedBy aflt D ctx ''assume'' (Some (ua_AccountHolder ua)) = None \<and>
    ks_archived (sh_svc h) (core d) (ua_AccountHolder ua) = Inr False \<and>
    (P (uc_UserUUID uc) = Some target \<longrightarrow>
      (\<exists>p. checkStepUpToken mac (sh_jwtSecret h) token (uc_UserAccountID uc) now = Inr p \<and>
         c (su_JTI p) = None \<and> c' (su_JTI p) = Some (su_Exp p)))"
proof -
  have tok: "\<exists>p. checkStepUpToken mac (sh_jwtSecret h) token (uc_UserAccountID uc) now = Inr p \<and> c (su_JTI p) = None \<and> c' (su_JTI p) = Some (su_Exp p)"
    if "ssh_step_up mac h token (uc_UserAccountID uc) now c = (Inr x, c')" for x
    using that su by (auto simp: ssh_step_up_def checkStepUp_def VerifyStepUpToken_Inr_iff split: if_splits)
  have "\<exists>target ua. loadAuthorizedAccount (sh_svc h) flt d ctx target ''assume'' = Inr ua \<and> only_keys_of (ua_ID ua) d d' \<and>
      (P (uc_UserUUID uc) = Some target \<longrightarrow> (\<exists>x. ssh_step_up mac h token (uc_UserAccountID uc) now c = (Inr x, c')))"
  proof -
    have reg: "\<exists>ua. loadAuthorizedAccount (sh_svc h) flt d ctx t ''assume'' = Inr ua \<and> only_keys_of (ua_ID ua) d d'"
      if "register_key S h flt now kuuid d ctx t req = (r, d')" for t req r
      using that change
      by (auto simp: register_key_def sshKeyMutateOp_def dest: Register_Inl split: prod.splits sum.splits
          elim!: Register_InrE intro: Insert_only_keys)
    have rev: "\<exists>ua. loadAuthorizedAccount (sh_svc h) flt d ctx t ''assume'' = Inr ua \<and> only_keys_of (ua_ID ua) d d'"
      if "revoke_key h flt now d ctx t k = (r, d')" for t k r
      using that change
      by (auto simp: revoke_key_def sshKeyMutateOp_def dest: Revoke_Some split: prod.splits option.splits
          elim!: Revoke_NoneE intro: Archive_only_keys)
    define changed where "changed = (\<lambda>t. (\<exists>req r. register_key S h flt now kuuid d ctx t req = (r, d')) \<or> (\<exists>k r. revoke_key h flt now d ctx t k = (r, d')))"
    have regI: "changed t" if "register_key S h flt now kuuid d ctx t req = (r, d')" for t req r using that by (auto simp: changed_def)
    have revI: "changed t" if "revoke_key h flt now d ctx t k = (r, d')" for t k r using that by (auto simp: changed_def)
    have own: "\<exists>t. changed t \<and>
        (P (uc_UserUUID uc) = Some t \<longrightarrow> (\<exists>x. ssh_step_up mac h token (uc_UserAccountID uc) now c = (Inr x, c')))"
      using assms(1)
    proof (elim disjE)
      assume "RegisterSelf mac P S h flt now kuuid d c ctx uc token body = (resp, c', d')"
      with change show ?thesis by (auto simp: RegisterSelf_def split: sum.splits prod.splits option.splits intro: regI)
    next
      assume "RevokeSelf mac P h flt now d c ctx uc token kparam = (resp, c', d')"
      with change show ?thesis by (auto simp: RevokeSelf_def split: sum.splits prod.splits option.splits intro: revI)
    next
      assume "RegisterForAccount mac P S h flt now kuuid d c ctx uc token param body = (resp, c', d')"
      with change show ?thesis
        by (auto simp: RegisterForAccount_def operator_gate_def split: sum.splits prod.splits option.splits if_splits dest!: regI)
    next
      assume "RevokeForAccount mac P h flt now d c ctx uc token param kparam = (resp, c', d')"
      with change show ?thesis
        by (auto simp: RevokeForAccount_def operator_gate_def split: sum.splits prod.splits option.splits if_splits dest!: revI)
    qed
    then show ?thesis using reg rev unfolding changed_def by blast
  qed
  then obtain target ua where t: "loadAuthorizedAccount (sh_svc h) flt d ctx target ''assume'' = Inr ua" "only_keys_of (ua_ID ua) d d'"
    "P (uc_UserUUID uc) = Some target \<longrightarrow> (\<exists>x. ssh_step_up mac h token (uc_UserAccountID uc) now c = (Inr x, c'))"
    by blast
  have "module_authz.wired satisfiedBy aflt D (ks_accounts (sh_svc h))" using az by (simp add: module_authz.wired_def)
  from module_authz.account_Inr [OF this] t(1)
  have "GetUserAccountByUUID d target = Inr ua" "Authorize satisfiedBy aflt D ctx ''assume'' (Some (ua_AccountHolder ua)) = None"
    "ks_archived (sh_svc h) (core d) (ua_AccountHolder ua) = Inr False"
    by (simp_all add: loadAuthorizedAccount_Inr)
  then show ?thesis using t(2,3) tok by blast
qed

text \<open>
  Labels: a stored label has at most 100 code points and none of them is a control or
  bidirectional formatting character; a requested label is kept up to surrounding space, and
  normalizing it again changes nothing; a label taken from the comment is never refused.
\<close>

theorem NormalizeLabel_bounds:
  assumes "NormalizeLabel requested comment = Inr lab"
  shows "length lab \<le> 100 \<and> length (utf8 lab) \<le> 400 \<and> (\<forall>r \<in> set lab. \<not> isDisallowedLabelRune r) \<and>
    (\<forall>req. requested = Some req \<longrightarrow> lab = trim_runes req \<and> NormalizeLabel (Some lab) comment' = Inr lab) \<and>
    is_ok (NormalizeLabel None comment)"
proof (cases requested)
  case None
  then have lab: "lab = take 100 (trim_runes (filter (\<lambda>r. \<not> isDisallowedLabelRune r) comment))"
    using assms by (simp add: NormalizeLabel_def maxLabelRunes_def)
  then have len: "length lab \<le> 100" by simp
  have "set lab \<subseteq> {r. \<not> isDisallowedLabelRune r}"
    using trim_runes_set [of "filter (\<lambda>r. \<not> isDisallowedLabelRune r) comment"] unfolding lab by (auto dest!: in_set_takeD)
  then show ?thesis using None len utf8_length_le [of lab] by (auto simp: NormalizeLabel_def)
next
  case (Some req)
  then have lab: "lab = trim_runes req" "length lab \<le> 100" "\<not> list_ex isDisallowedLabelRune lab"
    using assms by (auto simp: NormalizeLabel_def maxLabelRunes_def split: if_splits)
  have "length (utf8 lab) \<le> 400" using utf8_length_le [of lab] lab(2) by simp
  moreover have "trim_runes lab = lab" by (simp add: lab(1))
  ultimately show ?thesis
    using Some lab by (auto simp: NormalizeLabel_def maxLabelRunes_def maxLabelRawBytes_def list_ex_iff)
qed

text \<open>A padded label is refused by its raw length although its trimmed value is short.\<close>

lemma padded_label_refused: "trim_runes (replicate 401 32) = [] \<and> NormalizeLabel (Some (replicate 401 32)) [] = Inl ErrLabelTooLong"
proof -
  have "trim_runes (replicate n 32) = []" for n
    by (induction n) (auto simp: trim_runes_def rune_space_def)
  moreover have "length (utf8 (replicate 401 32)) > maxLabelRawBytes"
    using utf8_length_ge [of "replicate 401 32"] by (simp add: maxLabelRawBytes_def maxLabelRunes_def)
  ultimately show ?thesis by (simp add: NormalizeLabel_def)
qed

section \<open>Examples\<close>

definition demo_ssh :: "unit ssh_lib" where
  "demo_ssh = \<lparr>ParseAuthorizedKey = \<lambda>_. Some ((), [], [], []), KeyType = \<lambda>_. ''ssh-ed25519'', RSABits = \<lambda>_. None,
     MarshalAuthorizedKey = \<lambda>_. ''k'', FingerprintSHA256 = \<lambda>_. ''f''\<rparr>"

definition demo_keys :: "unit SSHKeyService" where
  "demo_keys = \<lparr>ks_accounts = demo_service, ks_archived = \<lambda>_ _. Inr False, ks_obs = False\<rparr>"

definition demo_sh :: "unit SSHKeysHandler" where
  "demo_sh = \<lparr>sh_svc = demo_keys, sh_jwtSecret = ''k'', sh_stepUpRequired = True\<rparr>"

lemma demo_ssh_sel [simp]:
  "ParseAuthorizedKey demo_ssh l = Some ((), [], [], [])" "KeyType demo_ssh k = ''ssh-ed25519''"
  by (simp_all add: demo_ssh_def)

lemma demo_keys_sel [simp]:
  "ks_accounts demo_keys = demo_service" "ks_archived demo_keys c u = Inr False" "ks_obs demo_keys = False"
  by (simp_all add: demo_keys_def)

lemma demo_sh_sel [simp]: "sh_svc demo_sh = demo_keys" "sh_jwtSecret demo_sh = ''k''" "sh_stepUpRequired demo_sh"
  by (simp_all add: demo_sh_def)

lemma demo_parse: "\<exists>p. Parse demo_ssh ''l'' = Inr p \<and> pk_Comment p = []"
  by (simp add: Parse_def maxInputBytes_def checkPolicy_def acceptedKeyTypes_def TrimSpace_def TrimLeft_def TrimRight_def trim_runes_def)

lemma demo_label [simp]: "NormalizeLabel None [] = Inr []"
  by (simp add: NormalizeLabel_def trim_runes_def)

text \<open>The owner registers a first key.\<close>

lemma register_demo:
  obtains d d' :: "unit db" and u key where "db_ok d" "user_accounts d = [u]" "ua_Uuid u = ''u1''" "d' \<noteq> d"
    "SSHKeyService_Register demo_ssh demo_keys (\<lambda>_. False) 0 ''x1'' d demo_ctx ''u1'' ''l'' None = (Inr key, d')"
    "Revoke demo_keys (\<lambda>_. False) 1 d' demo_ctx ''u1'' (key_UUID key) = (None, snd (ArchiveSSHPublicKey d' 1 ''x1'' 1))"
proof -
  obtain u d where c: "CreateUserAccount (empty_db ()) 0 ''u1'' 7 (Some ''a@b'') None = Inr (u, d)"
    by (simp add: CreateUserAccount_def Let_def)
  then have d: "user_accounts d = [u]" "ua_ID u = 1" "ssh_public_keys d = []" "ua_Uuid u = ''u1''"
    by (auto simp: CreateUserAccount_def Let_def empty_db_def)
  have ok: "db_ok d" using db_ok_CreateUserAccount [OF c] by simp
  obtain p where p: "Parse demo_ssh ''l'' = Inr p" "pk_Comment p = []" using demo_parse by blast
  obtain row d' where i: "InsertSSHPublicKey d 0 ''x1'' (ua_ID u) (pk_Type p) (pk_Canonical p) (pk_Fingerprint p) (utf8 []) = Inr (row, d')"
    using d by (simp add: InsertSSHPublicKey_def Let_def account_exists_def)
  have load: "loadAuthorizedAccount demo_keys (\<lambda>_. False) e demo_ctx ''u1'' op = Inr u" if "user_accounts e = [u]" for op and e :: "unit db"
    using demo_account [OF that d(4)] by (simp add: loadAuthorizedAccount_def at_def)
  have reg: "SSHKeyService_Register demo_ssh demo_keys (\<lambda>_. False) 0 ''x1'' d demo_ctx ''u1'' ''l'' None = (Inr (toSSHKey row), d')"
    using p i d load [OF d(1)] by (simp add: SSHKeyService_Register_def at_def)
  have d': "user_accounts d' = [u]" "ssh_public_keys d' = [row]" "sk_Uuid row = ''x1''" "sk_UserAccountID row = 1" "active_key row"
    using InsertSSHPublicKey_Inr [OF i] d by simp_all
  then have ne: "d' \<noteq> d" using d(3) by auto
  have "Revoke demo_keys (\<lambda>_. False) 1 d' demo_ctx ''u1'' ''x1'' = (None, snd (ArchiveSSHPublicKey d' 1 ''x1'' 1))"
    using load [OF d'(1)] d' d(2) by (simp add: Revoke_def at_def GetActiveSSHPublicKeyByUUIDForUserAccount_def active_keys_of_def ArchiveSSHPublicKey_def)
  then have "Revoke demo_keys (\<lambda>_. False) 1 d' demo_ctx ''u1'' (key_UUID (toSSHKey row)) = (None, snd (ArchiveSSHPublicKey d' 1 ''x1'' 1))"
    by (simp add: toSSHKey_def d'(3))
  from that [OF ok d(1,4) ne reg this] show thesis .
qed

theorem ssh_key_lifecycle_witness:
  "\<exists>(d :: unit db) d' d'' key. SSHKeyService_Register demo_ssh demo_keys (\<lambda>_. False) 0 ''x1'' d demo_ctx ''u1'' ''l'' None = (Inr key, d') \<and>
     (\<exists>a. ResolveActor demo_ssh (ks_archived demo_keys) (\<lambda>_. False) d' (Some ()) = Inr a) \<and>
     Revoke demo_keys (\<lambda>_. False) 1 d' demo_ctx ''u1'' (key_UUID key) = (None, d'') \<and>
     ResolveActor demo_ssh (ks_archived demo_keys) (\<lambda>_. False) d'' (Some ()) = Inl ErrUnknownSSHKey"
proof -
  obtain d d' :: "unit db" and u key where d: "db_ok d"
    "SSHKeyService_Register demo_ssh demo_keys (\<lambda>_. False) 0 ''x1'' d demo_ctx ''u1'' ''l'' None = (Inr key, d')"
    "Revoke demo_keys (\<lambda>_. False) 1 d' demo_ctx ''u1'' (key_UUID key) = (None, snd (ArchiveSSHPublicKey d' 1 ''x1'' 1))"
    by (rule register_demo) blast
  from ssh_key_lifecycle [OF d(2,1)] obtain parsed :: "unit Parsed" and ua :: UserAccount where
    "ResolveActor demo_ssh (ks_archived demo_keys) (\<lambda>_. False) d' (Some (pk_Key parsed)) = Inr (ua_AccountHolder ua)"
    "\<And>K' flt' now' ctx' uuid' d''. Revoke K' flt' now' d' ctx' uuid' (key_UUID key) = (None, d'') \<Longrightarrow>
       ResolveActor demo_ssh (ks_archived demo_keys) (\<lambda>_. False) d'' (Some (pk_Key parsed)) = Inl ErrUnknownSSHKey"
    by blast
  with d(2,3) show ?thesis by (intro exI [of _ d] exI [of _ d'] exI [of _ "snd (ArchiveSSHPublicKey d' 1 ''x1'' 1)"] exI [of _ key]) simp
qed

theorem ssh_key_change_guarded_witness:
  "\<exists>tok c' (d :: unit db) d' resp. RegisterSelf (\<lambda>k m. m) Some demo_ssh demo_sh (\<lambda>_. False) 0 ''x1'' d Map.empty demo_ctx demo_uc tok
       (Some \<lparr>rk_PublicKey = ''l'', rk_Label = None\<rparr>) = (resp, c', d') \<and> d' \<noteq> d \<and> c' \<noteq> Map.empty"
proof -
  let ?mac = "\<lambda>k m :: string. m"
  let ?req = "\<lparr>rk_PublicKey = ''l'', rk_Label = None\<rparr>"
  obtain d d' :: "unit db" and u key where d: "user_accounts d = [u]" "ua_Uuid u = ''u1''" "d' \<noteq> d"
    "SSHKeyService_Register demo_ssh demo_keys (\<lambda>_. False) 0 ''x1'' d demo_ctx ''u1'' ''l'' None = (Inr key, d')"
    by (rule register_demo) blast
  obtain tok c' where t: "ssh_step_up ?mac demo_sh tok 1 0 Map.empty = (Inr (), c')"
    using step_up_demo [of ?mac] by (auto simp: ssh_step_up_def)
  have "decodeRegister demo_ssh (Some ?req) = Inr ?req"
    using demo_parse demo_label by (auto simp: decodeRegister_def registerSSHKey_Validate_def ValidateSSHKeyShape_iff)
  then have run: "RegisterSelf ?mac Some demo_ssh demo_sh (\<lambda>_. False) 0 ''x1'' d Map.empty demo_ctx demo_uc tok (Some ?req) = (SshCreated key, c', d')"
    using t d(4) by (simp add: RegisterSelf_def register_key_def)
  from ssh_key_change_guarded [OF disjI1 [OF run] d(3), of "\<lambda>_. Some [1]" "\<lambda>_. False" demo_authz]
  obtain target ua where "GetUserAccountByUUID d target = Inr ua" and own: "target = ''u1'' \<Longrightarrow> c' \<noteq> Map.empty"
    by fastforce
  then have "target = ''u1''" using d(1,2) by (auto simp: GetUserAccountByUUID_def split: if_splits)
  with own run d(3) show ?thesis by blast
qed

theorem NormalizeLabel_bounds_witness:
  "\<exists>lab. NormalizeLabel (Some [32, 97, 32]) [] = Inr lab \<and> lab = [97] \<and> NormalizeLabel (Some lab) [] = Inr lab"
proof -
  have "NormalizeLabel (Some [32, 97, 32]) [] = Inr [97]"
    by (simp add: NormalizeLabel_def utf8_def rune_bytes_def maxLabelRawBytes_def maxLabelRunes_def trim_runes_def rune_space_def
        isDisallowedLabelRune_def rune_control_def)
  with NormalizeLabel_bounds [OF this, of "[]"] show ?thesis by blast
qed

end
