(* ===== verification/Strconv.thy ===== *)
theory Strconv
  imports Json
begin

text \<open>
  \<open>strconv.ParseInt\<close> in base 10 and \<open>strconv.Atoi\<close>, which the configuration and the list
  handlers use: an optional sign, at least one digit, and a value in the range of the width.
\<close>

definition parse_digits :: "string \<Rightarrow> nat option" where
  "parse_digits s = (if s = [] \<or> \<not> list_all is_ascii_digit s then None else Some (digits_val s))"

definition ParseInt :: "nat \<Rightarrow> string \<Rightarrow> int option" where
  "ParseInt bits s =
     (let signed = (case s of
                      [] \<Rightarrow> None
                    | c # r \<Rightarrow>
                        if c = CHR ''-'' then map_option (\<lambda>n. - int n) (parse_digits r)
                        else if c = CHR ''+'' then map_option int (parse_digits r)
                        else map_option int (parse_digits s))
      in case signed of
           None \<Rightarrow> None
         | Some i \<Rightarrow> if - (2 ^ (bits - 1)) \<le> i \<and> i < 2 ^ (bits - 1) then Some i else None)"

definition Atoi :: "string \<Rightarrow> int option" where
  "Atoi s = ParseInt 64 s"

lemma parse_digits_show_nat [simp]: "parse_digits (show_nat n) = Some n"
  by (simp add: parse_digits_def list_all_iff show_nat_digits)

lemma ParseInt_range: "ParseInt bits s = Some i \<Longrightarrow> - (2 ^ (bits - 1)) \<le> i \<and> i < 2 ^ (bits - 1)"
  by (auto simp: ParseInt_def Let_def split: option.splits if_splits)

lemma ParseInt_show_int:
  assumes "- (2 ^ (bits - 1)) \<le> i" "i < 2 ^ (bits - 1)"
  shows "ParseInt bits (show_int i) = Some i"
proof (cases "i < 0")
  case True
  then show ?thesis using assms by (simp add: ParseInt_def show_int_def Let_def)
next
  case False
  then obtain c r where cr: "show_nat (nat i) = c # r" by (cases "show_nat (nat i)") auto
  then have "is_ascii_digit c" using show_nat_digits [of c "nat i"] by simp
  then have "c \<noteq> CHR ''-''" "c \<noteq> CHR ''+''" by (auto simp: is_ascii_digit_def byte_def)
  moreover have "parse_digits (c # r) = Some (nat i)" by (simp flip: cr)
  ultimately show ?thesis using assms False by (simp add: ParseInt_def show_int_def Let_def cr)
qed

end
