(* ===== verification/Config.thy ===== *)
theory Config
  imports Strconv OAuth
begin

text \<open>
  Loading the configuration: \<open>config/config.go\<close> (\<open>Load\<close>, \<open>validate\<close> and their helpers),
  \<open>config/jwt_signing.go\<close> and \<open>config/jwtsecret_bootstrap.go\<close>.

  The environment is an association list. PEM, X.509 and \<open>time.ParseDuration\<close> are fields of a
  record of library functions; a parsed key of another kind is \<open>Some None\<close>. The messages of
  the problems are constructors of a datatype. \<open>Load\<close> reads and writes the database only through
  the bootstrap of the JWT secret, so it takes and returns the database state. The boots that
  run at the same time are an interleaving of the three queries of the bootstrap.
\<close>

section \<open>The library functions\<close>

record config_libs =
  ParseDuration :: "string \<Rightarrow> int option"
  pem_Decode :: "string \<Rightarrow> (string \<times> string) option"
  ParsePKCS8PrivateKey :: "string \<Rightarrow> string option option"
  ParsePKIXPublicKey :: "string \<Rightarrow> string option option"

section \<open>The configuration\<close>

definition DeployModeLocal :: string where "DeployModeLocal = ''local''"
definition DeployModeServerless :: string where "DeployModeServerless = ''serverless''"
definition DeployModeK8s :: string where "DeployModeK8s = ''k8s''"
definition DeployModeContainerHost :: string where "DeployModeContainerHost = ''container-host''"

definition validDeployModes :: "string list" where
  "validDeployModes = [DeployModeLocal, DeployModeServerless, DeployModeK8s, DeployModeContainerHost]"

definition TokenDisplayBoth :: string where "TokenDisplayBoth = ''both''"
definition TokenDisplayStderr :: string where "TokenDisplayStderr = ''stderr''"
definition TokenDisplayLocalhost :: string where "TokenDisplayLocalhost = ''localhost''"
definition TokenDisplayNone :: string where "TokenDisplayNone = ''none''"

definition validTokenDisplays :: "string list" where
  "validTokenDisplays = [TokenDisplayBoth, TokenDisplayStderr, TokenDisplayLocalhost, TokenDisplayNone]"

record DBConfig =
  db_URL :: string
  db_MaxConns :: int
  db_MaxConnLifetime :: int
  db_MaxConnIdleTime :: int

record ServerConfig =
  srv_Addr :: string
  srv_ShutdownTimeout :: int
  srv_CORSOrigins :: string
  srv_GUIBaseURL :: string

record SMTPConfig =
  smtp_Host :: string
  smtp_Port :: int
  smtp_From :: string
  smtp_User :: string
  smtp_Pass :: string

record OTelConfig =
  otel_ExporterEndpoint :: string
  otel_ServiceName :: string

record Config =
  cfg_DB :: DBConfig
  cfg_Auth :: AuthConfig
  cfg_Providers :: ProviderRegistry
  cfg_Server :: ServerConfig
  cfg_LocalAuth :: LocalAuthConfig
  cfg_SMTP :: SMTPConfig
  cfg_OTel :: OTelConfig
  cfg_TokenDisplay :: string
  cfg_DeployMode :: string

section \<open>Problems\<close>

datatype pem_error = NotPEMBlock | NotParsed | NotEd25519

datatype verify_keys_problem =
    VerifyPEM pem_error | VerifyNotJSON | VerifyNoKeys | VerifyTooMany | VerifyEmptyKID | VerifyKID jwt_error | VerifyKey string pem_error

datatype bootstrap_error =
    BootConnect | BootLock | BootTable | ReadSecret db_error | PersistedTooShort nat | GenerateSecret | PersistSecret db_error
  | RefetchSecret db_error | WinnerTooShort nat

datatype config_problem =
    BadDeployMode string
  | BadInteger string string
  | BadDuration string string
  | BadProviders "provider_error list"
  | BadTokenDisplay string
  | BadJWTAlg
  | BadSigningKID jwt_error
  | SigningKeyRequired
  | BadSigningKey pem_error
  | BadVerifyKeys verify_keys_problem
  | BadCookiePath cookie_path_error
  | BootstrapFailed bootstrap_error
  | MissingVars "string list"
  | WildcardOrigins string
  | PartialSMTP "string list"

section \<open>Reading the environment\<close>

definition minute :: int where "minute = 60 * second"

definition getEnv :: "environ \<Rightarrow> string \<Rightarrow> string \<Rightarrow> string" where
  "getEnv env key fallback = (if Getenv env key \<noteq> [] then Getenv env key else fallback)"

definition resolveDBURL :: "environ \<Rightarrow> string" where
  "resolveDBURL env =
     (if Getenv env ''MFAPP_DATABASE_URL'' \<noteq> [] then Getenv env ''MFAPP_DATABASE_URL''
      else if Getenv env ''DB_URL'' \<noteq> [] then Getenv env ''DB_URL''
      else [])"

definition parseDuration :: "config_libs \<Rightarrow> environ \<Rightarrow> string \<Rightarrow> int \<Rightarrow> int \<times> config_problem list" where
  "parseDuration L env key fallback =
     (let v = Getenv env key in
      if v = [] then (fallback, [])
      else (case ParseDuration L v of
              None \<Rightarrow> (fallback, [BadDuration key v])
            | Some dur \<Rightarrow> (dur, [])))"

text \<open>An integer variable, with the default of its field.\<close>

definition env_int :: "environ \<Rightarrow> string \<Rightarrow> int \<Rightarrow> int \<times> config_problem list" where
  "env_int env key dflt =
     (let v = Getenv env key in
      if v = [] then (dflt, [])
      else (case Atoi v of None \<Rightarrow> (dflt, [BadInteger key v]) | Some n \<Rightarrow> (n, [])))"

definition deploy_mode :: "environ \<Rightarrow> string \<times> config_problem list" where
  "deploy_mode env =
     (let raw = getEnv env ''DEPLOY_MODE'' DeployModeLocal in
      if raw \<in> set validDeployModes then (raw, []) else (DeployModeLocal, [BadDeployMode raw]))"

definition token_display :: "environ \<Rightarrow> string \<times> config_problem list" where
  "token_display env =
     (let td = ToLower (TrimSpace (getEnv env ''TOKEN_DISPLAY'' TokenDisplayBoth)) in
      if td \<in> set validTokenDisplays then (td, []) else (TokenDisplayBoth, [BadTokenDisplay td]))"

section \<open>Signing and verification keys\<close>

text \<open>\<open>strings.ReplaceAll(s, `\n`, "\n")\<close>: a backslash and an n become a newline.\<close>

fun unescape_newlines :: "string \<Rightarrow> string" where
  "unescape_newlines (a # b # r) =
     (if a = CHR 0x5C \<and> b = CHR ''n'' then CHR 0x0A # unescape_newlines r else a # unescape_newlines (b # r))"
| "unescape_newlines s = s"

definition ParseEd25519PrivateKeyPEM :: "config_libs \<Rightarrow> string \<Rightarrow> (pem_error, string) result" where
  "ParseEd25519PrivateKeyPEM L s =
     (case pem_Decode L (TrimSpace (unescape_newlines s)) of
        None \<Rightarrow> Inl NotPEMBlock
      | Some (ty, bytes) \<Rightarrow>
          if ty \<noteq> ''PRIVATE KEY'' then Inl NotPEMBlock
          else
            (case ParsePKCS8PrivateKey L bytes of
               None \<Rightarrow> Inl NotParsed
             | Some None \<Rightarrow> Inl NotEd25519
             | Some (Some key) \<Rightarrow> Inr key))"

definition ParseEd25519PublicKeyPEM :: "config_libs \<Rightarrow> string \<Rightarrow> (pem_error, string) result" where
  "ParseEd25519PublicKeyPEM L s =
     (case pem_Decode L (TrimSpace (unescape_newlines s)) of
        None \<Rightarrow> Inl NotPEMBlock
      | Some (ty, bytes) \<Rightarrow>
          if ty \<noteq> ''PUBLIC KEY'' then Inl NotPEMBlock
          else
            (case ParsePKIXPublicKey L bytes of
               None \<Rightarrow> Inl NotParsed
             | Some None \<Rightarrow> Inl NotEd25519
             | Some (Some key) \<Rightarrow> Inr key))"

text \<open>The algorithm, the key (empty for nil), the kid and the problems.\<close>

definition loadJWTSigning :: "config_libs \<Rightarrow> environ \<Rightarrow> string \<times> string \<times> string \<times> config_problem list" where
  "loadJWTSigning L env =
     (let v = TrimSpace (Getenv env ''JWT_ALG'');
          (alg, p1) = (if v = [] then (JWTAlgHS256, [])
                       else if v = JWTAlgHS256 \<or> v = JWTAlgEdDSA then (v, [])
                       else (JWTAlgHS256, [BadJWTAlg]));
          kid0 = TrimSpace (Getenv env ''JWT_SIGNING_KID'');
          (kid, p2) = (case ValidateKID kid0 of Inl e \<Rightarrow> ([], [BadSigningKID e]) | Inr _ \<Rightarrow> (kid0, []));
          raw = Getenv env ''JWT_SIGNING_KEY'';
          (key, p3) = (if alg \<noteq> JWTAlgEdDSA then ([], [])
                       else if TrimSpace raw = [] then ([], [SigningKeyRequired])
                       else (case ParseEd25519PrivateKeyPEM L raw of
                               Inl e \<Rightarrow> ([], [BadSigningKey e])
                             | Inr k \<Rightarrow> (k, [])))
      in (alg, key, kid, p1 @ p2 @ p3))"

definition maxJWTVerifyKeys :: nat where "maxJWTVerifyKeys = 32"

text \<open>
  \<open>json.Unmarshal\<close> into a \<open>map[string]string\<close>: \<open>null\<close> members are empty strings, and a later
  member replaces an earlier one of the same key.
\<close>

fun string_map :: "(string \<times> json) list \<Rightarrow> (string \<times> string) list \<Rightarrow> (string \<times> string) list option" where
  "string_map [] m = Some m"
| "string_map ((k, v) # ms) m =
     (case v of
        JNull \<Rightarrow> string_map ms (map_put k [] m)
      | JStr s \<Rightarrow> string_map ms (map_put k s m)
      | _ \<Rightarrow> None)"

text \<open>The loop over the entries; its order, which Go leaves open, is that of the list.\<close>

fun verify_entries :: "config_libs \<Rightarrow> (string \<times> string) list \<Rightarrow> (string \<times> string) list \<times> verify_keys_problem list" where
  "verify_entries L [] = ([], [])"
| "verify_entries L ((kid, pem) # es) =
     (case verify_entries L es of
        (keys, problems) \<Rightarrow>
          if kid = [] then (keys, VerifyEmptyKID # problems)
          else
            (case ValidateKID kid of
               Inl e \<Rightarrow> (keys, VerifyKID e # problems)
             | Inr _ \<Rightarrow>
                 (case ParseEd25519PublicKeyPEM L pem of
                    Inl e \<Rightarrow> (keys, VerifyKey kid e # problems)
                  | Inr k \<Rightarrow> ((kid, k) # keys, problems))))"

definition loadJWTVerifyPublicKeys :: "config_libs \<Rightarrow> environ \<Rightarrow> (string \<times> string) list \<times> verify_keys_problem list" where
  "loadJWTVerifyPublicKeys L env =
     (let raw = TrimSpace (Getenv env ''JWT_VERIFY_PUBLIC_KEYS'') in
      if raw = [] then ([], [])
      else if \<not> HasPrefix raw ''{'' then
        (case ParseEd25519PublicKeyPEM L raw of
           Inl e \<Rightarrow> ([], [VerifyPEM e])
         | Inr k \<Rightarrow> ([([], k)], []))
      else
        (case json_parse raw of
           Some (JObj ms) \<Rightarrow>
             (case string_map ms [] of
                None \<Rightarrow> ([], [VerifyNotJSON])
              | Some entries \<Rightarrow>
                  if entries = [] then ([], [VerifyNoKeys])
                  else if length entries > maxJWTVerifyKeys then ([], [VerifyTooMany])
                  else
                    (case verify_entries L entries of
                       (keys, problems) \<Rightarrow> if problems \<noteq> [] then ([], problems) else (keys, [])))
         | _ \<Rightarrow> ([], [VerifyNotJSON])))"

section \<open>The secret kept in the database\<close>

definition jwtSecretByteLen :: nat where "jwtSecretByteLen = 32"

text \<open>Sites: 0 first read, 1 insert, 2 second read. \<open>rnd\<close> is what \<open>rand.Read\<close> delivers.\<close>

definition fetchOrGeneratePersistedJWTSecret ::
  "faults \<Rightarrow> string option \<Rightarrow> 'c db \<Rightarrow> (bootstrap_error, string) result \<times> 'c db" where
  "fetchOrGeneratePersistedJWTSecret flt rnd d =
     (case at flt 0 (GetJWTSecret d) of
        Inr secret \<Rightarrow> (if length secret < jwtSecretByteLen * 2 then Inl (PersistedTooShort (length secret)) else Inr secret, d)
      | Inl NoRows \<Rightarrow>
          (case rnd of
             None \<Rightarrow> (Inl GenerateSecret, d)
           | Some candidate \<Rightarrow>
               (case at flt 1 (InsertJWTSecretIfAbsent d (hex_encode candidate)) of
                  Inr (inserted, d') \<Rightarrow> (Inr inserted, d')
                | Inl NoRows \<Rightarrow>
                    (case at flt 2 (GetJWTSecret d) of
                       Inl e \<Rightarrow> (Inl (RefetchSecret e), d)
                     | Inr winner \<Rightarrow>
                         (if length winner < jwtSecretByteLen * 2 then Inl (WinnerTooShort (length winner)) else Inr winner, d))
                | Inl e \<Rightarrow> (Inl (PersistSecret e), d)))
      | Inl e \<Rightarrow> (Inl (ReadSecret e), d))"

text \<open>Sites: 10 connect, 11 advisory lock, 12 creation of the table.\<close>

definition bootstrapJWTSecretFromDB ::
  "faults \<Rightarrow> string option \<Rightarrow> 'c db \<Rightarrow> (bootstrap_error, string) result \<times> 'c db" where
  "bootstrapJWTSecretFromDB flt rnd d =
     (if flt 10 then (Inl BootConnect, d)
      else if flt 11 then (Inl BootLock, d)
      else if flt 12 then (Inl BootTable, d)
      else fetchOrGeneratePersistedJWTSecret flt rnd d)"

text \<open>
  The same code one query at a time, for boots that run concurrently: where a boot stands, and
  what its next query does to it and to the shared database.
\<close>

datatype boot_pc = BootGet | BootInsert string | BootRefetch | BootDone "(bootstrap_error, string) result"

definition boot_step :: "faults \<Rightarrow> string option \<Rightarrow> 'c db \<Rightarrow> boot_pc \<Rightarrow> boot_pc \<times> 'c db" where
  "boot_step flt rnd d pc =
     (case pc of
        BootGet \<Rightarrow>
          (case at flt 0 (GetJWTSecret d) of
             Inr secret \<Rightarrow>
               (BootDone (if length secret < jwtSecretByteLen * 2 then Inl (PersistedTooShort (length secret)) else Inr secret), d)
           | Inl NoRows \<Rightarrow> (case rnd of None \<Rightarrow> (BootDone (Inl GenerateSecret), d) | Some c \<Rightarrow> (BootInsert (hex_encode c), d))
           | Inl e \<Rightarrow> (BootDone (Inl (ReadSecret e)), d))
      | BootInsert encoded \<Rightarrow>
          (case at flt 1 (InsertJWTSecretIfAbsent d encoded) of
             Inr (inserted, d') \<Rightarrow> (BootDone (Inr inserted), d')
           | Inl NoRows \<Rightarrow> (BootRefetch, d)
           | Inl e \<Rightarrow> (BootDone (Inl (PersistSecret e)), d))
      | BootRefetch \<Rightarrow>
          (case at flt 2 (GetJWTSecret d) of
             Inl e \<Rightarrow> (BootDone (Inl (RefetchSecret e)), d)
           | Inr winner \<Rightarrow>
               (BootDone (if length winner < jwtSecretByteLen * 2 then Inl (WinnerTooShort (length winner)) else Inr winner), d))
      | BootDone r \<Rightarrow> (BootDone r, d))"

text \<open>Any number of boots, each with its own position, on one database.\<close>

inductive boots_step :: "'c db \<times> (nat \<Rightarrow> boot_pc) \<Rightarrow> 'c db \<times> (nat \<Rightarrow> boot_pc) \<Rightarrow> bool" where
  query: "boot_step flt rnd d (pcs i) = (pc, d') \<Longrightarrow> (\<forall>c. rnd = Some c \<longrightarrow> length c = jwtSecretByteLen) \<Longrightarrow>
     boots_step (d, pcs) (d', pcs(i := pc))"

section \<open>Loading and validation\<close>

text \<open>The pure part of \<open>Load\<close>: the configuration the environment gives, and the parse errors.\<close>

definition load_config :: "config_libs \<Rightarrow> environ \<Rightarrow> Config \<times> config_problem list" where
  "load_config L env =
     (let (mode, p1) = deploy_mode env;
          (maxConns, p2) = env_int env ''DB_MAX_CONNS'' (if mode = DeployModeServerless then 4 else 20);
          (smtpPort, p3) = env_int env ''SMTP_PORT'' 0;
          (maxConnLifetime, p4) = parseDuration L env ''DB_MAX_CONN_LIFETIME'' (5 * minute);
          (maxConnIdleTime, p5) = parseDuration L env ''DB_MAX_CONN_IDLE_TIME'' (1 * minute);
          (shutdownTimeout, p6) = parseDuration L env ''SERVER_SHUTDOWN_TIMEOUT'' (25 * second);
          (emailCodeTTL, p7) = parseDuration L env ''EMAIL_CODE_TTL'' (5 * minute);
          (passwordResetTTL, p8) = parseDuration L env ''PASSWORD_RESET_TTL'' (30 * minute);
          (registry, p9) = (case LoadProviders env of Inl es \<Rightarrow> ([], [BadProviders es]) | Inr r \<Rightarrow> (r, []));
          (tokenDisplay, p10) = token_display env;
          (jwtAlg, jwtSigningKey, jwtSigningKID, p11) = loadJWTSigning L env;
          (jwtVerifyKeys, vp) = loadJWTVerifyPublicKeys L env;
          cookie = Getenv env ''USERS_COOKIE_PATH'';
          (cookiePath, p13) = (case ValidateCookieBasePath cookie of Inl e \<Rightarrow> ([], [BadCookiePath e]) | Inr _ \<Rightarrow> (cookie, []))
      in (\<lparr>cfg_DB = \<lparr>db_URL = resolveDBURL env, db_MaxConns = maxConns, db_MaxConnLifetime = maxConnLifetime, db_MaxConnIdleTime = maxConnIdleTime\<rparr>,
           cfg_Auth = \<lparr>ac_AdminRole = getEnv env ''AUTH_ADMIN_ROLE'' ''admin'', ac_FrontendReturnURL = Getenv env ''AUTH_FRONTEND_RETURN_URL'',
             ac_OAuthRedirectBaseURL = Getenv env ''AUTH_OAUTH_REDIRECT_BASE_URL'', ac_CookiePath = cookiePath,
             ac_RequireStepUp = parseBoolEnv (Getenv env ''AUTH_REQUIRE_STEP_UP'')\<rparr>,
           cfg_Providers = registry,
           cfg_Server = \<lparr>srv_Addr = getEnv env ''SERVER_ADDR'' '':8080'', srv_ShutdownTimeout = shutdownTimeout,
             srv_CORSOrigins = Getenv env ''CORS_ORIGINS'', srv_GUIBaseURL = getEnv env ''GUI_BASE_URL'' ''http://localhost:3000''\<rparr>,
           cfg_LocalAuth = \<lparr>JWTSecret = Getenv env ''JWT_SECRET'', JWTAlg = jwtAlg, JWTSigningKey = jwtSigningKey, JWTSigningKID = jwtSigningKID,
             JWTVerifyPublicKeys = jwtVerifyKeys, EmailCodeTTL = emailCodeTTL, PasswordResetTTL = passwordResetTTL,
             LocalIssuer = getEnv env ''LOCAL_ISSUER'' ''users-module-local''\<rparr>,
           cfg_SMTP = \<lparr>smtp_Host = Getenv env ''SMTP_HOST'', smtp_Port = smtpPort, smtp_From = Getenv env ''SMTP_FROM'',
             smtp_User = Getenv env ''SMTP_USER'', smtp_Pass = Getenv env ''SMTP_PASS''\<rparr>,
           cfg_OTel = \<lparr>otel_ExporterEndpoint = Getenv env ''OTEL_EXPORTER_OTLP_ENDPOINT'', otel_ServiceName = getEnv env ''OTEL_SERVICE_NAME'' ''users-api''\<rparr>,
           cfg_TokenDisplay = tokenDisplay,
           cfg_DeployMode = mode\<rparr>,
          p1 @ p2 @ p3 @ p4 @ p5 @ p6 @ p7 @ p8 @ p9 @ p10 @ p11 @ map BadVerifyKeys vp @ p13))"

definition set_secret :: "string \<Rightarrow> Config \<Rightarrow> Config" where
  "set_secret s cfg = cfg\<lparr>cfg_LocalAuth := (cfg_LocalAuth cfg)\<lparr>JWTSecret := s\<rparr>\<rparr>"

text \<open>A blank secret under EdDSA means that the keys are derived.\<close>

definition normalize_secret :: "Config \<Rightarrow> Config" where
  "normalize_secret cfg =
     (if JWTAlg (cfg_LocalAuth cfg) = JWTAlgEdDSA \<and> TrimSpace (JWTSecret (cfg_LocalAuth cfg)) = [] then set_secret [] cfg else cfg)"

definition load_secret :: "faults \<Rightarrow> string option \<Rightarrow> 'c db \<Rightarrow> Config \<Rightarrow> Config \<times> config_problem list \<times> 'c db" where
  "load_secret flt rnd d cfg =
     (if JWTSecret (cfg_LocalAuth cfg) = [] \<and> db_URL (cfg_DB cfg) \<noteq> [] \<and> JWTAlg (cfg_LocalAuth cfg) \<noteq> JWTAlgEdDSA then
        (case bootstrapJWTSecretFromDB flt rnd d of
           (Inl e, d') \<Rightarrow> (cfg, [BootstrapFailed e], d')
         | (Inr secret, d') \<Rightarrow> (set_secret secret cfg, [], d'))
      else (cfg, [], d))"

definition required_vars :: "Config \<Rightarrow> (string \<times> string) list" where
  "required_vars cfg =
     [(''MFAPP_DATABASE_URL / DB_URL'', db_URL (cfg_DB cfg))] @
     (if JWTAlg (cfg_LocalAuth cfg) \<noteq> JWTAlgEdDSA then [(''JWT_SECRET'', JWTSecret (cfg_LocalAuth cfg))] else []) @
     (if cfg_Providers cfg \<noteq> [] then
        [(''AUTH_FRONTEND_RETURN_URL'', ac_FrontendReturnURL (cfg_Auth cfg)),
         (''AUTH_OAUTH_REDIRECT_BASE_URL'', ac_OAuthRedirectBaseURL (cfg_Auth cfg))]
      else [])"

definition missing_vars :: "Config \<Rightarrow> string list" where
  "missing_vars cfg = map fst (filter (\<lambda>(field, value). TrimSpace value = []) (required_vars cfg))"

definition smtp_missing :: "SMTPConfig \<Rightarrow> string list" where
  "smtp_missing smtp =
     (if smtp_Port smtp = 0 then [''SMTP_PORT''] else []) @
     (if TrimSpace (smtp_From smtp) = [] then [''SMTP_FROM''] else [])"

definition validate :: "Config \<Rightarrow> config_problem list \<Rightarrow> config_problem list" where
  "validate cfg parseErrors =
     parseErrors @
     (if missing_vars cfg \<noteq> [] then [MissingVars (missing_vars cfg)] else []) @
     (if cfg_DeployMode cfg \<noteq> DeployModeLocal \<and>
         list_ex (\<lambda>or. Contains or ''*'') (Split (srv_CORSOrigins (cfg_Server cfg)) (CHR '',''))
      then [WildcardOrigins (cfg_DeployMode cfg)] else []) @
     (if smtp_Host (cfg_SMTP cfg) \<noteq> [] \<and> smtp_missing (cfg_SMTP cfg) \<noteq> [] then [PartialSMTP (smtp_missing (cfg_SMTP cfg))] else [])"

definition Load :: "config_libs \<Rightarrow> environ \<Rightarrow> faults \<Rightarrow> string option \<Rightarrow> 'c db \<Rightarrow> (config_problem list, Config) result \<times> 'c db" where
  "Load L env flt rnd d =
     (case load_config L env of
        (cfg0, parseErrors) \<Rightarrow>
          (case load_secret flt rnd d (normalize_secret cfg0) of
             (cfg, secretErrors, d') \<Rightarrow>
               (let problems = validate cfg (parseErrors @ secretErrors)
                in (if problems = [] then Inr cfg else Inl problems, d'))))"

section \<open>Lemmas\<close>

lemma InsertJWTSecretIfAbsent_Inr:
  "InsertJWTSecretIfAbsent d s = Inr (t, d') \<longleftrightarrow> 32 \<le> length s \<and> jwt_secret d = None \<and> t = s \<and> d' = d\<lparr>jwt_secret := Some s\<rparr>"
  by (auto simp: InsertJWTSecretIfAbsent_def split: option.splits)

text \<open>The single row is written once.\<close>

interpretation jwt_row: put_once "\<lambda>d (_ :: unit). jwt_secret d"
  "\<lambda>d _ s. case InsertJWTSecretIfAbsent d s of Inr (_, d') \<Rightarrow> (True, d') | Inl _ \<Rightarrow> (False, d)" "\<lambda>_ _ s. 32 \<le> length s"
  by unfold_locales (auto simp: InsertJWTSecretIfAbsent_def)

text \<open>The sequential code is what its queries do one after the other.\<close>

lemma fetch_is_three_queries:
  "(case boot_step flt rnd d BootGet of (pc, d') \<Rightarrow> case boot_step flt rnd d' pc of (pc', d'') \<Rightarrow> boot_step flt rnd d'' pc') =
     (case fetchOrGeneratePersistedJWTSecret flt rnd d of (r, d') \<Rightarrow> (BootDone r, d'))"
  by (cases "jwt_secret d"; cases rnd; cases "flt 0"; cases "flt 1"; cases "flt 2")
     (auto simp: boot_step_def fetchOrGeneratePersistedJWTSecret_def GetJWTSecret_def InsertJWTSecretIfAbsent_def at_def)

fun pc_ok :: "'c db \<Rightarrow> boot_pc \<Rightarrow> bool" where
  "pc_ok d (BootInsert e) \<longleftrightarrow> length e = 64"
| "pc_ok d (BootDone (Inr s)) \<longleftrightarrow> jwt_secret d = Some s \<and> 64 \<le> length s"
| "pc_ok d _ \<longleftrightarrow> True"

definition boots_inv :: "string option \<Rightarrow> 'c db \<times> (nat \<Rightarrow> boot_pc) \<Rightarrow> bool" where
  "boots_inv old st \<longleftrightarrow> (\<forall>i. pc_ok (fst st) (snd st i)) \<and> (\<forall>s. old = Some s \<longrightarrow> jwt_secret (fst st) = Some s)"

lemma boot_step_pc:
  assumes "boot_step flt rnd d pc = (pc', d')" "pc_ok d pc" "\<forall>c. rnd = Some c \<longrightarrow> length c = jwtSecretByteLen"
  shows "pc_ok d' pc'"
  using assms
  by (cases pc)
     (auto simp: boot_step_def jwtSecretByteLen_def length_hex_encode GetJWTSecret_def one_def at_def InsertJWTSecretIfAbsent_def
      split: sum.splits option.splits db_error.splits if_splits)

lemma boot_step_db:
  assumes "boot_step flt rnd d pc = (pc', d')"
  shows "d' = d \<or> jwt_secret d = None \<and> (\<exists>s. d' = d\<lparr>jwt_secret := Some s\<rparr>)"
  using assms by (auto simp: boot_step_def at_def InsertJWTSecretIfAbsent_def split: boot_pc.splits sum.splits option.splits db_error.splits if_splits)

lemma pc_ok_mono: "pc_ok d pc \<Longrightarrow> d' = d \<or> jwt_secret d = None \<Longrightarrow> pc_ok d' pc"
  by (cases "(d, pc)" rule: pc_ok.cases) auto

lemma boots_step_inv: "boots_step s t \<Longrightarrow> boots_inv old s \<Longrightarrow> boots_inv old t"
proof (induction rule: boots_step.induct)
  case (query flt rnd d pcs i pc d')
  then have "pc_ok d' pc" using boot_step_pc [OF query(1)] by (simp add: boots_inv_def)
  moreover have "pc_ok d' (pcs j)" for j
    using query(3) boot_step_db [OF query(1)] by (auto simp: boots_inv_def intro: pc_ok_mono)
  moreover have "old = Some s \<Longrightarrow> jwt_secret d' = Some s" for s
    using query(3) boot_step_db [OF query(1)] by (auto simp: boots_inv_def)
  ultimately show ?case by (simp add: boots_inv_def)
qed

interpretation boots: invariant_system "\<lambda>st. jwt_secret (fst st) = old \<and> (\<forall>i. snd st i = BootGet)" boots_step "boots_inv old" for old
proof
  show "boots_inv old s" if "jwt_secret (fst s) = old \<and> (\<forall>i. snd s i = BootGet)" for s :: "'a db \<times> (nat \<Rightarrow> boot_pc)"
    using that by (simp add: boots_inv_def)
qed (rule boots_step_inv)

lemma Contains_single: "Contains s [c] \<longleftrightarrow> c \<in> set s"
proof (induction s)
  case (Cons x s)
  then show ?case by (auto simp: Contains_def HasPrefix_def split: option.splits if_splits)
qed (simp add: Contains_def HasPrefix_def)

lemma getEnv_not_Nil: "fallback \<noteq> [] \<Longrightarrow> getEnv env key fallback \<noteq> []"
  by (simp add: getEnv_def)

lemma string_map_distinct: "string_map ms m = Some m' \<Longrightarrow> distinct (map fst m) \<Longrightarrow> distinct (map fst m')"
  by (induction ms m rule: string_map.induct) (auto split: json.splits intro: distinct_map_put)

text \<open>A verification key that the loader accepts.\<close>

definition verify_key_ok :: "config_libs \<Rightarrow> string \<times> string \<Rightarrow> bool" where
  "verify_key_ok L e \<longleftrightarrow> ValidateKID (fst e) = Inr () \<and> (\<exists>pem. ParseEd25519PublicKeyPEM L pem = Inr (snd e))"

lemma verify_entries_ok:
  "verify_entries L es = (keys, problems) \<Longrightarrow>
     (\<forall>e \<in> set keys. verify_key_ok L e) \<and> fst ` set keys \<subseteq> fst ` set es \<and> length keys \<le> length es \<and>
     (distinct (map fst es) \<longrightarrow> distinct (map fst keys))"
proof (induction es arbitrary: keys problems)
  case (Cons e es)
  obtain kid pem where e: "e = (kid, pem)" by fastforce
  obtain ks ps where r: "verify_entries L es = (ks, ps)" by fastforce
  from Cons.prems have "keys = ks \<or> (\<exists>k. keys = (kid, k) # ks \<and> ParseEd25519PublicKeyPEM L pem = Inr k \<and> ValidateKID kid = Inr ())"
    by (auto simp: e r split: if_splits sum.splits)
  then have "keys = ks \<or> (\<exists>k. keys = (kid, k) # ks \<and> verify_key_ok L (kid, k))"
    unfolding verify_key_ok_def by force
  with Cons.IH [OF r] show ?case by (elim disjE exE) (auto simp: e)
qed simp

lemma loadJWTVerifyPublicKeys_ok:
  assumes "loadJWTVerifyPublicKeys L env = (keys, [])"
  shows "(\<forall>e \<in> set keys. verify_key_ok L e) \<and> distinct (map fst keys) \<and> length keys \<le> 32"
proof -
  have "ValidateKID [] = Inr ()" by (simp add: ValidateKID_def)
  with assms show ?thesis
    by (auto simp: loadJWTVerifyPublicKeys_def Let_def verify_key_ok_def maxJWTVerifyKeys_def
        split: if_splits sum.splits option.splits json.splits prod.splits
        dest!: verify_entries_ok dest: string_map_distinct)
qed

lemma loadJWTSigning_ok:
  assumes "loadJWTSigning L env = (alg, key, kid, [])"
  shows "ValidateKID kid = Inr () \<and> (alg = JWTAlgHS256 \<or> alg = JWTAlgEdDSA \<and> (\<exists>raw. ParseEd25519PrivateKeyPEM L raw = Inr key))"
proof -
  have "ValidateKID [] = Inr ()" by (simp add: ValidateKID_def)
  with assms show ?thesis by (auto simp: loadJWTSigning_def Let_def split: if_splits sum.splits)
qed

text \<open>What every configuration that \<open>Load\<close> returns satisfies.\<close>

definition local_auth_wf :: "config_libs \<Rightarrow> LocalAuthConfig \<Rightarrow> bool" where
  "local_auth_wf L lc \<longleftrightarrow>
     (JWTAlg lc = ''HS256'' \<and> TrimSpace (JWTSecret lc) \<noteq> [] \<or>
      JWTAlg lc = ''EdDSA'' \<and> (\<exists>raw. ParseEd25519PrivateKeyPEM L raw = Inr (JWTSigningKey lc)) \<and>
        (JWTSecret lc = [] \<or> TrimSpace (JWTSecret lc) \<noteq> [])) \<and>
     ValidateKID (JWTSigningKID lc) = Inr () \<and>
     (\<forall>e \<in> set (JWTVerifyPublicKeys lc). verify_key_ok L e) \<and> distinct (map fst (JWTVerifyPublicKeys lc)) \<and>
     length (JWTVerifyPublicKeys lc) \<le> 32 \<and> LocalIssuer lc \<noteq> []"

definition config_wf :: "config_libs \<Rightarrow> Config \<Rightarrow> bool" where
  "config_wf L cfg \<longleftrightarrow>
     cfg_DeployMode cfg \<in> {''local'', ''serverless'', ''k8s'', ''container-host''} \<and>
     cfg_TokenDisplay cfg \<in> {''both'', ''stderr'', ''localhost'', ''none''} \<and>
     TrimSpace (db_URL (cfg_DB cfg)) \<noteq> [] \<and> in_int64 (db_MaxConns (cfg_DB cfg)) \<and>
     local_auth_wf L (cfg_LocalAuth cfg) \<and>
     is_ok (ValidateCookieBasePath (ac_CookiePath (cfg_Auth cfg))) \<and>
     (cfg_Providers cfg \<noteq> [] \<longrightarrow> TrimSpace (ac_FrontendReturnURL (cfg_Auth cfg)) \<noteq> [] \<and>
        TrimSpace (ac_OAuthRedirectBaseURL (cfg_Auth cfg)) \<noteq> []) \<and>
     (cfg_DeployMode cfg \<noteq> ''local'' \<longrightarrow> CHR ''*'' \<notin> set (srv_CORSOrigins (cfg_Server cfg))) \<and>
     (smtp_Host (cfg_SMTP cfg) \<noteq> [] \<longrightarrow> smtp_Port (cfg_SMTP cfg) \<noteq> 0 \<and> TrimSpace (smtp_From (cfg_SMTP cfg)) \<noteq> [])"

lemma set_secret_sel [simp]:
  "cfg_DB (set_secret s cfg) = cfg_DB cfg" "cfg_Auth (set_secret s cfg) = cfg_Auth cfg" "cfg_Providers (set_secret s cfg) = cfg_Providers cfg"
  "cfg_Server (set_secret s cfg) = cfg_Server cfg" "cfg_SMTP (set_secret s cfg) = cfg_SMTP cfg"
  "cfg_TokenDisplay (set_secret s cfg) = cfg_TokenDisplay cfg" "cfg_DeployMode (set_secret s cfg) = cfg_DeployMode cfg"
  "cfg_LocalAuth (set_secret s cfg) = (cfg_LocalAuth cfg)\<lparr>JWTSecret := s\<rparr>"
  by (simp_all add: set_secret_def)

lemma load_secret_cases:
  assumes "load_secret flt rnd d cfg = (cfg', ps, d')"
  obtains "cfg' = cfg" "JWTSecret (cfg_LocalAuth cfg) \<noteq> [] \<or> db_URL (cfg_DB cfg) = [] \<or> JWTAlg (cfg_LocalAuth cfg) = JWTAlgEdDSA" "d' = d"
  | s where "cfg' = set_secret s cfg" "JWTAlg (cfg_LocalAuth cfg) \<noteq> JWTAlgEdDSA" "bootstrapJWTSecretFromDB flt rnd d = (Inr s, d')"
  | e where "cfg' = cfg" "ps = [BootstrapFailed e]" "bootstrapJWTSecretFromDB flt rnd d = (Inl e, d')"
  using assms by (auto simp: load_secret_def split: if_splits prod.splits sum.splits)

lemma in_all_splits: "c \<noteq> sep \<Longrightarrow> c \<in> set s \<longleftrightarrow> (\<exists>p \<in> set (Split s sep). c \<in> set p)"
  by (induction s sep rule: Split.induct) (auto simp: Let_def split: list.splits)

lemma validate_Nil:
  assumes "validate cfg ps = []"
  shows "ps = []" "TrimSpace (db_URL (cfg_DB cfg)) \<noteq> []" "JWTAlg (cfg_LocalAuth cfg) \<noteq> JWTAlgEdDSA \<Longrightarrow> TrimSpace (JWTSecret (cfg_LocalAuth cfg)) \<noteq> []"
    "cfg_Providers cfg \<noteq> [] \<Longrightarrow> TrimSpace (ac_FrontendReturnURL (cfg_Auth cfg)) \<noteq> [] \<and> TrimSpace (ac_OAuthRedirectBaseURL (cfg_Auth cfg)) \<noteq> []"
    "cfg_DeployMode cfg \<noteq> ''local'' \<Longrightarrow> CHR ''*'' \<notin> set (srv_CORSOrigins (cfg_Server cfg))"
    "smtp_Host (cfg_SMTP cfg) \<noteq> [] \<Longrightarrow> smtp_Port (cfg_SMTP cfg) \<noteq> 0 \<and> TrimSpace (smtp_From (cfg_SMTP cfg)) \<noteq> []"
proof -
  have v: "ps = []" "missing_vars cfg = []"
    "\<not> (cfg_DeployMode cfg \<noteq> DeployModeLocal \<and> list_ex (\<lambda>or. Contains or ''*'') (Split (srv_CORSOrigins (cfg_Server cfg)) (CHR '','')))"
    "\<not> (smtp_Host (cfg_SMTP cfg) \<noteq> [] \<and> smtp_missing (cfg_SMTP cfg) \<noteq> [])"
    using assms by (auto simp: validate_def split: if_splits)
  then show "ps = []" by simp
  show "TrimSpace (db_URL (cfg_DB cfg)) \<noteq> []" "JWTAlg (cfg_LocalAuth cfg) \<noteq> JWTAlgEdDSA \<Longrightarrow> TrimSpace (JWTSecret (cfg_LocalAuth cfg)) \<noteq> []"
    "cfg_Providers cfg \<noteq> [] \<Longrightarrow> TrimSpace (ac_FrontendReturnURL (cfg_Auth cfg)) \<noteq> [] \<and> TrimSpace (ac_OAuthRedirectBaseURL (cfg_Auth cfg)) \<noteq> []"
    using v(2) by (auto simp: missing_vars_def required_vars_def filter_empty_conv split: if_splits)
  show "cfg_DeployMode cfg \<noteq> ''local'' \<Longrightarrow> CHR ''*'' \<notin> set (srv_CORSOrigins (cfg_Server cfg))"
    using v(3) in_all_splits [of "CHR ''*''" "CHR '',''" "srv_CORSOrigins (cfg_Server cfg)"]
    by (auto simp: DeployModeLocal_def list_ex_iff Contains_single)
  show "smtp_Host (cfg_SMTP cfg) \<noteq> [] \<Longrightarrow> smtp_Port (cfg_SMTP cfg) \<noteq> 0 \<and> TrimSpace (smtp_From (cfg_SMTP cfg)) \<noteq> []"
    using v(4) by (auto simp: smtp_missing_def split: if_splits)
qed

lemma load_config_ok:
  assumes "load_config L env = (cfg, [])"
  shows "cfg_DeployMode cfg \<in> {''local'', ''serverless'', ''k8s'', ''container-host''}"
    "cfg_TokenDisplay cfg \<in> {''both'', ''stderr'', ''localhost'', ''none''}" "in_int64 (db_MaxConns (cfg_DB cfg))"
    "is_ok (ValidateCookieBasePath (ac_CookiePath (cfg_Auth cfg)))" "LocalIssuer (cfg_LocalAuth cfg) \<noteq> []"
    "loadJWTSigning L env = (JWTAlg (cfg_LocalAuth cfg), JWTSigningKey (cfg_LocalAuth cfg), JWTSigningKID (cfg_LocalAuth cfg), [])"
    "loadJWTVerifyPublicKeys L env = (JWTVerifyPublicKeys (cfg_LocalAuth cfg), [])"
proof -
  have modes: "fst (deploy_mode env) \<in> {''local'', ''serverless'', ''k8s'', ''container-host''}"
    by (auto simp: deploy_mode_def Let_def validDeployModes_def DeployModeLocal_def DeployModeServerless_def DeployModeK8s_def DeployModeContainerHost_def)
  have displays: "fst (token_display env) \<in> {''both'', ''stderr'', ''localhost'', ''none''}"
    by (auto simp: token_display_def Let_def validTokenDisplays_def TokenDisplayBoth_def TokenDisplayStderr_def TokenDisplayLocalhost_def TokenDisplayNone_def)
  have ints: "in_int64 (fst (env_int env k x))" if "in_int64 x" for k x
    using that by (auto simp: env_int_def Let_def Atoi_def in_int64_def split: option.splits dest!: ParseInt_range)
  show "cfg_DeployMode cfg \<in> {''local'', ''serverless'', ''k8s'', ''container-host''}"
    using assms modes by (auto simp: load_config_def Let_def split: prod.splits)
  show "cfg_TokenDisplay cfg \<in> {''both'', ''stderr'', ''localhost'', ''none''}"
    using assms displays by (auto simp: load_config_def Let_def split: prod.splits)
  show "in_int64 (db_MaxConns (cfg_DB cfg))"
    using assms ints [of "if fst (deploy_mode env) = DeployModeServerless then 4 else 20" "''DB_MAX_CONNS''"]
    by (auto simp: load_config_def Let_def in_int64_def split: prod.splits if_splits)
  show "is_ok (ValidateCookieBasePath (ac_CookiePath (cfg_Auth cfg)))"
    using assms by (auto simp: load_config_def Let_def split: prod.splits sum.splits)
  show "LocalIssuer (cfg_LocalAuth cfg) \<noteq> []"
    using assms by (auto simp: load_config_def Let_def getEnv_not_Nil split: prod.splits)
  show "loadJWTSigning L env = (JWTAlg (cfg_LocalAuth cfg), JWTSigningKey (cfg_LocalAuth cfg), JWTSigningKID (cfg_LocalAuth cfg), [])"
    "loadJWTVerifyPublicKeys L env = (JWTVerifyPublicKeys (cfg_LocalAuth cfg), [])"
    using assms by (auto simp: load_config_def Let_def split: prod.splits)
qed

lemma add_ed_keys_ok:
  assumes "\<forall>e \<in> set ks. ValidateKID (fst e) = Inr () \<and> length (snd e) = 32" "distinct (map fst ks)"
    "fst ` set ks \<inter> fst ` set (vc_edKeys c) = {}" "length ks + length (vc_edKeys c) \<le> 32"
  shows "add_ed_keys ks c = Inr (c\<lparr>vc_edKeys := rev ks @ vc_edKeys c\<rparr>)"
  using assms
proof (induction ks c rule: add_ed_keys.induct)
  case (2 kid k ks c)
  then show ?case by (auto simp: ed25519_PublicKeySize_def maxVerifyKeys_def)
qed simp

lemma length_map_put: "k \<in> fst ` set m \<Longrightarrow> length (map_put k v m) \<le> length m" "length (map_put k v m) \<le> Suc (length m)"
proof -
  show "length (map_put k v m) \<le> Suc (length m)" by (simp add: map_put_def)
  assume "k \<in> fst ` set m"
  then have "length (filter (\<lambda>e. fst e \<noteq> k) m) < length m" by (auto intro!: length_filter_less)
  then show "length (map_put k v m) \<le> length m" by (simp add: map_put_def)
qed

text \<open>The documented results of the library: the sizes of Ed25519 keys, and that HKDF delivers 32 bytes.\<close>

definition key_libs_ok :: "config_libs \<Rightarrow> crypto \<Rightarrow> bool" where
  "key_libs_ok L C \<longleftrightarrow> (\<forall>b k. ParsePKCS8PrivateKey L b = Some (Some k) \<longrightarrow> length k = 64) \<and>
     (\<forall>b k. ParsePKIXPublicKey L b = Some (Some k) \<longrightarrow> length k = 32) \<and>
     (\<forall>k. length k = 64 \<longrightarrow> length (ed_public C k) = 32) \<and>
     (\<forall>s l. \<exists>k. hkdf_key C s l 32 = Some k \<and> length k = 32)"

lemma key_libs_parse:
  assumes "key_libs_ok L C"
  shows "ParseEd25519PrivateKeyPEM L raw = Inr k \<Longrightarrow> length k = 64" "ParseEd25519PublicKeyPEM L raw = Inr k \<Longrightarrow> length k = 32"
  using assms
  by (auto simp: key_libs_ok_def ParseEd25519PrivateKeyPEM_def ParseEd25519PublicKeyPEM_def split: option.splits if_splits)

lemma NewVerifierWithOptions_ok:
  assumes "issuer \<noteq> []" "opts = [] \<and> keys \<noteq> [] \<or> (\<exists>s. opts = [Some (WithHS256Secret s)] \<and> s \<noteq> [])"
    "\<forall>e \<in> set keys. ValidateKID (fst e) = Inr () \<and> length (snd e) = 32" "distinct (map fst keys)" "length keys \<le> 32"
  shows "is_ok (NewVerifierWithOptions disc ([Some (WithLocalIssuer issuer)] @ opts @ (if keys \<noteq> [] then [Some (WithEd25519PublicKeys keys)] else [])))"
  using assms
  by (auto simp: NewVerifierWithOptions_def newVerifier_def Let_def WithLocalIssuer_def WithHS256Secret_def WithEd25519PublicKeys_def
      empty_verifierConfig_def add_ed_keys_ok)

lemma Load_InrE:
  assumes "Load L env flt rnd d = (Inr cfg, d')"
  obtains cfg0 s where "load_config L env = (cfg0, [])" "cfg = set_secret s cfg0" "validate cfg [] = []"
    "JWTAlg (cfg_LocalAuth cfg0) = JWTAlgEdDSA \<longrightarrow> s = [] \<or> TrimSpace s \<noteq> []"
proof -
  obtain cfg0 ps where l: "load_config L env = (cfg0, ps)" by fastforce
  obtain qs d1 where s: "load_secret flt rnd d (normalize_secret cfg0) = (cfg, qs, d1)" and v: "validate cfg (ps @ qs) = []"
    using assms by (auto simp: Load_def l Let_def split: prod.splits if_splits)
  have ps: "ps = []" "qs = []" using validate_Nil(1) [OF v] by simp_all
  have self: "cfg0 = set_secret (JWTSecret (cfg_LocalAuth cfg0)) cfg0" by (simp add: set_secret_def)
  have twice: "set_secret s (set_secret t c) = set_secret s c" for s t c by (simp add: set_secret_def)
  define ok where "ok = (\<lambda>c. \<exists>s. c = set_secret s cfg0 \<and> (JWTAlg (cfg_LocalAuth cfg0) = JWTAlgEdDSA \<longrightarrow> s = [] \<or> TrimSpace s \<noteq> []))"
  have norm: "ok (normalize_secret cfg0)"
    using self by (auto simp: ok_def normalize_secret_def)
  have alg: "JWTAlg (cfg_LocalAuth (normalize_secret cfg0)) = JWTAlg (cfg_LocalAuth cfg0)" by (simp add: normalize_secret_def)
  have sec: "ok (set_secret s (normalize_secret cfg0))" if "JWTAlg (cfg_LocalAuth cfg0) \<noteq> JWTAlgEdDSA" for s
    using that by (auto simp: ok_def normalize_secret_def twice)
  from s have "ok cfg"
    by (cases rule: load_secret_cases) (use norm sec alg ps(2) in auto)
  then have "\<exists>s. cfg = set_secret s cfg0 \<and> (JWTAlg (cfg_LocalAuth cfg0) = JWTAlgEdDSA \<longrightarrow> s = [] \<or> TrimSpace s \<noteq> [])"
    by (simp add: ok_def)
  with that l v ps show thesis by auto
qed

lemma Load_local_auth_wf:
  assumes "Load L env flt rnd d = (Inr cfg, d')"
  shows "local_auth_wf L (cfg_LocalAuth cfg)"
proof -
  obtain cfg0 s where c: "load_config L env = (cfg0, [])" "cfg = set_secret s cfg0" "validate cfg [] = []"
    "JWTAlg (cfg_LocalAuth cfg0) = JWTAlgEdDSA \<longrightarrow> s = [] \<or> TrimSpace s \<noteq> []"
    by (rule Load_InrE [OF assms])
  then show ?thesis
    using validate_Nil(3) [OF c(3)] load_config_ok(5) [OF c(1)]
      loadJWTSigning_ok [OF load_config_ok(6) [OF c(1)]] loadJWTVerifyPublicKeys_ok [OF load_config_ok(7) [OF c(1)]]
    by (auto simp: local_auth_wf_def JWTAlgHS256_def JWTAlgEdDSA_def)
qed

text \<open>The verifier has room for the signing key, and no other key has its kid.\<close>

definition kid_fits :: "crypto \<Rightarrow> LocalAuthConfig \<Rightarrow> bool" where
  "kid_fits C lc \<longleftrightarrow> (JWTAlg lc = ''EdDSA'' \<longrightarrow>
     map_of (JWTVerifyPublicKeys lc) (JWTSigningKID lc) = None \<and> length (JWTVerifyPublicKeys lc) < 32 \<or>
     map_of (JWTVerifyPublicKeys lc) (JWTSigningKID lc) = Some (ed_public C (JWTSigningKey lc)))"

lemma add_ed_keys_bound: "add_ed_keys ks c = Inr c' \<Longrightarrow> ks \<noteq> [] \<Longrightarrow> length ks + length (vc_edKeys c) \<le> 32"
proof (induction ks c rule: add_ed_keys.induct)
  case (2 kid k ks c)
  then show ?case by (cases ks) (auto simp: maxVerifyKeys_def split: sum.splits if_splits)
qed simp

lemma NewLocalVerifier_fits:
  assumes wf: "local_auth_wf L lc" and ok: "is_ok (NewLocalVerifier C disc lc)"
  shows "kid_fits C lc"
proof (cases "JWTAlg lc = ''EdDSA'' \<and> map_of (JWTVerifyPublicKeys lc) (JWTSigningKID lc) = None")
  case True
  then have none: "filter (\<lambda>e. fst e \<noteq> JWTSigningKID lc) (JWTVerifyPublicKeys lc) = JWTVerifyPublicKeys lc"
    by (force simp: filter_id_conv map_of_eq_None_iff)
  have "length (JWTVerifyPublicKeys lc) < 32"
    using ok True
    by (auto simp: NewLocalVerifier_def JWTAlgEdDSA_def JWTAlgHS256_def Let_def map_put_def none NewVerifierWithOptions_def WithLocalIssuer_def
        WithEd25519PublicKeys_def empty_verifierConfig_def is_ok_def simp del: add_ed_keys.simps
        split: if_splits sum.splits dest!: add_ed_keys_bound)
  then show ?thesis using True by (simp add: kid_fits_def)
next
  case False
  then show ?thesis
    using ok by (auto simp: NewLocalVerifier_def JWTAlgEdDSA_def JWTAlgHS256_def Let_def kid_fits_def is_ok_def split: if_splits)
qed

lemma local_auth_starts:
  assumes wf: "local_auth_wf L lc" and libs: "key_libs_ok L C"
  shows "is_ok (NewSigner lc)" "is_ok (resolveKey C lc label)" "kid_fits C lc \<Longrightarrow> is_ok (NewLocalVerifier C disc lc)"
proof -
  have blank: "TrimSpace (JWTSecret lc) \<noteq> [] \<Longrightarrow> JWTSecret lc \<noteq> []" by (auto simp: TrimSpace_eq_Nil_iff)
  have key: "JWTAlg lc = ''EdDSA'' \<Longrightarrow> length (JWTSigningKey lc) = 64"
    using wf key_libs_parse(1) [OF libs] by (auto simp: local_auth_wf_def)
  show "is_ok (NewSigner lc)"
    using wf key blank by (auto simp: local_auth_wf_def NewSigner_def NewHS256Signer_def NewEdDSASigner_def JWTAlgHS256_def JWTAlgEdDSA_def ed25519_PrivateKeySize_def)
  obtain k where "hkdf_key C (ed_seed C (JWTSigningKey lc)) label 32 = Some k" "length k = 32"
    using libs unfolding key_libs_ok_def by blast
  then show "is_ok (resolveKey C lc label)"
    using wf key by (auto simp: local_auth_wf_def resolveKey_def deriveKey_def JWTAlgEdDSA_def ed25519_PrivateKeySize_def derivedKeyLen_def)
  have keys: "\<forall>e \<in> set (JWTVerifyPublicKeys lc). ValidateKID (fst e) = Inr () \<and> length (snd e) = 32"
    using wf key_libs_parse(2) [OF libs] by (auto simp: local_auth_wf_def verify_key_ok_def)
  assume fits: "kid_fits C lc"
  show "is_ok (NewLocalVerifier C disc lc)"
  proof (cases "JWTAlg lc = ''EdDSA''")
    case False
    then have "JWTAlg lc = ''HS256''" "JWTSecret lc \<noteq> []" using wf blank by (auto simp: local_auth_wf_def)
    moreover have "is_ok (NewVerifierWithOptions disc ([Some (WithLocalIssuer (LocalIssuer lc))] @ [Some (WithHS256Secret (JWTSecret lc))] @
        (if JWTVerifyPublicKeys lc \<noteq> [] then [Some (WithEd25519PublicKeys (JWTVerifyPublicKeys lc))] else [])))"
      using wf keys calculation(2) by (intro NewVerifierWithOptions_ok) (auto simp: local_auth_wf_def)
    ultimately show ?thesis by (simp add: NewLocalVerifier_def JWTAlgHS256_def Let_def)
  next
    case True
    let ?keys = "map_put (JWTSigningKID lc) (ed_public C (JWTSigningKey lc)) (JWTVerifyPublicKeys lc)"
    have pub: "length (ed_public C (JWTSigningKey lc)) = 32" using key [OF True] libs by (simp add: key_libs_ok_def)
    have "length ?keys \<le> 32"
    proof (cases "map_of (JWTVerifyPublicKeys lc) (JWTSigningKID lc)")
      case None
      then show ?thesis using fits True length_map_put(2) [of "JWTSigningKID lc" "ed_public C (JWTSigningKey lc)" "JWTVerifyPublicKeys lc"]
        by (simp add: kid_fits_def)
    next
      case (Some k)
      then have "JWTSigningKID lc \<in> fst ` set (JWTVerifyPublicKeys lc)" by (metis map_of_eq_None_iff option.distinct(1))
      from length_map_put(1) [OF this] wf show ?thesis by (meson le_trans local_auth_wf_def)
    qed
    moreover have "\<forall>e \<in> set ?keys. ValidateKID (fst e) = Inr () \<and> length (snd e) = 32"
      using keys pub wf by (auto simp: map_put_def local_auth_wf_def)
    moreover have "distinct (map fst ?keys)" using wf by (simp add: distinct_map_put local_auth_wf_def)
    ultimately have "is_ok (NewVerifierWithOptions disc ([Some (WithLocalIssuer (LocalIssuer lc))] @ [] @
        (if ?keys \<noteq> [] then [Some (WithEd25519PublicKeys ?keys)] else [])))"
      using wf by (intro NewVerifierWithOptions_ok) (auto simp: local_auth_wf_def map_put_def)
    moreover have "map_of (JWTVerifyPublicKeys lc) (JWTSigningKID lc) \<in> {None, Some (ed_public C (JWTSigningKey lc))}"
      using fits True by (auto simp: kid_fits_def)
    ultimately show ?thesis
      using True key [OF True] by (simp add: NewLocalVerifier_def JWTAlgHS256_def JWTAlgEdDSA_def Let_def ed25519_PrivateKeySize_def)
  qed
qed

section \<open>Properties\<close>

text \<open>
  C29. Processes that boot at the same time, whatever the interleaving of their queries and whichever of
  them fail, all end with the same JWT secret: two boots that get one get the row of the database,
  of at least 64 characters; a secret that was there before is never replaced.
\<close>

theorem jwt_secret_agreement:
  assumes "boots_step\<^sup>*\<^sup>* (d, \<lambda>_. BootGet) (d', pcs)" "pcs i = BootDone (Inr s)" "pcs j = BootDone (Inr t)"
  shows "s = t \<and> jwt_secret d' = Some s \<and> 64 \<le> length s \<and> (\<forall>old. jwt_secret d = Some old \<longrightarrow> s = old)"
proof -
  have inv: "boots_inv (jwt_secret d) (d', pcs)"
    by (rule boots.reachable_inv [OF _ assms(1)]) simp
  then have "pc_ok d' (pcs i)" "pc_ok d' (pcs j)" by (simp_all add: boots_inv_def)
  then show ?thesis using assms(2,3) inv by (auto simp: boots_inv_def)
qed

text \<open>
  C30. Every configuration that loads is well formed: a known deployment mode and token display, a
  database address, a non-blank secret under HS256 and a parsed signing key under EdDSA (with no
  blank secret), a valid kid and at most 32 distinct, parsed verification keys, the two redirect
  addresses when a provider is enabled, no wildcard origin outside the local mode, and a complete
  mail configuration when a mail host is named.
\<close>

theorem Load_wf:
  assumes "Load L env flt rnd d = (Inr cfg, d')"
  shows "config_wf L cfg"
proof -
  obtain cfg0 s where c: "load_config L env = (cfg0, [])" "cfg = set_secret s cfg0" "validate cfg [] = []"
    by (rule Load_InrE [OF assms])
  then show ?thesis
    using validate_Nil(2,4-6) [OF c(3)] load_config_ok(1-4) [OF c(1)] Load_local_auth_wf [OF assms] by (simp add: config_wf_def)
qed

text \<open>
  A configuration that loads starts the token components: the signer, the keys of the state
  signer and of the step-up tokens exist. The verifier can be built exactly when, under EdDSA, no
  other verification key has the kid of the signing key and fewer than 32 verification keys are
  configured besides it; a configuration with 32 keys passes \<open>Load\<close> and then fails here.
\<close>

theorem Load_starts:
  assumes "Load L env flt rnd d = (Inr cfg, d')" "key_libs_ok L C"
  shows "is_ok (NewSigner (cfg_LocalAuth cfg)) \<and> is_ok (OAuthStateKey C (cfg_LocalAuth cfg)) \<and> is_ok (StepUpKey C (cfg_LocalAuth cfg)) \<and>
    (is_ok (NewLocalVerifier C disc (cfg_LocalAuth cfg)) \<longleftrightarrow> kid_fits C (cfg_LocalAuth cfg))"
proof -
  note wf = Load_local_auth_wf [OF assms(1)]
  show ?thesis
    using local_auth_starts [OF wf assms(2)] NewLocalVerifier_fits [OF wf] by (auto simp: OAuthStateKey_def StepUpKey_def)
qed

section \<open>Examples\<close>

definition demo_env :: environ where
  "demo_env = [(''DB_URL'', ''d''), (''JWT_SECRET'', ''s''), (''DEPLOY_MODE'', ''k8s''), (''DB_MAX_CONNS'', ''8'')]"

definition demo_libs :: config_libs where
  "demo_libs = \<lparr>ParseDuration = \<lambda>_. None, pem_Decode = \<lambda>_. None, ParsePKCS8PrivateKey = \<lambda>_. None, ParsePKIXPublicKey = \<lambda>_. None\<rparr>"

lemma demo_load: "\<exists>cfg d'. Load demo_libs demo_env (\<lambda>_. False) None (empty_db ()) = (Inr cfg, d')"
proof -
  have "is_ok (fst (Load demo_libs demo_env (\<lambda>_. False) None (empty_db ())))" by code_simp
  then show ?thesis by (cases "Load demo_libs demo_env (\<lambda>_. False) None (empty_db ())") (auto simp: is_ok_def split: sum.splits)
qed

theorem Load_wf_witness:
  "\<exists>cfg d'. Load demo_libs demo_env (\<lambda>_. False) None (empty_db ()) = (Inr cfg, d') \<and> config_wf demo_libs cfg"
  using demo_load Load_wf by blast

theorem Load_starts_witness:
  "\<exists>cfg d'. Load demo_libs demo_env (\<lambda>_. False) None (empty_db ()) = (Inr cfg, d') \<and> is_ok (NewSigner (cfg_LocalAuth cfg))"
proof -
  let ?C = "demo_crypto\<lparr>hkdf_key := \<lambda>_ _ n. Some (replicate n (CHR ''k''))\<rparr>"
  have "key_libs_ok demo_libs ?C" by (simp add: key_libs_ok_def demo_libs_def demo_crypto_def)
  then show ?thesis using demo_load Load_starts [of demo_libs demo_env "\<lambda>_. False" None "empty_db ()" _ _ ?C] by blast
qed

theorem jwt_secret_agreement_witness:
  "\<exists>(d :: unit db) pcs s. boots_step\<^sup>*\<^sup>* (empty_db (), \<lambda>_. BootGet) (d, pcs) \<and> pcs 0 = BootDone (Inr s) \<and> pcs 1 = BootDone (Inr s)"
proof -
  let ?a = "replicate 32 (CHR ''a'')" and ?b = "replicate 32 (CHR ''b'')"
  let ?d = "(empty_db () :: unit db)\<lparr>jwt_secret := Some (hex_encode ?a)\<rparr>"
  let ?p0 = "\<lambda>_ :: nat. BootGet"
  let ?p1 = "?p0(0 := BootInsert (hex_encode ?a))"
  let ?p2 = "?p1(1 := BootInsert (hex_encode ?b))"
  let ?p3 = "?p2(0 := BootDone (Inr (hex_encode ?a)))"
  let ?p4 = "?p3(1 := BootRefetch)"
  let ?p5 = "?p4(1 := BootDone (Inr (hex_encode ?a)))"
  note simps = boot_step_def GetJWTSecret_def InsertJWTSecretIfAbsent_def at_def length_hex_encode jwtSecretByteLen_def
  have "boots_step (empty_db (), ?p0) (empty_db (), ?p1)"
    by (rule boots_step.query [of "\<lambda>_. False" "Some ?a"]) (simp_all add: simps)
  moreover have "boots_step (empty_db (), ?p1) (empty_db (), ?p2)"
    by (rule boots_step.query [of "\<lambda>_. False" "Some ?b"]) (simp_all add: simps)
  moreover have "boots_step (empty_db (), ?p2) (?d, ?p3)"
    by (rule boots_step.query [of "\<lambda>_. False" None]) (simp_all add: simps)
  moreover have "boots_step (?d, ?p3) (?d, ?p4)"
    by (rule boots_step.query [of "\<lambda>_. False" None]) (simp_all add: simps)
  moreover have "boots_step (?d, ?p4) (?d, ?p5)"
    by (rule boots_step.query [of "\<lambda>_. False" None]) (simp_all add: simps)
  ultimately have run: "boots_step\<^sup>*\<^sup>* (empty_db (), ?p0) (?d, ?p5)"
    by (meson converse_rtranclp_into_rtranclp rtranclp.rtrancl_refl)
  have fin: "?p5 0 = BootDone (Inr (hex_encode ?a))" "?p5 1 = BootDone (Inr (hex_encode ?a))" by simp_all
  from jwt_secret_agreement [OF run fin] run fin show ?thesis by blast
qed

end
