(* ===== verification/Onboarding.thy ===== *)
theory Onboarding
  imports OAuth
begin

text \<open>
  OIDC onboarding: the handlers of \<open>handlers/oidc_config.go\<close> with the queries of
  \<open>model/db/oidc_config.sql.go\<close> and \<open>model/db/oidc_providers.sql.go\<close>, and
  \<open>handlers/onboarding_boot.go\<close>.

  One state record holds the two tables, the provider registry of the OAuth component and what the
  handler keeps in memory (the cached row and boot verdict, the plaintext of the setup token). The
  writes of a request are separate statements without a transaction, so an error keeps those that
  came before it. \<open>sha256\<close>, the OIDC library and the parsing of network addresses are parameters.
  Go ranges over a map in any order; the model takes the order of the registry.
\<close>

section \<open>Tables\<close>

record OidcConfig =
  cf_OptOut :: bool
  cf_SetupTokenHash :: "string option"
  cf_SetupTokenCreatedAt :: "instant option"
  cf_SavedAt :: instant

definition slug_char :: "char \<Rightarrow> bool" where
  "slug_char c \<longleftrightarrow> is_ascii_lower c \<or> is_ascii_digit c"

text \<open>\<open>^[a-z][a-z0-9-]{0,30}[a-z0-9]$\<close>, in the handler and as a check of the table.\<close>

definition providerIDPattern :: "string \<Rightarrow> bool" where
  "providerIDPattern s \<longleftrightarrow> 2 \<le> length s \<and> length s \<le> 32 \<and> is_ascii_lower (hd s) \<and> slug_char (last s) \<and>
     list_all (\<lambda>c. slug_char c \<or> c = CHR ''-'') s"

record onb_state =
  on_row :: OidcConfig
  on_providers :: "OidcProvider list"
  on_oauth :: OAuth
  on_cachedDB :: "OidcConfig option"
  on_cachedBoot :: "BootStateResult option"
  on_plain :: string

definition GetOIDCConfig :: "onb_state \<Rightarrow> OidcConfig query" where
  "GetOIDCConfig st = Inr (on_row st)"

definition UpdateOIDCConfig :: "instant \<Rightarrow> bool \<Rightarrow> onb_state \<Rightarrow> onb_state" where
  "UpdateOIDCConfig now optOut st = st\<lparr>on_row := (on_row st)\<lparr>cf_OptOut := optOut, cf_SavedAt := now\<rparr>\<rparr>"

definition SetSetupTokenHash :: "instant \<Rightarrow> string \<Rightarrow> onb_state \<Rightarrow> onb_state" where
  "SetSetupTokenHash now hash st =
     st\<lparr>on_row := (on_row st)\<lparr>cf_SetupTokenHash := Some hash, cf_SetupTokenCreatedAt := Some now\<rparr>\<rparr>"

definition ClearSetupTokenHash :: "onb_state \<Rightarrow> onb_state" where
  "ClearSetupTokenHash st =
     st\<lparr>on_row := (on_row st)\<lparr>cf_SetupTokenHash := None, cf_SetupTokenCreatedAt := None\<rparr>\<rparr>"

definition GetOIDCProvider :: "onb_state \<Rightarrow> string \<Rightarrow> OidcProvider query" where
  "GetOIDCProvider st pid = one (find (\<lambda>r. op_ID r = pid) (on_providers st))"

definition ListOIDCProviders :: "onb_state \<Rightarrow> OidcProvider list query" where
  "ListOIDCProviders st = Inr (sort_key op_ID (on_providers st))"

text \<open>The two upserts: an existing row is replaced in place.\<close>

definition put_provider :: "(OidcProvider \<Rightarrow> OidcProvider) \<Rightarrow> OidcProvider \<Rightarrow> OidcProvider list \<Rightarrow> OidcProvider list" where
  "put_provider upd fresh rows =
     (if \<exists>r \<in> set rows. op_ID r = op_ID fresh then map (\<lambda>r. if op_ID r = op_ID fresh then upd r else r) rows else rows @ [fresh])"

definition SetOIDCProviderEnabled :: "string \<Rightarrow> bool \<Rightarrow> onb_state \<Rightarrow> onb_state query" where
  "SetOIDCProviderEnabled pid enabled st =
     (if \<not> providerIDPattern pid then Inl (CheckViolation ''oidc_providers_id_check'')
      else Inr (st\<lparr>on_providers := put_provider (\<lambda>r. r\<lparr>op_Enabled := enabled\<rparr>)
        \<lparr>op_ID = pid, op_DisplayName = None, op_IssuerUrl = None, op_ClientID = None, op_ClientSecret = None,
         op_ClaimStyle = None, op_Scopes = None, op_Enabled = enabled\<rparr> (on_providers st)\<rparr>))"

definition UpsertOIDCProvider :: "OidcProvider \<Rightarrow> onb_state \<Rightarrow> onb_state query" where
  "UpsertOIDCProvider p st =
     (if \<not> providerIDPattern (op_ID p) then Inl (CheckViolation ''oidc_providers_id_check'')
      else Inr (st\<lparr>on_providers := put_provider (\<lambda>_. p) p (on_providers st)\<rparr>))"

definition DeleteOIDCProvider :: "string \<Rightarrow> onb_state \<Rightarrow> onb_state" where
  "DeleteOIDCProvider pid st = st\<lparr>on_providers := filter (\<lambda>r. op_ID r \<noteq> pid) (on_providers st)\<rparr>"

section \<open>The handler\<close>

record OIDCConfigDeps =
  od_libs :: libs
  od_sha256 :: "string \<Rightarrow> string"
  od_EnvRegistry :: ProviderRegistry
  od_EnvNoOIDCEnv :: bool

definition load_merged :: "OIDCConfigDeps \<Rightarrow> faults \<Rightarrow> nat \<Rightarrow> onb_state \<Rightarrow> (string \<times> MergedProvider) list query" where
  "load_merged D flt k st = LoadMergedProviders (od_EnvRegistry D) (at flt k (ListOIDCProviders st))"

definition view_enabled :: "(string \<times> MergedProvider) list \<Rightarrow> string \<Rightarrow> bool" where
  "view_enabled merged pid = (case map_of merged pid of Some m \<Rightarrow> MergedEnabled m | None \<Rightarrow> True)"

definition state_of :: "OAuth \<Rightarrow> string \<Rightarrow> ProviderState option" where
  "state_of oa pid = find (\<lambda>s. ps_ID s = pid) (rev (AllProviders oa))"

definition buildProviderViews :: "OIDCConfigDeps \<Rightarrow> OAuth \<Rightarrow> (string \<times> MergedProvider) list \<Rightarrow> ProviderInitView list" where
  "buildProviderViews D oa merged =
     map (\<lambda>pid. ProviderInitView.make pid True (view_enabled merged pid) (case state_of oa pid of Some s \<Rightarrow> OAuth.InitOK s | None \<Rightarrow> False))
       (map fst (od_EnvRegistry D))"

text \<open>\<open>RefreshState\<close>: an error keeps the cache. Sites \<open>k\<close> and \<open>k + 1\<close>.\<close>

definition RefreshState :: "OIDCConfigDeps \<Rightarrow> faults \<Rightarrow> nat \<Rightarrow> onb_state \<Rightarrow> onb_state query" where
  "RefreshState D flt k st =
     (case at flt k (GetOIDCConfig st) of
        Inl e \<Rightarrow> Inl e
      | Inr row \<Rightarrow>
          (case load_merged D flt (k + 1) st of
             Inl e \<Rightarrow> Inl e
           | Inr merged \<Rightarrow>
               Inr (st\<lparr>on_cachedDB := Some row,
                       on_cachedBoot := Some (DetermineBootState (buildProviderViews D (on_oauth st) merged) (cf_OptOut row) (od_EnvNoOIDCEnv D))\<rparr>)))"

datatype onb_error = OnbDb db_error | OnbOAuth oauth_error | OnbRand | OnbAdmin

definition rebuild :: "OIDCConfigDeps \<Rightarrow> faults \<Rightarrow> nat \<Rightarrow> onb_state \<Rightarrow> (onb_error, onb_state) result" where
  "rebuild D flt k st =
     (case load_merged D flt k st of
        Inl e \<Rightarrow> Inl (OnbDb e)
      | Inr merged \<Rightarrow>
          (case Rebuild (od_libs D) (MergedRegistry merged) (on_oauth st) of
             Inl e \<Rightarrow> Inl (OnbOAuth e)
           | Inr oa \<Rightarrow> Inr (st\<lparr>on_oauth := oa\<rparr>)))"

text \<open>Rebuild and refresh; a failed refresh keeps the rebuilt registry. Sites \<open>k\<close> to \<open>k + 2\<close>.\<close>

definition ApplyDBOverridesToOAuth :: "OIDCConfigDeps \<Rightarrow> faults \<Rightarrow> nat \<Rightarrow> onb_state \<Rightarrow> onb_error option \<times> onb_state" where
  "ApplyDBOverridesToOAuth D flt k st =
     (case rebuild D flt k st of
        Inl e \<Rightarrow> (Some e, st)
      | Inr st1 \<Rightarrow>
          (case RefreshState D flt (k + 1) st1 of
             Inl e \<Rightarrow> (Some (OnbDb e), st1)
           | Inr st2 \<Rightarrow> (None, st2)))"

text \<open>\<open>CurrentState\<close> as the middleware uses it: before the first refresh nothing is confirmed.\<close>

definition current_confirmed :: "onb_state \<Rightarrow> bool" where
  "current_confirmed st = (case on_cachedBoot st of None \<Rightarrow> False | Some b \<Rightarrow> Confirmed (State b))"

definition MarkExternallyManaged :: "onb_state \<Rightarrow> onb_state" where
  "MarkExternallyManaged st = st\<lparr>on_cachedBoot := Some \<lparr>State = BootStateConfirmedOptOut, EnabledIDs = []\<rparr>\<rparr>"

subsection \<open>Status and saved choices\<close>

record statusProvider =
  sp_ID :: string
  sp_DisplayName :: string
  sp_Enabled :: bool
  sp_InitOK :: bool
  sp_Error :: "oauth_error option"
  sp_CallbackURL :: string

record statusResponse =
  sr_State :: "BootState option"
  sr_Confirmed :: bool
  sr_Providers :: "statusProvider list"
  sr_NoOIDCAccountsEnv :: bool
  sr_NeedsSetupToken :: bool
  sr_SavedAt :: "instant option"

datatype onb_response =
    OnbFault onb_error
  | OnbBadBody
  | OnbUnknownField string
  | OnbUnauthenticated
  | OnbForbidden
  | OnbNotFound
  | OnbToken string
  | OnbStatus statusResponse
  | OnbSaved "(string \<times> bool) list" bool "instant option"

definition RedirectBase :: "OAuth \<Rightarrow> string" where
  "RedirectBase oa = (case oa_cfg oa of Some ac \<Rightarrow> ac_OAuthRedirectBaseURL ac | None \<Rightarrow> [])"

definition buildStatusProviders :: "OIDCConfigDeps \<Rightarrow> OAuth \<Rightarrow> (string \<times> MergedProvider) list \<Rightarrow> statusProvider list" where
  "buildStatusProviders D oa merged =
     map (\<lambda>pid.
       \<lparr>sp_ID = pid,
        sp_DisplayName = (case map_of (od_EnvRegistry D) pid of Some p \<Rightarrow> pr_DisplayName p | None \<Rightarrow> []),
        sp_Enabled = view_enabled merged pid,
        sp_InitOK = (case state_of oa pid of Some s \<Rightarrow> OAuth.InitOK s | None \<Rightarrow> False),
        sp_Error = (case state_of oa pid of Some s \<Rightarrow> (case ps_Init s of Inl e \<Rightarrow> Some e | Inr _ \<Rightarrow> None) | None \<Rightarrow> None),
        sp_CallbackURL = (if RedirectBase oa \<noteq> [] then buildCallbackURL (RedirectBase oa) pid else [])\<rparr>)
     (IDs (od_EnvRegistry D))"

definition cached_hash :: "onb_state \<Rightarrow> string option" where
  "cached_hash st = (case on_cachedDB st of None \<Rightarrow> None | Some row \<Rightarrow> cf_SetupTokenHash row)"

definition OIDCConfigHandler_Status :: "OIDCConfigDeps \<Rightarrow> faults \<Rightarrow> nat \<Rightarrow> onb_state \<Rightarrow> onb_response" where
  "OIDCConfigHandler_Status D flt k st =
     (case load_merged D flt k st of
        Inl e \<Rightarrow> OnbFault (OnbDb e)
      | Inr merged \<Rightarrow>
          OnbStatus \<lparr>sr_State = map_option State (on_cachedBoot st), sr_Confirmed = current_confirmed st,
            sr_Providers = buildStatusProviders D (on_oauth st) merged, sr_NoOIDCAccountsEnv = od_EnvNoOIDCEnv D,
            sr_NeedsSetupToken = (cached_hash st \<noteq> None \<and> \<not> current_confirmed st),
            sr_SavedAt = map_option cf_SavedAt (on_cachedDB st)\<rparr>)"

definition Saved :: "OIDCConfigDeps \<Rightarrow> faults \<Rightarrow> nat \<Rightarrow> onb_state \<Rightarrow> onb_response" where
  "Saved D flt k st =
     (case load_merged D flt k st of
        Inl e \<Rightarrow> OnbFault (OnbDb e)
      | Inr merged \<Rightarrow>
          OnbSaved (map (\<lambda>(pid, m). (pid, MergedEnabled m)) merged)
            (case on_cachedDB st of Some row \<Rightarrow> cf_OptOut row | None \<Rightarrow> False) (map_option cf_SavedAt (on_cachedDB st)))"

subsection \<open>Credentials\<close>

definition verifySetupToken :: "OIDCConfigDeps \<Rightarrow> onb_state \<Rightarrow> string \<Rightarrow> bool" where
  "verifySetupToken D st token =
     (if token = [] then False
      else (case cached_hash st of None \<Rightarrow> False | Some hash \<Rightarrow> VerifySetupToken (od_sha256 D) token hash))"

text \<open>The admin check is \<open>None\<close> when none is wired, \<open>Some None\<close> when it fails.\<close>

definition authorizeAmbient :: "OIDCConfigDeps \<Rightarrow> onb_state \<Rightarrow> bool option option \<Rightarrow> string \<Rightarrow> bool option" where
  "authorizeAmbient D st admin header =
     (case admin of
        Some None \<Rightarrow> None
      | Some (Some True) \<Rightarrow> Some True
      | _ \<Rightarrow> Some (verifySetupToken D st header))"

definition authorizeBodyless :: "OIDCConfigDeps \<Rightarrow> onb_state \<Rightarrow> bool option option \<Rightarrow> string \<Rightarrow> (onb_response, unit) result" where
  "authorizeBodyless D st admin header =
     (case authorizeAmbient D st admin header of
        None \<Rightarrow> Inl (OnbFault OnbAdmin)
      | Some ok \<Rightarrow> if ok then Inr () else Inl OnbUnauthenticated)"

text \<open>\<open>body\<close> is what decoding gives: the answer that refuses it, or the request.\<close>

definition authenticateWithBody ::
  "OIDCConfigDeps \<Rightarrow> onb_state \<Rightarrow> bool option option \<Rightarrow> string \<Rightarrow> (onb_response, 'r) result \<Rightarrow> ('r \<Rightarrow> string) \<Rightarrow> (onb_response, 'r) result" where
  "authenticateWithBody D st admin header body bodyToken =
     (case authorizeAmbient D st admin header of
        None \<Rightarrow> Inl (OnbFault OnbAdmin)
      | Some ambient \<Rightarrow>
          (case body of
             Inl resp \<Rightarrow> Inl resp
           | Inr req \<Rightarrow>
               if \<not> ambient \<and> \<not> verifySetupToken D st (bodyToken req) then Inl OnbUnauthenticated else Inr req))"

subsection \<open>Confirm\<close>

record confirmRequest =
  cr_SetupToken :: string
  cr_EnabledProviders :: "string list"
  cr_OptOut :: bool

text \<open>The set is a map over the whole registry, with \<open>False\<close> for what was not asked for.\<close>

definition normalizeEnabledSet :: "ProviderRegistry \<Rightarrow> string list \<Rightarrow> (string \<times> bool) list" where
  "normalizeEnabledSet registry enabled =
     map (\<lambda>pid. (pid, pid \<in> set (map (\<lambda>e. ToLower (TrimSpace e)) enabled))) (map fst registry)"

text \<open>The loop over the registry; site \<open>k\<close> for the first statement.\<close>

fun set_enabled :: "faults \<Rightarrow> nat \<Rightarrow> (string \<times> bool) list \<Rightarrow> onb_state \<Rightarrow> onb_error option \<times> onb_state" where
  "set_enabled flt k [] st = (None, st)"
| "set_enabled flt k ((pid, en) # ws) st =
     (case at flt k (SetOIDCProviderEnabled pid en st) of
        Inl e \<Rightarrow> (Some (OnbDb e), st)
      | Inr st' \<Rightarrow> set_enabled flt (Suc k) ws st')"

text \<open>
  What follows a confirmed verdict: the token is cleared, and failures are only logged.
  Sites: 4 clear, 5 and 6 refresh.
\<close>

definition clear_token :: "OIDCConfigDeps \<Rightarrow> faults \<Rightarrow> onb_state \<Rightarrow> onb_state" where
  "clear_token D flt st =
     (let st1 = (if flt 4 then st else ClearSetupTokenHash st)\<lparr>on_plain := []\<rparr>
      in case RefreshState D flt 5 st1 of Inl _ \<Rightarrow> st1 | Inr st2 \<Rightarrow> st2)"

text \<open>Sites: 0 config row, 1 rebuild, 2 and 3 refresh, 7 status, from 8 on the loop.\<close>

definition Confirm ::
  "OIDCConfigDeps \<Rightarrow> faults \<Rightarrow> instant \<Rightarrow> onb_state \<Rightarrow> bool option option \<Rightarrow> string \<Rightarrow> confirmRequest option \<Rightarrow> onb_response \<times> onb_state" where
  "Confirm D flt now st admin header body =
     (case authenticateWithBody D st admin header (case body of None \<Rightarrow> Inl OnbBadBody | Some req \<Rightarrow> Inr req) cr_SetupToken of
        Inl resp \<Rightarrow> (resp, st)
      | Inr req \<Rightarrow>
          (let wanted = normalizeEnabledSet (od_EnvRegistry D) (cr_EnabledProviders req);
               optOut = (cr_OptOut req \<or> length wanted = 0)
           in case set_enabled flt 8 wanted st of
                (Some e, st1) \<Rightarrow> (OnbFault e, st1)
              | (None, st1) \<Rightarrow>
                  if flt 0 then (OnbFault (OnbDb DbFault), st1)
                  else
                    (case ApplyDBOverridesToOAuth D flt 1 (UpdateOIDCConfig now optOut st1) of
                       (Some e, st2) \<Rightarrow> (OnbFault e, st2)
                     | (None, st2) \<Rightarrow>
                         (let st3 = (if current_confirmed st2 then clear_token D flt st2 else st2)
                          in (OIDCConfigHandler_Status D flt 7 st3, st3)))))"

subsection \<open>The setup token\<close>

definition SetupToken :: "(string \<Rightarrow> bool) \<Rightarrow> string \<Rightarrow> onb_state \<Rightarrow> onb_response" where
  "SetupToken isLoopbackAddr addr st =
     (if \<not> isLoopbackAddr addr then OnbForbidden
      else if current_confirmed st then OnbNotFound
      else if on_plain st = [] then OnbNotFound
      else OnbToken (on_plain st))"

text \<open>\<open>net.SplitHostPort\<close> and the loopback test of \<open>net.ParseIP\<close> are parameters.\<close>

definition isLoopbackAddr :: "(string \<Rightarrow> string option) \<Rightarrow> (string \<Rightarrow> bool) \<Rightarrow> string \<Rightarrow> bool" where
  "isLoopbackAddr split_host ip_loopback addr =
     (let host = (case split_host addr of Some h \<Rightarrow> h | None \<Rightarrow> addr);
          host' = TrimPrefix (TrimSuffix host '']'') ''[''
      in host' = ''localhost'' \<or> ip_loopback host')"

text \<open>Sites: 0 clear, 1 set, 2 and 3 refresh. \<open>rnd\<close> is the random source.\<close>

definition mint_token :: "OIDCConfigDeps \<Rightarrow> faults \<Rightarrow> instant \<Rightarrow> string \<Rightarrow> onb_state \<Rightarrow> (onb_error, string) result \<times> onb_state" where
  "mint_token D flt now rnd st =
     (case generateSetupTokenFrom (od_sha256 D) rnd of
        Inl _ \<Rightarrow> (Inl OnbRand, st)
      | Inr (plain, digest) \<Rightarrow>
          if flt 1 then (Inl (OnbDb DbFault), st)
          else
            (let st1 = (SetSetupTokenHash now digest st)\<lparr>on_plain := plain\<rparr>
             in case RefreshState D flt 2 st1 of
                  Inl e \<Rightarrow> (Inl (OnbDb e), st1)
                | Inr st2 \<Rightarrow> (Inr plain, st2)))"

definition EnsureSetupToken ::
  "OIDCConfigDeps \<Rightarrow> faults \<Rightarrow> instant \<Rightarrow> string \<Rightarrow> onb_state \<Rightarrow> (onb_error, string) result \<times> onb_state" where
  "EnsureSetupToken D flt now rnd st =
     (if current_confirmed st then
        (if cached_hash st \<noteq> None then
           (if flt 0 then (Inl (OnbDb DbFault), st)
            else
              (case RefreshState D flt 2 (ClearSetupTokenHash st) of
                 Inl e \<Rightarrow> (Inl (OnbDb e), ClearSetupTokenHash st)
               | Inr st' \<Rightarrow> (Inr [], st')))
         else (Inr [], st))
      else if cached_hash st \<noteq> None \<and> on_plain st \<noteq> [] then (Inr [], st)
      else if cached_hash st \<noteq> None then
        (if flt 0 then (Inl (OnbDb DbFault), st) else mint_token D flt now rnd (ClearSetupTokenHash st))
      else mint_token D flt now rnd st)"

datatype boot_result = BootOk | BootNotConfirmed | BootFailed onb_error | BootBanner string | BootLogLine

definition EnsureSetupTokenAndPrint ::
  "OIDCConfigDeps \<Rightarrow> faults \<Rightarrow> instant \<Rightarrow> string \<Rightarrow> string \<Rightarrow> onb_state \<Rightarrow> boot_result \<times> onb_state" where
  "EnsureSetupTokenAndPrint D flt now rnd tokenDisplay st =
     (if tokenDisplay = ''none'' then (if current_confirmed st then BootOk else BootNotConfirmed, st)
      else
        (case EnsureSetupToken D flt now rnd st of
           (Inl e, st') \<Rightarrow> (BootFailed e, st')
         | (Inr plain, st') \<Rightarrow>
             if plain = [] then (BootOk, st')
             else if tokenDisplay = ''stderr'' \<or> tokenDisplay = ''both'' then (BootBanner plain, st')
             else if tokenDisplay = ''localhost'' then (BootLogLine, st')
             else (BootOk, st')))"

section \<open>Lemmas\<close>

definition row_of :: "OidcProvider list \<Rightarrow> string \<Rightarrow> OidcProvider option" where
  "row_of rows pid = find (\<lambda>r. op_ID r = pid) rows"

lemma row_of_Some: "row_of rows pid = Some r \<Longrightarrow> r \<in> set rows \<and> op_ID r = pid"
  by (auto simp: row_of_def dest!: find_SomeD)

lemma row_of_put:
  assumes "\<And>r. op_ID (upd r) = op_ID r \<or> op_ID (upd r) = op_ID fresh"
  shows "row_of (put_provider upd fresh rows) q =
     (if q = op_ID fresh then Some (case row_of rows q of Some r \<Rightarrow> upd r | None \<Rightarrow> fresh) else row_of rows q)"
proof -
  have same: "op_ID r = op_ID fresh \<Longrightarrow> op_ID (upd r) = op_ID fresh" for r using assms [of r] by auto
  have m: "row_of (map (\<lambda>r. if op_ID r = op_ID fresh then upd r else r) rows) q =
      (if q = op_ID fresh then map_option upd (row_of rows q) else row_of rows q)" for q
    by (induction rows) (auto simp: row_of_def same)
  have "row_of rows (op_ID fresh) = None \<longleftrightarrow> \<not> (\<exists>r \<in> set rows. op_ID r = op_ID fresh)"
    by (auto simp: row_of_def find_None_iff)
  moreover have "row_of (rows @ [fresh]) q = (case row_of rows q of Some r \<Rightarrow> Some r | None \<Rightarrow> if q = op_ID fresh then Some fresh else None)"
    by (auto simp: row_of_def find_snoc split: option.splits)
  ultimately show ?thesis
    by (cases "\<exists>r \<in> set rows. op_ID r = op_ID fresh"; cases "q = op_ID fresh"; cases "row_of rows q")
       (simp_all add: put_provider_def m)
qed

lemma option_ext: "(\<And>v. a = Some v \<longleftrightarrow> b = Some v) \<Longrightarrow> a = b"
  by (cases a; cases b) auto

lemma distinct_put:
  assumes "\<And>r. op_ID r = op_ID fresh \<Longrightarrow> op_ID (upd r) = op_ID fresh" "distinct (map op_ID rows)"
  shows "distinct (map op_ID (put_provider upd fresh rows))"
proof -
  have "map op_ID (map (\<lambda>r. if op_ID r = op_ID fresh then upd r else r) rows) = map op_ID rows"
    using assms(1) by auto
  then have "distinct (map op_ID (map (\<lambda>r. if op_ID r = op_ID fresh then upd r else r) rows))" using assms(2) by (simp only:)
  then show ?thesis using assms(2) by (simp add: put_provider_def del: map_map) auto
qed

lemma rows_by_id_row_of:
  assumes "distinct (map op_ID rows)"
  shows "rows_by_id (sort_key op_ID rows) pid = map_option toDBProviderRow (row_of rows pid)"
proof -
  let ?xs = "\<lambda>rs. map (\<lambda>r. (op_ID r, toDBProviderRow r)) rs"
  have dist: "distinct (map fst (rev (?xs (sort_key op_ID rows))))"
    using assms by (simp add: comp_def rev_map [symmetric] distinct_map)
  have "map_of (rev (?xs (sort_key op_ID rows))) pid = Some v \<longleftrightarrow> (pid, v) \<in> set (?xs rows)" for v
    using map_of_eq_Some_iff [OF dist, of pid v] by simp
  moreover have "(pid, v) \<in> set (?xs rows) \<longleftrightarrow> map_option toDBProviderRow (row_of rows pid) = Some v" for v
  proof -
    have "row_of rows (op_ID r) = Some r" if "r \<in> set rows" for r
    proof (cases "row_of rows (op_ID r)")
      case (Some x)
      then show ?thesis using row_of_Some [OF Some] that assms by (auto simp: distinct_map dest: inj_onD)
    qed (use that in \<open>auto simp: row_of_def find_None_iff\<close>)
    then show ?thesis using row_of_Some by fastforce
  qed
  ultimately show ?thesis unfolding rows_by_id_def by (intro option_ext) simp
qed

text \<open>The loop of \<open>Confirm\<close> without faults: it sets the flags of \<open>ws\<close> and nothing else.\<close>

definition toggled :: "(string \<times> bool) list \<Rightarrow> OidcProvider list \<Rightarrow> OidcProvider list \<Rightarrow> bool" where
  "toggled ws rows0 rows \<longleftrightarrow> (\<forall>q. case map_of ws q of
       None \<Rightarrow> row_of rows q = row_of rows0 q
     | Some en \<Rightarrow> \<exists>r. row_of rows q = Some r \<and> op_Enabled r = en \<and> (\<forall>r0. row_of rows0 q = Some r0 \<longrightarrow> r = r0\<lparr>op_Enabled := en\<rparr>))"

lemma toggled_Cons:
  assumes "toggled ws rows1 rows" "map_of ws pid = None"
    "\<And>q. row_of rows1 q = (if q = pid then Some (case row_of rows0 q of Some r \<Rightarrow> r\<lparr>op_Enabled := en\<rparr> | None \<Rightarrow> fresh) else row_of rows0 q)"
    "op_Enabled fresh = en"
  shows "toggled ((pid, en) # ws) rows0 rows"
  unfolding toggled_def
proof (rule allI)
  fix q
  show "case map_of ((pid, en) # ws) q of
       None \<Rightarrow> row_of rows q = row_of rows0 q
     | Some en \<Rightarrow> \<exists>r. row_of rows q = Some r \<and> op_Enabled r = en \<and> (\<forall>r0. row_of rows0 q = Some r0 \<longrightarrow> r = r0\<lparr>op_Enabled := en\<rparr>)"
    using spec [OF assms(1) [unfolded toggled_def], of q] assms(2,4) assms(3) [of q]
    by (auto split: option.splits if_splits)
qed

lemma set_enabled_ok:
  assumes "\<forall>w \<in> set ws. providerIDPattern (fst w)" "distinct (map fst ws)" "distinct (map op_ID (on_providers st))"
  shows "\<exists>rows. set_enabled (\<lambda>_. False) k ws st = (None, st\<lparr>on_providers := rows\<rparr>) \<and> distinct (map op_ID rows) \<and>
    toggled ws (on_providers st) rows"
  using assms
proof (induction ws arbitrary: k st)
  case Nil
  show ?case by (intro exI [of _ "on_providers st"]) (use Nil in \<open>simp add: toggled_def\<close>)
next
  case (Cons w ws)
  obtain pid en where w: "w = (pid, en)" by fastforce
  define fresh where "fresh = \<lparr>op_ID = pid, op_DisplayName = None, op_IssuerUrl = None, op_ClientID = None, op_ClientSecret = None,
         op_ClaimStyle = None, op_Scopes = None, op_Enabled = en\<rparr>"
  define rows1 where "rows1 = put_provider (\<lambda>r. r\<lparr>op_Enabled := en\<rparr>) fresh (on_providers st)"
  have set: "SetOIDCProviderEnabled pid en st = Inr (st\<lparr>on_providers := rows1\<rparr>)"
    using Cons.prems(1) by (simp add: w SetOIDCProviderEnabled_def rows1_def fresh_def)
  have "distinct (map op_ID rows1)"
    unfolding rows1_def by (rule distinct_put) (use Cons.prems(3) in simp_all)
  then obtain rows where r: "set_enabled (\<lambda>_. False) (Suc k) ws (st\<lparr>on_providers := rows1\<rparr>) = (None, st\<lparr>on_providers := rows\<rparr>)"
      "distinct (map op_ID rows)" "toggled ws rows1 rows"
    using Cons.IH [of "st\<lparr>on_providers := rows1\<rparr>" "Suc k"] Cons.prems(1,2) by auto
  have "toggled ((pid, en) # ws) (on_providers st) rows"
  proof (rule toggled_Cons [OF r(3)])
    show "map_of ws pid = None" using Cons.prems(2) by (simp add: w map_of_eq_None_iff)
    show "row_of rows1 q = (if q = pid then Some (case row_of (on_providers st) q of Some r \<Rightarrow> r\<lparr>op_Enabled := en\<rparr> | None \<Rightarrow> fresh)
        else row_of (on_providers st) q)" for q
      unfolding rows1_def by (subst row_of_put) (simp_all add: fresh_def)
  qed (simp add: fresh_def)
  then show ?case
    by (intro exI [of _ rows]) (simp add: w at_def set r(1,2))
qed

text \<open>What the cached verdict says of the tables and the registry it was computed from.\<close>

definition row_enabled :: "OidcProvider list \<Rightarrow> string \<Rightarrow> bool" where
  "row_enabled rows pid = (case row_of rows pid of Some r \<Rightarrow> op_Enabled r | None \<Rightarrow> True)"

definition onb_confirmed :: "OIDCConfigDeps \<Rightarrow> onb_state \<Rightarrow> bool" where
  "onb_confirmed D st \<longleftrightarrow>
     (let en = filter (row_enabled (on_providers st)) (map fst (od_EnvRegistry D)) in
      if en = [] then cf_OptOut (on_row st) \<or> od_EnvNoOIDCEnv D \<and> od_EnvRegistry D = []
      else \<forall>pid \<in> set en. \<exists>s. state_of (on_oauth st) pid = Some s \<and> OAuth.InitOK s)"

lemma load_merged_Inr:
  assumes "load_merged D flt k st = Inr merged" "distinct (map op_ID (on_providers st))"
  shows "view_enabled merged pid = row_enabled (on_providers st) pid"
proof -
  let ?ids = "remdups (map fst (od_EnvRegistry D) @ map op_ID (sort_key op_ID (on_providers st)))"
  let ?m = "\<lambda>pid. mergeFields pid (map_of (od_EnvRegistry D) pid) (rows_by_id (sort_key op_ID (on_providers st)) pid) (wellKnownProviders pid)"
  have merged: "merged = map (\<lambda>pid. (pid, ?m pid)) ?ids"
    using assms(1) by (auto simp: load_merged_def LoadMergedProviders_def ListOIDCProviders_def at_def split: if_splits)
  have of: "map_of (map (\<lambda>pid. (pid, f pid)) xs) pid = (if pid \<in> set xs then Some (f pid) else None)" for f :: "string \<Rightarrow> MergedProvider" and xs
    by (induction xs) auto
  have "row_of (on_providers st) pid = None" if "pid \<notin> op_ID ` set (on_providers st)"
    using that by (auto simp: row_of_def find_None_iff)
  then show ?thesis
    unfolding merged view_enabled_def of row_enabled_def MergedEnabled_def
    by (auto simp: mergeFields_def Let_def rows_by_id_row_of [OF assms(2)] toDBProviderRow_def split: option.splits)
qed

lemma RefreshState_Inr:
  assumes "RefreshState D flt k st = Inr st'" "distinct (map op_ID (on_providers st))"
  shows "on_row st' = on_row st" "on_providers st' = on_providers st" "on_oauth st' = on_oauth st" "on_plain st' = on_plain st"
    "on_cachedDB st' = Some (on_row st)" "current_confirmed st' = onb_confirmed D st"
proof -
  obtain merged where m: "load_merged D flt (k + 1) st = Inr merged" and st': "st' = st\<lparr>on_cachedDB := Some (on_row st),
      on_cachedBoot := Some (DetermineBootState (buildProviderViews D (on_oauth st) merged) (cf_OptOut (on_row st)) (od_EnvNoOIDCEnv D))\<rparr>"
    using assms(1) by (auto simp: RefreshState_def GetOIDCConfig_def at_def split: sum.splits if_splits)
  then show "on_row st' = on_row st" "on_providers st' = on_providers st" "on_oauth st' = on_oauth st" "on_plain st' = on_plain st"
    "on_cachedDB st' = Some (on_row st)" by simp_all
  let ?views = "buildProviderViews D (on_oauth st) merged"
  have conf: "filter Configured ?views = ?views"
    by (simp add: buildProviderViews_def ProviderInitView.defs comp_def)
  have en: "filter (\<lambda>p. Configured p \<and> Enabled p) ?views =
      map (\<lambda>pid. ProviderInitView.make pid True True (case state_of (on_oauth st) pid of Some s \<Rightarrow> OAuth.InitOK s | None \<Rightarrow> False))
        (filter (row_enabled (on_providers st)) (map fst (od_EnvRegistry D)))"
    by (auto simp: buildProviderViews_def filter_map ProviderInitView.defs comp_def load_merged_Inr [OF m assms(2)])
  show "current_confirmed st' = onb_confirmed D st"
    using DetermineBootState_spec [of ?views "cf_OptOut (on_row st)" "od_EnvNoOIDCEnv D"]
    unfolding Let_def en conf
    by (auto simp: st' current_confirmed_def onb_confirmed_def Let_def list_all_iff ProviderInitView.defs buildProviderViews_def
        split: option.splits if_splits)
qed

lemma RefreshState_ok: "\<exists>st'. RefreshState D (\<lambda>_. False) k st = Inr st'"
  by (simp add: RefreshState_def at_def GetOIDCConfig_def load_merged_def LoadMergedProviders_def ListOIDCProviders_def)

lemma ApplyDBOverridesToOAuth_ok:
  assumes "oa_cfg (on_oauth st) \<noteq> None"
  shows "\<exists>oa st'. ApplyDBOverridesToOAuth D (\<lambda>_. False) k st = (None, st') \<and> RefreshState D (\<lambda>_. False) (k + 1) (st\<lparr>on_oauth := oa\<rparr>) = Inr st'"
proof -
  obtain oa where r: "rebuild D (\<lambda>_. False) k st = Inr (st\<lparr>on_oauth := oa\<rparr>)"
    using assms by (auto simp: rebuild_def load_merged_def LoadMergedProviders_def ListOIDCProviders_def at_def Rebuild_def split: option.splits)
  with RefreshState_ok [of D "k + 1" "st\<lparr>on_oauth := oa\<rparr>"] show ?thesis by (auto simp: ApplyDBOverridesToOAuth_def)
qed

lemma map_of_normalizeEnabledSet:
  "map_of (normalizeEnabledSet reg enabled) pid =
     (if pid \<in> fst ` set reg then Some (pid \<in> (\<lambda>e. ToLower (TrimSpace e)) ` set enabled) else None)"
  by (induction reg) (auto simp: normalizeEnabledSet_def)

lemma clear_token_ok:
  assumes "distinct (map op_ID (on_providers st))"
  shows "on_row (clear_token D (\<lambda>_. False) st) = (on_row st)\<lparr>cf_SetupTokenHash := None, cf_SetupTokenCreatedAt := None\<rparr>"
    "on_providers (clear_token D (\<lambda>_. False) st) = on_providers st" "on_oauth (clear_token D (\<lambda>_. False) st) = on_oauth st"
    "on_plain (clear_token D (\<lambda>_. False) st) = []" "on_cachedDB (clear_token D (\<lambda>_. False) st) = Some (on_row (clear_token D (\<lambda>_. False) st))"
    "current_confirmed (clear_token D (\<lambda>_. False) st) = onb_confirmed D st"
proof -
  let ?st1 = "(ClearSetupTokenHash st)\<lparr>on_plain := []\<rparr>"
  obtain st2 where r: "RefreshState D (\<lambda>_. False) 5 ?st1 = Inr st2" using RefreshState_ok by blast
  have "distinct (map op_ID (on_providers ?st1))" using assms by (simp add: ClearSetupTokenHash_def)
  note i = RefreshState_Inr [OF r this]
  have c: "clear_token D (\<lambda>_. False) st = st2" by (simp add: clear_token_def r)
  show "on_row (clear_token D (\<lambda>_. False) st) = (on_row st)\<lparr>cf_SetupTokenHash := None, cf_SetupTokenCreatedAt := None\<rparr>"
    "on_providers (clear_token D (\<lambda>_. False) st) = on_providers st" "on_oauth (clear_token D (\<lambda>_. False) st) = on_oauth st"
    "on_plain (clear_token D (\<lambda>_. False) st) = []" "on_cachedDB (clear_token D (\<lambda>_. False) st) = Some (on_row (clear_token D (\<lambda>_. False) st))"
    using i by (simp_all add: c ClearSetupTokenHash_def)
  show "current_confirmed (clear_token D (\<lambda>_. False) st) = onb_confirmed D st"
    using i(6) by (simp add: c onb_confirmed_def ClearSetupTokenHash_def)
qed

section \<open>Properties\<close>

text \<open>
  C32. What a confirmation without failing statements does: it sets the flags of the configured
  providers as requested and no other column, stores the opt-out, and answers with the verdict
  over the new state, which the gate of the routes uses from then on; a confirmed verdict spends
  the setup token, so that no token is accepted afterwards. When providers are configured, an empty selection
  without the opt-out flag is not taken as an opt-out: the state is then never confirmed.
\<close>

theorem Confirm_outcome:
  assumes auth: "authenticateWithBody D st admin header (Inr req) cr_SetupToken = Inr req"
    and ids: "\<forall>pid \<in> fst ` set (od_EnvRegistry D). providerIDPattern pid" "distinct (map fst (od_EnvRegistry D))"
    and rows: "distinct (map op_ID (on_providers st))" and cfg: "oa_cfg (on_oauth st) \<noteq> None"
  shows "\<exists>r st'. Confirm D (\<lambda>_. False) now st admin header (Some req) = (OnbStatus r, st') \<and>
    toggled (normalizeEnabledSet (od_EnvRegistry D) (cr_EnabledProviders req)) (on_providers st) (on_providers st') \<and>
    cf_OptOut (on_row st') = (cr_OptOut req \<or> od_EnvRegistry D = []) \<and>
    sr_Confirmed r = onb_confirmed D st' \<and> current_confirmed st' = sr_Confirmed r \<and>
    (sr_Confirmed r \<longrightarrow> cf_SetupTokenHash (on_row st') = None \<and> on_plain st' = [] \<and> (\<forall>t. \<not> verifySetupToken D st' t)) \<and>
    (od_EnvRegistry D \<noteq> [] \<and> cr_EnabledProviders req = [] \<and> \<not> cr_OptOut req \<longrightarrow> \<not> sr_Confirmed r)"
proof -
  let ?ws = "normalizeEnabledSet (od_EnvRegistry D) (cr_EnabledProviders req)"
  let ?opt = "cr_OptOut req \<or> od_EnvRegistry D = []"
  have ws: "map fst ?ws = map fst (od_EnvRegistry D)" by (simp add: normalizeEnabledSet_def comp_def)
  have "\<forall>w \<in> set ?ws. providerIDPattern (fst w)" using ids(1) by (auto simp: normalizeEnabledSet_def)
  then obtain rows' where s: "set_enabled (\<lambda>_. False) 8 ?ws st = (None, st\<lparr>on_providers := rows'\<rparr>)" "distinct (map op_ID rows')"
    and t: "toggled ?ws (on_providers st) rows'"
    using set_enabled_ok [of ?ws st 8] ids(2) rows ws by auto
  define st1 where "st1 = UpdateOIDCConfig now ?opt (st\<lparr>on_providers := rows'\<rparr>)"
  have "oa_cfg (on_oauth st1) \<noteq> None" using cfg by (simp add: st1_def UpdateOIDCConfig_def)
  then obtain oa st2 where a: "ApplyDBOverridesToOAuth D (\<lambda>_. False) 1 st1 = (None, st2)"
      "RefreshState D (\<lambda>_. False) 2 (st1\<lparr>on_oauth := oa\<rparr>) = Inr st2"
    using ApplyDBOverridesToOAuth_ok [of st1 D 1] by (auto simp: numeral_2_eq_2)
  have "distinct (map op_ID (on_providers (st1\<lparr>on_oauth := oa\<rparr>)))" using s(2) by (simp add: st1_def UpdateOIDCConfig_def)
  note i = RefreshState_Inr [OF a(2) this]
  have st2: "on_row st2 = (on_row st)\<lparr>cf_OptOut := ?opt, cf_SavedAt := now\<rparr>" "on_providers st2 = rows'"
    using i(1,2) by (simp_all add: st1_def UpdateOIDCConfig_def)
  have conf2: "current_confirmed st2 = onb_confirmed D st2" using i(1-3,6) by (simp add: onb_confirmed_def)
  define st3 where "st3 = (if current_confirmed st2 then clear_token D (\<lambda>_. False) st2 else st2)"
  note cl = clear_token_ok [of st2 D]
  have st3: "on_providers st3 = rows'" "cf_OptOut (on_row st3) = ?opt" "on_oauth st3 = on_oauth st2"
    using cl(1-3) s(2) st2 by (auto simp: st3_def)
  have same: "onb_confirmed D st3 = onb_confirmed D st2"
    using st3 st2 by (simp add: onb_confirmed_def)
  have conf: "current_confirmed st3 = onb_confirmed D st3"
    using cl(6) s(2) st2(2) conf2 same by (auto simp: st3_def)
  obtain r where r: "OIDCConfigHandler_Status D (\<lambda>_. False) 7 st3 = OnbStatus r" "sr_Confirmed r = current_confirmed st3"
    by (simp add: OIDCConfigHandler_Status_def load_merged_def LoadMergedProviders_def ListOIDCProviders_def at_def)
  have run: "Confirm D (\<lambda>_. False) now st admin header (Some req) = (OnbStatus r, st3)"
    using auth s(1) a(1) r(1) by (simp add: Confirm_def Let_def st1_def st3_def normalizeEnabledSet_def)
  have spent: "cf_SetupTokenHash (on_row st3) = None \<and> on_plain st3 = [] \<and> (\<forall>t. \<not> verifySetupToken D st3 t)" if "current_confirmed st3"
  proof -
    from that conf same conf2 have "current_confirmed st2" by simp
    then show ?thesis using cl(1,4,5) s(2) st2(2) by (simp add: st3_def verifySetupToken_def cached_hash_def)
  qed
  have empty: "\<not> onb_confirmed D st3" if "od_EnvRegistry D \<noteq> []" "cr_EnabledProviders req = []" "\<not> cr_OptOut req"
  proof -
    have "\<not> row_enabled rows' pid" if "pid \<in> fst ` set (od_EnvRegistry D)" for pid
      using spec [OF t [unfolded toggled_def], of pid] that \<open>cr_EnabledProviders req = []\<close>
      by (auto simp: map_of_normalizeEnabledSet row_enabled_def)
    then have "filter (row_enabled rows') (map fst (od_EnvRegistry D)) = []" by (auto simp: filter_empty_conv)
    then show ?thesis using that st3(1,2) by (simp add: onb_confirmed_def)
  qed
  show ?thesis
    using run t st3(1,2) conf r(2) spent empty by (intro exI [of _ r] exI [of _ st3]) auto
qed

text \<open>
  An identifier from the environment that the check of the table refuses, such as one with an
  underscore, makes every confirmation fail.
\<close>

lemma set_enabled_bad_id:
  "\<exists>w \<in> set ws. \<not> providerIDPattern (fst w) \<Longrightarrow> \<exists>e st'. set_enabled flt k ws st = (Some e, st')"
proof (induction ws arbitrary: k st)
  case (Cons w ws)
  obtain pid en where w: "w = (pid, en)" by fastforce
  with Cons show ?case
    by (cases "at flt k (SetOIDCProviderEnabled pid en st)") (auto simp: at_def SetOIDCProviderEnabled_def split: if_splits)
qed simp

lemma Confirm_bad_env_id:
  assumes "\<exists>pid \<in> fst ` set (od_EnvRegistry D). \<not> providerIDPattern pid"
    "authenticateWithBody D st admin header (Inr req) cr_SetupToken = Inr req"
  shows "\<exists>e st'. Confirm D flt now st admin header (Some req) = (OnbFault e, st')"
proof -
  have "\<exists>w \<in> set (normalizeEnabledSet (od_EnvRegistry D) (cr_EnabledProviders req)). \<not> providerIDPattern (fst w)"
    using assms(1) by (auto simp: normalizeEnabledSet_def)
  from set_enabled_bad_id [OF this, of flt 8 st] obtain e st' where
    "set_enabled flt 8 (normalizeEnabledSet (od_EnvRegistry D) (cr_EnabledProviders req)) st = (Some e, st')" by blast
  then show ?thesis using assms(2) by (simp add: Confirm_def Let_def)
qed

text \<open>
  The setup token: when a boot mints one, the state was not confirmed, the token has 64 digits and is accepted, the loopback route
  shows it, every accepted token has its hash (so an earlier one is dead), and a second call in the
  same process changes nothing and prints nothing.
\<close>

theorem EnsureSetupToken_live:
  assumes run: "EnsureSetupToken D (\<lambda>_. False) now rnd st = (Inr plain, st')" "plain \<noteq> []"
    and rows: "distinct (map op_ID (on_providers st))" and sha: "\<forall>m. length (od_sha256 D m) = 32"
  shows "\<not> current_confirmed st \<and> length plain = 64 \<and> verifySetupToken D st' plain \<and>
    (\<forall>t. verifySetupToken D st' t \<longrightarrow> od_sha256 D t = od_sha256 D plain) \<and>
    (\<not> current_confirmed st' \<longrightarrow> (\<forall>addr. SetupToken (\<lambda>_. True) addr st' = OnbToken plain) \<and>
       (\<forall>flt now' rnd'. EnsureSetupToken D flt now' rnd' st' = (Inr [], st')))"
proof -
  have nc: "\<not> current_confirmed st"
    using run by (auto simp: EnsureSetupToken_def split: if_splits sum.splits)
  obtain st0 where m: "mint_token D (\<lambda>_. False) now rnd st0 = (Inr plain, st')" and d0: "distinct (map op_ID (on_providers st0))"
    using run nc rows by (auto simp: EnsureSetupToken_def ClearSetupTokenHash_def split: if_splits)
  let ?st1 = "\<lambda>digest. (SetSetupTokenHash now digest st0)\<lparr>on_plain := plain\<rparr>"
  obtain digest where g: "generateSetupTokenFrom (od_sha256 D) rnd = Inr (plain, digest)"
    and r: "RefreshState D (\<lambda>_. False) 2 (?st1 digest) = Inr st'"
    using m by (auto simp: mint_token_def Let_def split: sum.splits prod.splits)
  have p: "length plain = 64" "digest = hex_encode (od_sha256 D plain)"
    using g by (auto simp: generateSetupTokenFrom_def setupTokenBytes_def HashSetupToken_def Let_def split: if_splits)
  have "length digest = 64" using sha by (simp add: p(2))
  then have ne: "digest \<noteq> []" by auto
  have "distinct (map op_ID (on_providers (?st1 digest)))" using d0 by (simp add: SetSetupTokenHash_def)
  note i = RefreshState_Inr [OF r this]
  have h: "cached_hash st' = Some digest" "on_plain st' = plain"
    using i(4,5) by (simp_all add: cached_hash_def SetSetupTokenHash_def)
  have "verifySetupToken D st' t \<longleftrightarrow> t \<noteq> [] \<and> od_sha256 D t = od_sha256 D plain" for t
    using ne by (auto simp: verifySetupToken_def h VerifySetupToken_def HashSetupToken_def p(2) hex_encode_inject)
  then show ?thesis using nc p(1) run(2) h by (simp add: SetupToken_def EnsureSetupToken_def)
qed

section \<open>Examples\<close>

definition demo_deps :: OIDCConfigDeps where
  "demo_deps = \<lparr>od_libs = demo_libs ''n'', od_sha256 = \<lambda>m. replicate 32 (CHR ''h''), od_EnvRegistry = [(''google'', demo_provider)], od_EnvNoOIDCEnv = False\<rparr>"

definition demo_onb :: onb_state where
  "demo_onb = \<lparr>on_row = \<lparr>cf_OptOut = False, cf_SetupTokenHash = None, cf_SetupTokenCreatedAt = None, cf_SavedAt = 0\<rparr>, on_providers = [],
     on_oauth = demo_oauth ''n'', on_cachedDB = None, on_cachedBoot = None, on_plain = []\<rparr>"

theorem Confirm_outcome_witness:
  "\<exists>r st'. Confirm demo_deps (\<lambda>_. False) 0 demo_onb (Some (Some True)) [] (Some \<lparr>cr_SetupToken = [], cr_EnabledProviders = [], cr_OptOut = False\<rparr>)
      = (OnbStatus r, st') \<and> \<not> sr_Confirmed r"
proof -
  let ?req = "\<lparr>cr_SetupToken = [], cr_EnabledProviders = [], cr_OptOut = False\<rparr>"
  have "authenticateWithBody demo_deps demo_onb (Some (Some True)) [] (Inr ?req) cr_SetupToken = Inr ?req"
    by (simp add: authenticateWithBody_def authorizeAmbient_def)
  moreover have "providerIDPattern ''google''"
    by (simp add: providerIDPattern_def slug_char_def is_ascii_lower_def is_ascii_digit_def byte_def)
  ultimately show ?thesis
    using Confirm_outcome [of demo_deps demo_onb "Some (Some True)" "[]" ?req 0]
    by (auto simp: demo_deps_def demo_onb_def demo_oauth_def)
qed

theorem EnsureSetupToken_live_witness:
  "\<exists>plain st'. EnsureSetupToken demo_deps (\<lambda>_. False) 0 (replicate 32 (CHR ''x'')) demo_onb = (Inr plain, st') \<and> verifySetupToken demo_deps st' plain"
proof -
  have nc: "\<not> current_confirmed demo_onb" "cached_hash demo_onb = None" by (simp_all add: demo_onb_def current_confirmed_def cached_hash_def)
  obtain plain digest where g: "generateSetupTokenFrom (od_sha256 demo_deps) (replicate 32 (CHR ''x'')) = Inr (plain, digest)" "length plain = 64"
    by (simp add: generateSetupTokenFrom_def setupTokenBytes_def Let_def del: hex_encode.simps)
  obtain st' where "RefreshState demo_deps (\<lambda>_. False) 2 ((SetSetupTokenHash 0 digest demo_onb)\<lparr>on_plain := plain\<rparr>) = Inr st'"
    using RefreshState_ok by blast
  then have run: "EnsureSetupToken demo_deps (\<lambda>_. False) 0 (replicate 32 (CHR ''x'')) demo_onb = (Inr plain, st')"
    using nc g by (simp add: EnsureSetupToken_def mint_token_def Let_def)
  have "plain \<noteq> []" using g(2) by auto
  moreover have "distinct (map op_ID (on_providers demo_onb))" "\<forall>m. length (od_sha256 demo_deps m) = 32"
    by (simp_all add: demo_onb_def demo_deps_def)
  ultimately show ?thesis using EnsureSetupToken_live [OF run] run by blast
qed

end
