(* ===== verification/ProviderAdmin.thy ===== *)
theory ProviderAdmin
  imports Onboarding
begin

text \<open>
  Administration of the OIDC providers: the handlers of \<open>handlers/oidc_providers.go\<close> over the
  state of the onboarding component. A body is the decoded JSON object, in which absent,
  \<open>null\<close> and present members differ; decoding itself belongs to the core module.
\<close>

section \<open>Bodies\<close>

type_synonym raw_body = "(string \<times> json) list"

definition providerBodyKeys :: "string list" where
  "providerBodyKeys = [''setup_token'', ''id'', ''display_name'', ''issuer_url'', ''client_id'', ''client_secret'', ''claim_style'',
     ''scopes'', ''enabled'']"

text \<open>\<open>None\<close> is a body that does not decode; an empty body is the empty object.\<close>

definition parseBody :: "raw_body option \<Rightarrow> (onb_response, raw_body) result" where
  "parseBody body =
     (case body of
        None \<Rightarrow> Inl OnbBadBody
      | Some raw \<Rightarrow>
          (case sort (filter (\<lambda>k. k \<notin> set providerBodyKeys) (map fst raw)) of
             [] \<Rightarrow> Inr raw
           | unknown # _ \<Rightarrow> Inl (OnbUnknownField unknown)))"

definition stringField :: "raw_body \<Rightarrow> string \<Rightarrow> string" where
  "stringField raw key = (case map_of raw key of Some (JStr s) \<Rightarrow> s | _ \<Rightarrow> [])"

text \<open>Decoding \<open>null\<close> into a Go bool succeeds and leaves \<open>false\<close>.\<close>

definition boolField :: "raw_body \<Rightarrow> string \<Rightarrow> bool \<times> bool" where
  "boolField raw key =
     (case map_of raw key of
        Some (JBool b) \<Rightarrow> (b, True)
      | Some JNull \<Rightarrow> (False, True)
      | _ \<Rightarrow> (False, False))"

definition mergeTextField :: "raw_body \<Rightarrow> string \<Rightarrow> string option \<Rightarrow> bool \<Rightarrow> string option" where
  "mergeTextField raw key existing existingLoaded =
     (let keep = (if existingLoaded then existing else None) in
      case map_of raw key of
        None \<Rightarrow> keep
      | Some JNull \<Rightarrow> None
      | Some (JStr s) \<Rightarrow> if s = [] then None else Some s
      | Some _ \<Rightarrow> keep)"

definition mergeSecretField :: "raw_body \<Rightarrow> string \<Rightarrow> string option \<Rightarrow> bool \<Rightarrow> string option" where
  "mergeSecretField raw key existing existingLoaded = mergeTextField raw key existing existingLoaded"

text \<open>An array decodes into \<open>[]string\<close> when its elements are strings or \<open>null\<close>.\<close>

fun string_array :: "json list \<Rightarrow> string list option" where
  "string_array [] = Some []"
| "string_array (v # vs) =
     (case v of
        JStr s \<Rightarrow> map_option (\<lambda>r. s # r) (string_array vs)
      | JNull \<Rightarrow> map_option (\<lambda>r. [] # r) (string_array vs)
      | _ \<Rightarrow> None)"

definition mergeScopes :: "raw_body \<Rightarrow> string list option \<Rightarrow> bool \<Rightarrow> string list option" where
  "mergeScopes raw existing existingLoaded =
     (let keep = (if existingLoaded then existing else None) in
      case map_of raw ''scopes'' of
        None \<Rightarrow> keep
      | Some JNull \<Rightarrow> None
      | Some (JArr vs) \<Rightarrow>
          (case string_array vs of
             None \<Rightarrow> keep
           | Some arr \<Rightarrow>
               (let out = filter (\<lambda>s. s \<noteq> []) (map TrimSpace arr) in if out = [] then None else Some out))
      | Some _ \<Rightarrow> keep)"

section \<open>Views\<close>

definition sourceDB :: string where "sourceDB = ''db''"
definition sourceEnv :: string where "sourceEnv = ''env''"
definition sourceWellKnown :: string where "sourceWellKnown = ''well_known''"
definition sourceFallback :: string where "sourceFallback = ''fallback''"
definition sourceNone :: string where "sourceNone = ''none''"

record providerView =
  pv_ID :: string
  pv_DisplayName :: "string option"
  pv_DisplayNameDefault :: "string option"
  pv_DisplayNameSource :: string
  pv_IssuerURL :: "string option"
  pv_IssuerURLDefault :: "string option"
  pv_IssuerURLSource :: string
  pv_ClientID :: "string option"
  pv_ClientIDDefault :: "string option"
  pv_ClientIDSource :: string
  pv_HasClientSecret :: bool
  pv_ClientSecretSource :: string
  pv_ClaimStyle :: "string option"
  pv_ClaimStyleDefault :: "string option"
  pv_ClaimStyleSource :: string
  pv_Scopes :: "string list"
  pv_ScopesDefault :: "string list"
  pv_ScopesSource :: string
  pv_Enabled :: bool
  pv_InitOK :: bool
  pv_Error :: "oauth_error option"
  pv_CallbackURL :: string
  pv_WellKnown :: bool

definition overrideTextPointer :: "DBProviderRow option \<Rightarrow> (DBProviderRow \<Rightarrow> string option) \<Rightarrow> string option" where
  "overrideTextPointer row pick =
     (case row of
        None \<Rightarrow> None
      | Some r \<Rightarrow> (case pick r of None \<Rightarrow> None | Some s \<Rightarrow> if s = [] then None else Some s))"

definition overrideScopes :: "DBProviderRow option \<Rightarrow> string list" where
  "overrideScopes row = (case row of None \<Rightarrow> [] | Some r \<Rightarrow> if row_ScopesSet r then row_Scopes r else [])"

definition scopesDefault :: "MergedProvider \<Rightarrow> string list" where
  "scopesDefault m =
     (case EnvValues m of
        Some p \<Rightarrow> if pr_Scopes p \<noteq> [] then pr_Scopes p else [''openid'', ''email'', ''profile'']
      | None \<Rightarrow> [''openid'', ''email'', ''profile''])"

definition defaultTitleCase :: "string \<Rightarrow> string" where
  "defaultTitleCase pid = (case pid of [] \<Rightarrow> [] | c # cs \<Rightarrow> ToUpper [c] @ cs)"

definition defaultDisplayName :: "MergedProvider \<Rightarrow> string" where
  "defaultDisplayName m =
     (if envStr (EnvValues m) pr_DisplayName \<noteq> [] then envStr (EnvValues m) pr_DisplayName
      else if defaultsStr (WellKnownDefaults m) def_DisplayName \<noteq> [] then defaultsStr (WellKnownDefaults m) def_DisplayName
      else defaultTitleCase (mp_ID m))"

definition defaultIssuerURL :: "MergedProvider \<Rightarrow> string" where
  "defaultIssuerURL m =
     (if envStr (EnvValues m) pr_IssuerURL \<noteq> [] then envStr (EnvValues m) pr_IssuerURL
      else defaultsStr (WellKnownDefaults m) def_IssuerURL)"

definition defaultClientID :: "MergedProvider \<Rightarrow> string" where
  "defaultClientID m = envStr (EnvValues m) pr_ClientID"

definition defaultClaimStyle :: "MergedProvider \<Rightarrow> string" where
  "defaultClaimStyle m =
     (if envStr (EnvValues m) pr_ClaimStyle \<noteq> [] then envStr (EnvValues m) pr_ClaimStyle
      else defaultsStr (WellKnownDefaults m) def_ClaimStyle)"

definition nonEmptyPointer :: "string \<Rightarrow> string option" where
  "nonEmptyPointer s = (if s = [] then None else Some s)"

definition dbTextSet :: "string option \<Rightarrow> bool" where
  "dbTextSet t \<longleftrightarrow> (case t of None \<Rightarrow> False | Some s \<Rightarrow> s \<noteq> [])"

definition db_set :: "MergedProvider \<Rightarrow> (DBProviderRow \<Rightarrow> string option) \<Rightarrow> bool" where
  "db_set m f \<longleftrightarrow> (case DBOverride m of None \<Rightarrow> False | Some r \<Rightarrow> dbTextSet (f r))"

definition displayNameSource :: "MergedProvider \<Rightarrow> string" where
  "displayNameSource m =
     (if db_set m row_DisplayName then sourceDB
      else if envStr (EnvValues m) pr_DisplayName \<noteq> [] then sourceEnv
      else if defaultsStr (WellKnownDefaults m) def_DisplayName \<noteq> [] then sourceWellKnown
      else sourceFallback)"

definition issuerURLSource :: "MergedProvider \<Rightarrow> string" where
  "issuerURLSource m =
     (if db_set m row_IssuerURL then sourceDB
      else if envStr (EnvValues m) pr_IssuerURL \<noteq> [] then sourceEnv
      else if defaultsStr (WellKnownDefaults m) def_IssuerURL \<noteq> [] then sourceWellKnown
      else sourceNone)"

definition clientIDSource :: "MergedProvider \<Rightarrow> string" where
  "clientIDSource m =
     (if db_set m row_ClientID then sourceDB
      else if envStr (EnvValues m) pr_ClientID \<noteq> [] then sourceEnv
      else sourceNone)"

definition clientSecretSource :: "MergedProvider \<Rightarrow> string" where
  "clientSecretSource m =
     (if db_set m row_ClientSecret then sourceDB
      else if envStr (EnvValues m) pr_ClientSecret \<noteq> [] then sourceEnv
      else sourceNone)"

definition claimStyleSource :: "MergedProvider \<Rightarrow> string" where
  "claimStyleSource m =
     (if db_set m row_ClaimStyle then sourceDB
      else if envStr (EnvValues m) pr_ClaimStyle \<noteq> [] then sourceEnv
      else if defaultsStr (WellKnownDefaults m) def_ClaimStyle \<noteq> [] then sourceWellKnown
      else sourceNone)"

definition scopesSource :: "MergedProvider \<Rightarrow> string" where
  "scopesSource m =
     (if (case DBOverride m of None \<Rightarrow> False | Some r \<Rightarrow> row_Scopes r \<noteq> []) then sourceDB
      else if (case EnvValues m of None \<Rightarrow> False | Some p \<Rightarrow> pr_Scopes p \<noteq> []) then sourceEnv
      else sourceWellKnown)"

text \<open>This package's copy of \<open>buildCallbackURL\<close> answers the empty string without a base.\<close>

definition providers_buildCallbackURL :: "string \<Rightarrow> string \<Rightarrow> string" where
  "providers_buildCallbackURL base providerID = (if base = [] then [] else buildCallbackURL base providerID)"

definition provider_view :: "OAuth \<Rightarrow> string \<Rightarrow> string \<Rightarrow> MergedProvider \<Rightarrow> providerView" where
  "provider_view oa base pid m =
     (let s = find (\<lambda>s. ps_ID s = pid) (AllProviders oa) in
      \<lparr>pv_ID = pid,
       pv_DisplayName = overrideTextPointer (DBOverride m) row_DisplayName,
       pv_DisplayNameDefault = nonEmptyPointer (defaultDisplayName m),
       pv_DisplayNameSource = displayNameSource m,
       pv_IssuerURL = overrideTextPointer (DBOverride m) row_IssuerURL,
       pv_IssuerURLDefault = nonEmptyPointer (defaultIssuerURL m),
       pv_IssuerURLSource = issuerURLSource m,
       pv_ClientID = overrideTextPointer (DBOverride m) row_ClientID,
       pv_ClientIDDefault = nonEmptyPointer (defaultClientID m),
       pv_ClientIDSource = clientIDSource m,
       pv_HasClientSecret = HasClientSecret m,
       pv_ClientSecretSource = clientSecretSource m,
       pv_ClaimStyle = overrideTextPointer (DBOverride m) row_ClaimStyle,
       pv_ClaimStyleDefault = nonEmptyPointer (defaultClaimStyle m),
       pv_ClaimStyleSource = claimStyleSource m,
       pv_Scopes = overrideScopes (DBOverride m),
       pv_ScopesDefault = scopesDefault m,
       pv_ScopesSource = scopesSource m,
       pv_Enabled = MergedEnabled m,
       pv_InitOK = (case s of Some x \<Rightarrow> OAuth.InitOK x | None \<Rightarrow> False),
       pv_Error = (case s of Some x \<Rightarrow> (case ps_Init x of Inl e \<Rightarrow> Some e | Inr _ \<Rightarrow> None) | None \<Rightarrow> None),
       pv_CallbackURL = providers_buildCallbackURL base pid,
       pv_WellKnown = (WellKnownDefaults m \<noteq> None)\<rparr>)"

section \<open>Handlers\<close>

record ProvidersDeps =
  pd_confirmer :: OIDCConfigDeps
  pd_RedirectBase :: string

datatype prov_response =
    ProvRefused onb_response
  | ProvInvalid
  | ProvConflict
  | ProvNotFound
  | ProvFault onb_error
  | ProvDisappeared
  | ProvOK providerView
  | ProvCreated providerView
  | ProvNoContent

definition buildView :: "ProvidersDeps \<Rightarrow> faults \<Rightarrow> nat \<Rightarrow> onb_state \<Rightarrow> string \<Rightarrow> providerView option query" where
  "buildView P flt k st pid =
     (case load_merged (pd_confirmer P) flt k st of
        Inl e \<Rightarrow> Inl e
      | Inr merged \<Rightarrow> Inr (map_option (provider_view (on_oauth st) (pd_RedirectBase P) pid) (map_of merged pid)))"

definition ProvidersHandler_Get :: "ProvidersDeps \<Rightarrow> faults \<Rightarrow> onb_state \<Rightarrow> bool option option \<Rightarrow> string \<Rightarrow> string \<Rightarrow> prov_response" where
  "ProvidersHandler_Get P flt st admin header param =
     (case authorizeBodyless (pd_confirmer P) st admin header of
        Inl resp \<Rightarrow> ProvRefused resp
      | Inr _ \<Rightarrow>
          if \<not> providerIDPattern (ToLower param) then ProvInvalid
          else
            (case buildView P flt 0 st (ToLower param) of
               Inl e \<Rightarrow> ProvFault (OnbDb e)
             | Inr None \<Rightarrow> ProvNotFound
             | Inr (Some v) \<Rightarrow> ProvOK v))"

definition rebuildAndRefresh :: "ProvidersDeps \<Rightarrow> faults \<Rightarrow> nat \<Rightarrow> onb_state \<Rightarrow> onb_error option \<times> onb_state" where
  "rebuildAndRefresh P flt k st = ApplyDBOverridesToOAuth (pd_confirmer P) flt k st"

text \<open>The row an update writes.\<close>

definition upsert_params :: "string \<Rightarrow> raw_body \<Rightarrow> OidcProvider option \<Rightarrow> OidcProvider" where
  "upsert_params pid raw existing =
     (let loaded = (existing \<noteq> None);
          col = (\<lambda>f. case existing of Some r \<Rightarrow> f r | None \<Rightarrow> None)
      in \<lparr>op_ID = pid,
          op_DisplayName = mergeTextField raw ''display_name'' (col op_DisplayName) loaded,
          op_IssuerUrl = mergeTextField raw ''issuer_url'' (col op_IssuerUrl) loaded,
          op_ClientID = mergeTextField raw ''client_id'' (col op_ClientID) loaded,
          op_ClientSecret = mergeSecretField raw ''client_secret'' (col op_ClientSecret) loaded,
          op_ClaimStyle = mergeTextField raw ''claim_style'' (col op_ClaimStyle) loaded,
          op_Scopes = mergeScopes raw (case existing of Some r \<Rightarrow> op_Scopes r | None \<Rightarrow> None) loaded,
          op_Enabled = (case boolField raw ''enabled'' of
                          (en, enabledSet) \<Rightarrow> if enabledSet then en else (case existing of Some r \<Rightarrow> op_Enabled r | None \<Rightarrow> True))\<rparr>)"

text \<open>Sites: 0 load, 1 upsert, 2 to 4 rebuild and refresh, 5 view.\<close>

definition upsertAndRespond :: "ProvidersDeps \<Rightarrow> faults \<Rightarrow> onb_state \<Rightarrow> string \<Rightarrow> raw_body \<Rightarrow> bool \<Rightarrow> prov_response \<times> onb_state" where
  "upsertAndRespond P flt st pid raw creating =
     (let upsert = (\<lambda>existing.
        (case at flt 1 (UpsertOIDCProvider (upsert_params pid raw existing) st) of
           Inl e \<Rightarrow> (ProvFault (OnbDb e), st)
         | Inr st1 \<Rightarrow>
             (case rebuildAndRefresh P flt 2 st1 of
                (Some e, st2) \<Rightarrow> (ProvFault e, st2)
              | (None, st2) \<Rightarrow>
                  (case buildView P flt 5 st2 pid of
                     Inl e \<Rightarrow> (ProvFault (OnbDb e), st2)
                   | Inr None \<Rightarrow> (ProvDisappeared, st2)
                   | Inr (Some v) \<Rightarrow> (if creating then ProvCreated v else ProvOK v, st2)))))
      in case at flt 0 (GetOIDCProvider st pid) of
           Inr row \<Rightarrow> upsert (Some row)
         | Inl NoRows \<Rightarrow> upsert None
         | Inl e \<Rightarrow> (ProvFault (OnbDb e), st))"

definition ProvidersHandler_Update ::
  "ProvidersDeps \<Rightarrow> faults \<Rightarrow> onb_state \<Rightarrow> bool option option \<Rightarrow> string \<Rightarrow> string \<Rightarrow> raw_body option \<Rightarrow> prov_response \<times> onb_state" where
  "ProvidersHandler_Update P flt st admin header param body =
     (case authenticateWithBody (pd_confirmer P) st admin header (parseBody body) (\<lambda>raw. stringField raw ''setup_token'') of
        Inl resp \<Rightarrow> (ProvRefused resp, st)
      | Inr raw \<Rightarrow>
          if \<not> providerIDPattern (ToLower param) then (ProvInvalid, st)
          else upsertAndRespond P flt st (ToLower param) raw False)"

text \<open>Site 6: the look-up before the insertion.\<close>

definition ProvidersHandler_Create ::
  "ProvidersDeps \<Rightarrow> faults \<Rightarrow> onb_state \<Rightarrow> bool option option \<Rightarrow> string \<Rightarrow> raw_body option \<Rightarrow> prov_response \<times> onb_state" where
  "ProvidersHandler_Create P flt st admin header body =
     (case authenticateWithBody (pd_confirmer P) st admin header (parseBody body) (\<lambda>raw. stringField raw ''setup_token'') of
        Inl resp \<Rightarrow> (ProvRefused resp, st)
      | Inr raw \<Rightarrow>
          (let rawID = TrimSpace (stringField raw ''id'') in
           if rawID = [] then (ProvInvalid, st)
           else if \<not> providerIDPattern rawID then (ProvInvalid, st)
           else
             (case at flt 6 (GetOIDCProvider st rawID) of
                Inr _ \<Rightarrow> (ProvConflict, st)
              | Inl NoRows \<Rightarrow> upsertAndRespond P flt st rawID raw True
              | Inl e \<Rightarrow> (ProvFault (OnbDb e), st))))"

definition Revert ::
  "ProvidersDeps \<Rightarrow> faults \<Rightarrow> onb_state \<Rightarrow> bool option option \<Rightarrow> string \<Rightarrow> string \<Rightarrow> prov_response \<times> onb_state" where
  "Revert P flt st admin header param =
     (case authorizeBodyless (pd_confirmer P) st admin header of
        Inl resp \<Rightarrow> (ProvRefused resp, st)
      | Inr _ \<Rightarrow>
          if \<not> providerIDPattern (ToLower param) then (ProvInvalid, st)
          else if flt 1 then (ProvFault (OnbDb DbFault), st)
          else
            (case rebuildAndRefresh P flt 2 (DeleteOIDCProvider (ToLower param) st) of
               (Some e, st2) \<Rightarrow> (ProvFault e, st2)
             | (None, st2) \<Rightarrow> (ProvNoContent, st2)))"

section \<open>Lemmas\<close>

lemma authenticateWithBody_Inr:
  assumes "authenticateWithBody D st admin header body tok = Inr req"
  shows "body = Inr req" "admin = Some (Some True) \<or> verifySetupToken D st header \<or> verifySetupToken D st (tok req)" "admin \<noteq> Some None"
  using assms
  by (auto simp: authenticateWithBody_def authorizeAmbient_def split: option.splits bool.splits sum.splits if_splits)

lemma authorizeBodyless_Inr:
  assumes "authorizeBodyless D st admin header = Inr u"
  shows "admin = Some (Some True) \<or> verifySetupToken D st header" "admin \<noteq> Some None"
  using assms by (auto simp: authorizeBodyless_def authorizeAmbient_def split: option.splits bool.splits if_splits)

lemma mergeTextField_spec:
  "map_of raw key = None \<Longrightarrow> mergeTextField raw key existing loaded = (if loaded then existing else None)"
  "map_of raw key = Some JNull \<or> map_of raw key = Some (JStr []) \<Longrightarrow> mergeTextField raw key existing loaded = None"
  "map_of raw key = Some (JStr s) \<Longrightarrow> s \<noteq> [] \<Longrightarrow> mergeTextField raw key existing loaded = Some s"
  by (auto simp: mergeTextField_def Let_def)

lemma map_of_load_merged:
  assumes "load_merged D flt k st = Inr merged" "distinct (map op_ID (on_providers st))"
  shows "map_of merged pid =
    (if pid \<in> fst ` set (od_EnvRegistry D) \<or> row_of (on_providers st) pid \<noteq> None
     then Some (mergeFields pid (map_of (od_EnvRegistry D) pid) (map_option toDBProviderRow (row_of (on_providers st) pid)) (wellKnownProviders pid))
     else None)"
proof -
  have of: "map_of (map (\<lambda>pid. (pid, f pid)) xs) pid = (if pid \<in> set xs then Some (f pid) else None)" for f :: "string \<Rightarrow> MergedProvider" and xs
    by (induction xs) auto
  have "row_of (on_providers st) pid \<noteq> None \<longleftrightarrow> pid \<in> op_ID ` set (on_providers st)"
    by (auto simp: row_of_def find_None_iff)
  moreover have M: "merged = map (\<lambda>pid. (pid, mergeFields pid (map_of (od_EnvRegistry D) pid)
        (map_option toDBProviderRow (row_of (on_providers st) pid)) (wellKnownProviders pid)))
      (remdups (map fst (od_EnvRegistry D) @ map op_ID (sort_key op_ID (on_providers st))))"
    using assms(1) by (simp add: load_merged_def LoadMergedProviders_def ListOIDCProviders_def at_def rows_by_id_row_of [OF assms(2)] split: if_splits)
  ultimately show ?thesis unfolding M of by simp
qed

section \<open>Properties\<close>

text \<open>
  C31. The onboarding and provider routes change tables, registry or caches only for a caller whom the
  admin check admits or who presents a token with the stored hash, in the header or in the body;
  and a check that fails with an error changes nothing, whatever token is presented.
\<close>

theorem onboarding_writes_guarded:
  assumes "Confirm (pd_confirmer P) flt now st admin header body = (r1, st') \<and> tok = (case body of Some req \<Rightarrow> cr_SetupToken req | None \<Rightarrow> []) \<or>
      ProvidersHandler_Create P flt st admin header pbody = (r2, st') \<and> tok = stringField (case pbody of Some raw \<Rightarrow> raw | None \<Rightarrow> []) ''setup_token'' \<or>
      ProvidersHandler_Update P flt st admin header param pbody = (r2, st') \<and> tok = stringField (case pbody of Some raw \<Rightarrow> raw | None \<Rightarrow> []) ''setup_token'' \<or>
      Revert P flt st admin header param = (r2, st') \<and> tok = []"
    and change: "st' \<noteq> st"
  shows "admin \<noteq> Some None \<and>
    (admin = Some (Some True) \<or> verifySetupToken (pd_confirmer P) st header \<or> verifySetupToken (pd_confirmer P) st tok)"
proof -
  have parse: "parseBody pbody = Inr raw \<Longrightarrow> (case pbody of Some r \<Rightarrow> r | None \<Rightarrow> []) = raw" for raw
    by (auto simp: parseBody_def split: option.splits list.splits)
  from assms(1) show ?thesis
  proof (elim disjE conjE)
    assume r: "Confirm (pd_confirmer P) flt now st admin header body = (r1, st')" "tok = (case body of Some req \<Rightarrow> cr_SetupToken req | None \<Rightarrow> [])"
    obtain req where "authenticateWithBody (pd_confirmer P) st admin header (case body of None \<Rightarrow> Inl OnbBadBody | Some req \<Rightarrow> Inr req) cr_SetupToken = Inr req"
      using r(1) change unfolding Confirm_def by (cases "authenticateWithBody (pd_confirmer P) st admin header (case body of None \<Rightarrow> Inl OnbBadBody | Some req \<Rightarrow> Inr req) cr_SetupToken") simp_all
    from authenticateWithBody_Inr [OF this] r(2) show ?thesis by (auto split: option.splits)
  next
    assume r: "ProvidersHandler_Create P flt st admin header pbody = (r2, st')" "tok = stringField (case pbody of Some raw \<Rightarrow> raw | None \<Rightarrow> []) ''setup_token''"
    obtain raw where "authenticateWithBody (pd_confirmer P) st admin header (parseBody pbody) (\<lambda>raw. stringField raw ''setup_token'') = Inr raw"
      using r(1) change unfolding ProvidersHandler_Create_def by (auto split: sum.splits)
    from authenticateWithBody_Inr [OF this] r(2) show ?thesis using parse by auto
  next
    assume r: "ProvidersHandler_Update P flt st admin header param pbody = (r2, st')" "tok = stringField (case pbody of Some raw \<Rightarrow> raw | None \<Rightarrow> []) ''setup_token''"
    obtain raw where "authenticateWithBody (pd_confirmer P) st admin header (parseBody pbody) (\<lambda>raw. stringField raw ''setup_token'') = Inr raw"
      using r(1) change unfolding ProvidersHandler_Update_def by (auto split: sum.splits)
    from authenticateWithBody_Inr [OF this] r(2) show ?thesis using parse by auto
  next
    assume "Revert P flt st admin header param = (r2, st')"
    then obtain u where "authorizeBodyless (pd_confirmer P) st admin header = Inr u"
      using change unfolding Revert_def by (auto split: sum.splits)
    from authorizeBodyless_Inr [OF this] show ?thesis by auto
  qed
qed

text \<open>The value of the layer a source label names.\<close>

definition layer_value :: "string \<Rightarrow> string \<Rightarrow> string \<Rightarrow> string \<Rightarrow> string \<Rightarrow> string" where
  "layer_value src db env wk fb =
     (if src = ''db'' then db else if src = ''env'' then env else if src = ''well_known'' then wk else if src = ''fallback'' then fb else [])"

lemmas source_defs = sourceDB_def sourceEnv_def sourceWellKnown_def sourceFallback_def sourceNone_def


text \<open>
  What an update without failing statements does: exactly the row of the named provider changes,
  an absent member keeps the column, \<open>null\<close> or an empty string clears it and a string replaces
  it, also for the secret; registry and verdict are rebuilt from the new rows. A \<open>null\<close> for
  \<open>enabled\<close> switches the provider off.
\<close>

theorem ProvidersHandler_Update_effect:
  assumes auth: "authenticateWithBody (pd_confirmer P) st admin header (parseBody (Some raw)) (\<lambda>raw. stringField raw ''setup_token'') = Inr raw"
    and pid: "providerIDPattern (ToLower param)" "pid = ToLower param"
    and rows: "distinct (map op_ID (on_providers st))" and cfg: "oa_cfg (on_oauth st) \<noteq> None"
  shows "\<exists>v st' r. ProvidersHandler_Update P (\<lambda>_. False) st admin header param (Some raw) = (ProvOK v, st') \<and>
    row_of (on_providers st') pid = Some r \<and> (\<forall>q. q \<noteq> pid \<longrightarrow> row_of (on_providers st') q = row_of (on_providers st) q) \<and>
    on_row st' = on_row st \<and> current_confirmed st' = onb_confirmed (pd_confirmer P) st' \<and> pv_Enabled v = op_Enabled r \<and>
    (map_of raw ''client_secret'' = None \<longrightarrow> op_ClientSecret r = Option.bind (row_of (on_providers st) pid) op_ClientSecret) \<and>
    (map_of raw ''client_secret'' \<in> {Some JNull, Some (JStr [])} \<longrightarrow> op_ClientSecret r = None) \<and>
    (\<forall>s. map_of raw ''client_secret'' = Some (JStr s) \<and> s \<noteq> [] \<longrightarrow> op_ClientSecret r = Some s) \<and>
    (map_of raw ''enabled'' = None \<longrightarrow> op_Enabled r = row_enabled (on_providers st) pid) \<and>
    (map_of raw ''enabled'' = Some JNull \<longrightarrow> \<not> op_Enabled r)"
proof -
  define r where "r = upsert_params pid raw (row_of (on_providers st) pid)"
  have rid: "op_ID r = pid" by (simp add: r_def upsert_params_def Let_def)
  define rows1 where "rows1 = put_provider (\<lambda>_. r) r (on_providers st)"
  have up: "UpsertOIDCProvider r st = Inr (st\<lparr>on_providers := rows1\<rparr>)"
    using pid by (simp add: UpsertOIDCProvider_def rid rows1_def)
  have row1: "row_of rows1 q = (if q = pid then Some r else row_of (on_providers st) q)" for q
    unfolding rows1_def by (subst row_of_put) (auto simp: rid split: option.splits)
  have d1: "distinct (map op_ID rows1)" unfolding rows1_def by (rule distinct_put [OF _ rows]) simp
  obtain oa st2 where a: "ApplyDBOverridesToOAuth (pd_confirmer P) (\<lambda>_. False) 2 (st\<lparr>on_providers := rows1\<rparr>) = (None, st2)"
    "RefreshState (pd_confirmer P) (\<lambda>_. False) 3 (st\<lparr>on_providers := rows1, on_oauth := oa\<rparr>) = Inr st2"
    using ApplyDBOverridesToOAuth_ok [of "st\<lparr>on_providers := rows1\<rparr>" "pd_confirmer P" 2] cfg by auto
  note i = RefreshState_Inr [OF a(2), simplified, OF d1]
  obtain merged where mg: "load_merged (pd_confirmer P) (\<lambda>_. False) 5 st2 = Inr merged"
    by (simp add: load_merged_def LoadMergedProviders_def ListOIDCProviders_def at_def)
  have "distinct (map op_ID (on_providers st2))" using d1 i(2) by simp
  note mo = map_of_load_merged [OF mg this, of pid]
  obtain m where m: "map_of merged pid = Some m" "MergedEnabled m = op_Enabled r"
    using mo i(2) row1 [of pid] by (simp add: mergeFields_def Let_def MergedEnabled_def toDBProviderRow_def)
  have get: "GetOIDCProvider st pid = (case row_of (on_providers st) pid of Some x \<Rightarrow> Inr x | None \<Rightarrow> Inl NoRows)"
    by (simp add: GetOIDCProvider_def row_of_def split: option.splits)
  have "upsertAndRespond P (\<lambda>_. False) st pid raw False = (ProvOK (provider_view (on_oauth st2) (pd_RedirectBase P) pid m), st2)"
    using up a(1) mg m(1)
    by (cases "row_of (on_providers st) pid")
       (simp_all add: upsertAndRespond_def at_def get r_def rebuildAndRefresh_def buildView_def Let_def)
  then have run: "ProvidersHandler_Update P (\<lambda>_. False) st admin header param (Some raw) =
      (ProvOK (provider_view (on_oauth st2) (pd_RedirectBase P) pid m), st2)"
    using auth pid by (simp add: ProvidersHandler_Update_def)
  have sec: "op_ClientSecret r = mergeTextField raw ''client_secret'' (Option.bind (row_of (on_providers st) pid) op_ClientSecret) (row_of (on_providers st) pid \<noteq> None)"
    by (cases "row_of (on_providers st) pid") (simp_all add: r_def upsert_params_def Let_def mergeSecretField_def)
  have en: "map_of raw ''enabled'' = None \<longrightarrow> op_Enabled r = row_enabled (on_providers st) pid" "map_of raw ''enabled'' = Some JNull \<longrightarrow> \<not> op_Enabled r"
    by (simp_all add: r_def upsert_params_def Let_def boolField_def row_enabled_def split: option.splits)
  have conf: "current_confirmed st2 = onb_confirmed (pd_confirmer P) st2" using i by (simp add: onb_confirmed_def)
  show ?thesis
    apply (intro exI [of _ "provider_view (on_oauth st2) (pd_RedirectBase P) pid m"] exI [of _ st2] exI [of _ r] conjI)
    using run row1 i(1,2) conf m(2) en
    by (auto simp: provider_view_def Let_def sec mergeTextField_spec split: option.splits)
qed

section \<open>Examples\<close>

definition demo_pd :: ProvidersDeps where
  "demo_pd = \<lparr>pd_confirmer = demo_deps, pd_RedirectBase = ''https://api''\<rparr>"

lemma demo_update_pre:
  "authenticateWithBody (pd_confirmer demo_pd) demo_onb (Some (Some True)) [] (parseBody (Some [(''enabled'', JNull)])) (\<lambda>raw. stringField raw ''setup_token'')
     = Inr [(''enabled'', JNull)]"
  "providerIDPattern (ToLower ''google'')" "ToLower ''google'' = ''google''" "distinct (map op_ID (on_providers demo_onb))" "oa_cfg (on_oauth demo_onb) \<noteq> None"
proof -
  show "ToLower ''google'' = ''google''" by (simp add: ToLower_def lower_char_def is_ascii_upper_def byte_def)
  then show "providerIDPattern (ToLower ''google'')"
    by (simp add: providerIDPattern_def slug_char_def is_ascii_lower_def is_ascii_digit_def byte_def)
qed (simp_all add: authenticateWithBody_def authorizeAmbient_def parseBody_def providerBodyKeys_def demo_onb_def demo_oauth_def)

theorem ProvidersHandler_Update_effect_witness:
  "\<exists>v st' r. ProvidersHandler_Update demo_pd (\<lambda>_. False) demo_onb (Some (Some True)) [] ''google'' (Some [(''enabled'', JNull)]) = (ProvOK v, st') \<and>
     row_of (on_providers st') ''google'' = Some r \<and> \<not> op_Enabled r"
  using ProvidersHandler_Update_effect [OF demo_update_pre(1,2) demo_update_pre(3) [symmetric] demo_update_pre(4,5)] by fastforce

theorem onboarding_writes_guarded_witness:
  "\<exists>r st'. ProvidersHandler_Update demo_pd (\<lambda>_. False) demo_onb (Some (Some True)) [] ''google'' (Some [(''enabled'', JNull)]) = (r, st') \<and>
     st' \<noteq> demo_onb \<and> Some (Some True) \<noteq> Some (None :: bool option)"
proof -
  have auth: "authenticateWithBody (pd_confirmer demo_pd) demo_onb (Some (Some True)) [] (parseBody (Some [(''enabled'', JNull)])) (\<lambda>raw. stringField raw ''setup_token'')
     = Inr [(''enabled'', JNull)]" by (rule demo_update_pre(1))
  obtain st1 where up: "UpsertOIDCProvider (upsert_params ''google'' [(''enabled'', JNull)] None) demo_onb = Inr st1" "on_providers st1 \<noteq> []"
    using demo_update_pre(2,3) by (simp add: UpsertOIDCProvider_def upsert_params_def Let_def put_provider_def demo_onb_def)
  obtain e st2 where a: "rebuildAndRefresh demo_pd (\<lambda>_. False) 2 st1 = (e, st2)" by fastforce
  have prov: "on_providers st2 = on_providers st1"
    using a by (auto simp: rebuildAndRefresh_def ApplyDBOverridesToOAuth_def rebuild_def RefreshState_def split: sum.splits)
  have "GetOIDCProvider demo_onb ''google'' = Inl NoRows" by (simp add: GetOIDCProvider_def demo_onb_def)
  then have "\<exists>r. ProvidersHandler_Update demo_pd (\<lambda>_. False) demo_onb (Some (Some True)) [] ''google'' (Some [(''enabled'', JNull)]) = (r, st2)"
    using auth demo_update_pre(2,3) up a
    by (cases e) (simp_all add: ProvidersHandler_Update_def upsertAndRespond_def at_def Let_def split: option.splits sum.splits)
  then obtain r where run: "ProvidersHandler_Update demo_pd (\<lambda>_. False) demo_onb (Some (Some True)) [] ''google'' (Some [(''enabled'', JNull)]) = (r, st2)"
    by blast
  have tok: "[] = stringField (case Some [(''enabled'', JNull)] of Some raw \<Rightarrow> raw | None \<Rightarrow> []) ''setup_token''" by (simp add: stringField_def)
  have ne: "st2 \<noteq> demo_onb" using prov up(2) by (auto simp: demo_onb_def)
  have "Some (Some True) \<noteq> Some (None :: bool option)"
    by (rule conjunct1 [OF onboarding_writes_guarded [OF disjI2 [OF disjI2 [OF disjI1 [OF conjI [OF run tok]]]] ne]])
  with run ne show ?thesis by blast
qed

end
