(* ===== verification/Apps.thy ===== *)
theory Apps
  imports UserAccounts "HOL-Library.Multiset"
begin

text \<open>
  Membership of accounts in applications, \<open>handlers/apps.go\<close>, over the queries of
  \<open>apps_user_accounts\<close>.

  The applications belong to the core module: \<open>GetAppByUUID\<close> is a function over its state. The
  table is read as a finite map from application and account to roles (\<open>membership\<close>), and the
  three statements that write it refine the three operations of the interface \<open>member_store\<close>.
\<close>

section \<open>Types\<close>

record 'c AppsHandler =
  ah_az :: authorize
  ah_GetAppByUUID :: "'c \<Rightarrow> string \<Rightarrow> int query"

datatype app_response =
    AppBadBody
  | AppFields "(string \<times> string) list"
  | AppUnprocessable string string
  | AppError svc_error
  | AppAssigned string string "string list"
  | AppMembers "(int \<times> string list) list"
  | AppRemoved
  | AppRoles string string "string list"

record assignUserRequest =
  ar_UserUUID :: string
  ar_Roles :: "string list option"

definition assignUser_Validate :: "(string \<Rightarrow> string option) \<Rightarrow> assignUserRequest \<Rightarrow> (string \<times> string) list" where
  "assignUser_Validate uuid_Parse r =
     (if ar_UserUUID r = [] then [(''user_uuid'', ''users.user_uuid_required'')]
      else if uuid_Parse (ar_UserUUID r) = None then [(''user_uuid'', ''invalid_uuid'')]
      else [])"

text \<open>\<open>apiresp.ParseUUIDParam\<close> and \<open>server.Decode\<close> with the request's own checks.\<close>

definition uuid_param :: "(string \<Rightarrow> string option) \<Rightarrow> string \<Rightarrow> string \<Rightarrow> (app_response, string) result" where
  "uuid_param uuid_Parse field param =
     (case uuid_Parse param of None \<Rightarrow> Inl (AppFields [(field, ''invalid_uuid'')]) | Some u \<Rightarrow> Inr u)"

definition decode_checked :: "('r \<Rightarrow> (string \<times> string) list) \<Rightarrow> 'r option \<Rightarrow> (app_response, 'r) result" where
  "decode_checked validate body =
     (case body of None \<Rightarrow> Inl AppBadBody | Some req \<Rightarrow> if validate req = [] then Inr req else Inl (AppFields (validate req)))"

section \<open>Handlers\<close>

text \<open>Sites: 1 application, 2 account, 3 statement.\<close>

definition loadApp :: "'c AppsHandler \<Rightarrow> faults \<Rightarrow> 'c db \<Rightarrow> string \<Rightarrow> (app_response, int) result" where
  "loadApp h flt d appUUID =
     (case at flt 1 (ah_GetAppByUUID h (core d) appUUID) of
        Inl NoRows \<Rightarrow> Inl (AppError SvcNotFound)
      | Inl _ \<Rightarrow> Inl (AppError SvcFault)
      | Inr app \<Rightarrow> Inr app)"

definition load_member :: "app_response \<Rightarrow> faults \<Rightarrow> 'c db \<Rightarrow> string \<Rightarrow> (app_response, UserAccount) result" where
  "load_member miss flt d userUUID =
     (case at flt 2 (GetUserAccountByUUID d userUUID) of
        Inl NoRows \<Rightarrow> Inl miss
      | Inl _ \<Rightarrow> Inl (AppError SvcFault)
      | Inr ua \<Rightarrow> Inr ua)"

definition roles_or_empty :: "string list option \<Rightarrow> string list" where
  "roles_or_empty roles = (case roles of None \<Rightarrow> [] | Some rs \<Rightarrow> rs)"

definition AssignUser ::
  "(string \<Rightarrow> string option) \<Rightarrow> 'c AppsHandler \<Rightarrow> faults \<Rightarrow> instant \<Rightarrow> 'c db \<Rightarrow> req_ctx \<Rightarrow> string \<Rightarrow> assignUserRequest option
     \<Rightarrow> app_response \<times> 'c db" where
  "AssignUser uuid_Parse h flt now d ctx param body =
     (case uuid_param uuid_Parse ''uuid'' param of
        Inl r \<Rightarrow> (r, d)
      | Inr appUUID \<Rightarrow>
          (case decode_checked (assignUser_Validate uuid_Parse) body of
             Inl r \<Rightarrow> (r, d)
           | Inr req \<Rightarrow>
               (case ah_az h ctx ''update'' None of
                  Some e \<Rightarrow> (AppError (SvcAuthz e), d)
                | None \<Rightarrow>
                    (case loadApp h flt d appUUID of
                       Inl r \<Rightarrow> (r, d)
                     | Inr appID \<Rightarrow>
                         (case uuid_param uuid_Parse ''user_uuid'' (ar_UserUUID req) of
                            Inl r \<Rightarrow> (r, d)
                          | Inr userUUID \<Rightarrow>
                              (case load_member (AppUnprocessable ''user_uuid'' ''users.user_account_unknown'') flt d userUUID of
                                 Inl r \<Rightarrow> (r, d)
                               | Inr ua \<Rightarrow>
                                   (case at flt 3 (AssignUserAccountToApp d now True appID (ua_ID ua) (roles_or_empty (ar_Roles req))) of
                                      Inl _ \<Rightarrow> (AppError SvcFault, d)
                                    | Inr d' \<Rightarrow> (AppAssigned appUUID (ua_Uuid ua) (roles_or_empty (ar_Roles req)), d'))))))))"

definition ListAppUsers ::
  "(string \<Rightarrow> string option) \<Rightarrow> 'c AppsHandler \<Rightarrow> faults \<Rightarrow> 'c db \<Rightarrow> req_ctx \<Rightarrow> string \<Rightarrow> app_response" where
  "ListAppUsers uuid_Parse h flt d ctx param =
     (case uuid_param uuid_Parse ''uuid'' param of
        Inl r \<Rightarrow> r
      | Inr appUUID \<Rightarrow>
          (case ah_az h ctx ''read'' None of
             Some e \<Rightarrow> AppError (SvcAuthz e)
           | None \<Rightarrow>
               (case loadApp h flt d appUUID of
                  Inl r \<Rightarrow> r
                | Inr appID \<Rightarrow>
                    if flt 3 then AppError SvcFault
                    else AppMembers (map (\<lambda>m. (ap_UserAccountID m, ap_Roles m)) (ListAppUserAccounts d appID)))))"

text \<open>The prefix \<open>RemoveUser\<close> and \<open>UpdateUserRoles\<close> share; the latter decodes its body in between.\<close>

definition member_route ::
  "(string \<Rightarrow> string option) \<Rightarrow> 'c AppsHandler \<Rightarrow> faults \<Rightarrow> 'c db \<Rightarrow> req_ctx \<Rightarrow> string \<Rightarrow> string \<Rightarrow> app_response option
     \<Rightarrow> (app_response, string \<times> int \<times> UserAccount) result" where
  "member_route uuid_Parse h flt d ctx param uparam bad =
     (case uuid_param uuid_Parse ''uuid'' param of
        Inl r \<Rightarrow> Inl r
      | Inr appUUID \<Rightarrow>
          (case uuid_param uuid_Parse ''user_account_uuid'' uparam of
             Inl r \<Rightarrow> Inl r
           | Inr userUUID \<Rightarrow>
               (case bad of
                  Some r \<Rightarrow> Inl r
                | None \<Rightarrow>
                    (case ah_az h ctx ''update'' None of
                       Some e \<Rightarrow> Inl (AppError (SvcAuthz e))
                     | None \<Rightarrow>
                         (case loadApp h flt d appUUID of
                            Inl r \<Rightarrow> Inl r
                          | Inr appID \<Rightarrow>
                              (case load_member (AppError SvcNotFound) flt d userUUID of
                                 Inl r \<Rightarrow> Inl r
                               | Inr ua \<Rightarrow> Inr (appUUID, appID, ua)))))))"

definition RemoveUser ::
  "(string \<Rightarrow> string option) \<Rightarrow> 'c AppsHandler \<Rightarrow> faults \<Rightarrow> 'c db \<Rightarrow> req_ctx \<Rightarrow> string \<Rightarrow> string \<Rightarrow> app_response \<times> 'c db" where
  "RemoveUser uuid_Parse h flt d ctx param uparam =
     (case member_route uuid_Parse h flt d ctx param uparam None of
        Inl r \<Rightarrow> (r, d)
      | Inr (_, appID, ua) \<Rightarrow>
          if flt 3 then (AppError SvcFault, d) else (AppRemoved, RemoveUserAccountFromApp d appID (ua_ID ua)))"

text \<open>\<open>None\<close> is a body that does not decode, \<open>Some None\<close> one whose roles are absent or null.\<close>

definition UpdateUserRoles ::
  "(string \<Rightarrow> string option) \<Rightarrow> 'c AppsHandler \<Rightarrow> faults \<Rightarrow> 'c db \<Rightarrow> req_ctx \<Rightarrow> string \<Rightarrow> string \<Rightarrow> string list option option
     \<Rightarrow> app_response \<times> 'c db" where
  "UpdateUserRoles uuid_Parse h flt d ctx param uparam body =
     (case member_route uuid_Parse h flt d ctx param uparam (if body = None then Some AppBadBody else None) of
        Inl r \<Rightarrow> (r, d)
      | Inr (appUUID, appID, ua) \<Rightarrow>
          let roles = roles_or_empty (Option.bind body id) in
          if flt 3 then (AppError SvcFault, d)
          else (AppRoles appUUID (ua_Uuid ua) roles, SetAppUserAccountRoles d appID (ua_ID ua) roles))"

section \<open>The store of memberships\<close>

text \<open>
  The contract of the three statements over the membership map: assigning keeps what is there,
  setting roles changes only what is there, removing removes.
\<close>

locale member_store =
  fixes look :: "'s \<Rightarrow> 'k \<Rightarrow> 'r option"
    and assign :: "'s \<Rightarrow> 'k \<Rightarrow> 'r \<Rightarrow> 's"
    and set_role :: "'s \<Rightarrow> 'k \<Rightarrow> 'r \<Rightarrow> 's"
    and remove :: "'s \<Rightarrow> 'k \<Rightarrow> 's"
  assumes look_assign: "look (assign s k r) = (case look s k of None \<Rightarrow> (look s)(k \<mapsto> r) | Some _ \<Rightarrow> look s)"
    and look_set: "look (set_role s k r) = (case look s k of None \<Rightarrow> look s | Some _ \<Rightarrow> (look s)(k \<mapsto> r))"
    and look_remove: "look (remove s k) = (look s)(k := None)"
begin

lemma assign_then_set: "look (set_role (assign s k r) k r') = (look s)(k \<mapsto> r')"
  by (simp add: look_assign look_set split: option.split)

lemma first_assign_wins: "look (assign (assign s k r) k r') = look (assign s k r)"
  by (simp add: look_assign split: option.split)

lemma remove_assign: "look (assign (remove s k) k r) = (look s)(k \<mapsto> r)"
  by (simp add: look_assign look_remove)

lemma set_non_member: "look s k = None \<Longrightarrow> look (set_role s k r) = look s"
  by (simp add: look_set)

end

definition membership :: "AppsUserAccount list \<Rightarrow> int \<times> int \<Rightarrow> string list option" where
  "membership ms k = map_option ap_Roles (find (\<lambda>m. (ap_AppID m, ap_UserAccountID m) = k) ms)"

definition assign_row :: "instant \<Rightarrow> AppsUserAccount list \<Rightarrow> int \<times> int \<Rightarrow> string list \<Rightarrow> AppsUserAccount list" where
  "assign_row now ms k roles =
     (if \<exists>m \<in> set ms. (ap_AppID m, ap_UserAccountID m) = k then ms
      else ms @ [\<lparr>ap_AppID = fst k, ap_UserAccountID = snd k, ap_Roles = roles, ap_AssignedAt = now\<rparr>])"

definition set_row :: "AppsUserAccount list \<Rightarrow> int \<times> int \<Rightarrow> string list \<Rightarrow> AppsUserAccount list" where
  "set_row ms k roles = map (\<lambda>m. if (ap_AppID m, ap_UserAccountID m) = k then m\<lparr>ap_Roles := roles\<rparr> else m) ms"

definition remove_row :: "AppsUserAccount list \<Rightarrow> int \<times> int \<Rightarrow> AppsUserAccount list" where
  "remove_row ms k = filter (\<lambda>m. (ap_AppID m, ap_UserAccountID m) \<noteq> k) ms"

lemma membership_None: "membership ms k = None \<longleftrightarrow> (\<forall>m \<in> set ms. (ap_AppID m, ap_UserAccountID m) \<noteq> k)"
  by (auto simp: membership_def find_None_iff)

lemma membership_Nil [simp]: "membership [] k = None"
  by (simp add: membership_def)

lemma membership_Cons [simp]:
  "membership (m # ms) k = (if (ap_AppID m, ap_UserAccountID m) = k then Some (ap_Roles m) else membership ms k)"
  by (simp add: membership_def)

lemma membership_snoc:
  "membership (ms @ [m]) k =
     (case membership ms k of None \<Rightarrow> if (ap_AppID m, ap_UserAccountID m) = k then Some (ap_Roles m) else None | Some r \<Rightarrow> Some r)"
  by (induction ms) auto

lemma membership_set_row:
  "membership (set_row ms k roles) k' = (if k' = k then map_option (\<lambda>_. roles) (membership ms k) else membership ms k')"
  by (induction ms) (auto simp: set_row_def)

lemma membership_remove_row: "membership (remove_row ms k) k' = (if k' = k then None else membership ms k')"
  by (induction ms) (auto simp: remove_row_def)

lemma membership_assign_row:
  "membership (assign_row now ms k roles) =
     (case membership ms k of None \<Rightarrow> (membership ms)(k \<mapsto> roles) | Some _ \<Rightarrow> membership ms)"
proof (cases "membership ms k")
  case None
  then show ?thesis
    by (auto simp: assign_row_def membership_snoc fun_eq_iff split: option.splits dest: iffD1 [OF membership_None])
next
  case (Some r)
  then have "\<exists>m \<in> set ms. (ap_AppID m, ap_UserAccountID m) = k" using membership_None [of ms k] by auto
  with Some show ?thesis by (simp add: assign_row_def)
qed

interpretation members: member_store membership "assign_row now" set_row remove_row for now
  by unfold_locales
    (auto simp: membership_assign_row membership_set_row membership_remove_row fun_eq_iff split: option.splits)

section \<open>Lemmas on the handlers\<close>

text \<open>The statements on the table are the operations of the store.\<close>

lemma AssignUserAccountToApp_row:
  "account_exists d u \<Longrightarrow> AssignUserAccountToApp d now True app u roles =
     Inr (d\<lparr>apps_user_accounts := assign_row now (apps_user_accounts d) (app, u) roles\<rparr>)"
  by (auto simp: AssignUserAccountToApp_def assign_row_def)

lemma RemoveUserAccountFromApp_row:
  "RemoveUserAccountFromApp d app u = d\<lparr>apps_user_accounts := remove_row (apps_user_accounts d) (app, u)\<rparr>"
  by (simp add: RemoveUserAccountFromApp_def remove_row_def)

lemma SetAppUserAccountRoles_row:
  "SetAppUserAccountRoles d app u roles = d\<lparr>apps_user_accounts := set_row (apps_user_accounts d) (app, u) roles\<rparr>"
  by (simp add: SetAppUserAccountRoles_def set_row_def)

lemma loadApp_Inr [simp]: "loadApp h flt d u = Inr app \<longleftrightarrow> \<not> flt 1 \<and> ah_GetAppByUUID h (core d) u = Inr app"
  by (auto simp: loadApp_def at_def split: sum.splits db_error.splits)

lemma load_member_Inr [simp]: "load_member miss flt d u = Inr ua \<longleftrightarrow> \<not> flt 2 \<and> GetUserAccountByUUID d u = Inr ua"
  by (auto simp: load_member_def at_def split: sum.splits db_error.splits)

lemma account_row: "GetUserAccountByUUID d u = Inr ua \<Longrightarrow> account_exists d (ua_ID ua) \<and> ua_Uuid ua = u"
  by (auto simp: GetUserAccountByUUID_def account_exists_def dest!: find_SomeD)

lemma refused_responses [simp]:
  "uuid_param P f p \<noteq> Inl (AppAssigned a u rs)" "uuid_param P f p \<noteq> Inl (AppMembers ms)"
  "decode_checked v b \<noteq> Inl (AppAssigned a u rs)"
  "loadApp h flt d p \<noteq> Inl (AppAssigned a u rs)" "loadApp h flt d p \<noteq> Inl (AppMembers ms)"
  "load_member (AppUnprocessable f c) flt d p \<noteq> Inl (AppAssigned a u rs)"
  by (auto simp: uuid_param_def decode_checked_def loadApp_def load_member_def split: option.splits sum.splits db_error.splits)

lemma member_route_Inl [simp]:
  "member_route P h flt d ctx p up None \<noteq> Inl AppRemoved"
  "member_route P h flt d ctx p up (if b then Some AppBadBody else None) \<noteq> Inl (AppRoles a u rs)"
  by (auto simp: member_route_def uuid_param_def loadApp_def load_member_def split: option.splits sum.splits db_error.splits)

lemma member_route_Inr:
  assumes "member_route P h flt d ctx p up bad = Inr (a, app, ua)"
  shows "ah_az h ctx ''update'' None = None \<and> P p = Some a \<and> ah_GetAppByUUID h (core d) a = Inr app \<and>
    (\<exists>u. P up = Some u \<and> GetUserAccountByUUID d u = Inr ua)"
  using assms by (auto simp: member_route_def uuid_param_def split: option.splits sum.splits)

text \<open>What a successful call was allowed to do, and to whom.\<close>

definition app_call :: "'c AppsHandler \<Rightarrow> 'c db \<Rightarrow> req_ctx \<Rightarrow> string \<Rightarrow> string \<Rightarrow> int \<Rightarrow> int \<Rightarrow> bool" where
  "app_call h d ctx a u app i \<longleftrightarrow> ah_az h ctx ''update'' None = None \<and> ah_GetAppByUUID h (core d) a = Inr app \<and>
     (\<exists>ua. GetUserAccountByUUID d u = Inr ua \<and> ua_ID ua = i)"

lemma AssignUser_ok:
  assumes "AssignUser P h flt now d ctx p body = (AppAssigned a u roles, d')"
  shows "\<exists>app i. app_call h d ctx a u app i \<and>
    d' = d\<lparr>apps_user_accounts := assign_row now (apps_user_accounts d) (app, i) roles\<rparr>"
proof -
  obtain app ua where *: "ah_az h ctx ''update'' None = None" "ah_GetAppByUUID h (core d) a = Inr app"
    "GetUserAccountByUUID d u = Inr ua" "AssignUserAccountToApp d now True app (ua_ID ua) roles = Inr d'"
    using assms unfolding AssignUser_def by (auto split: option.splits sum.splits dest: account_row)
  then show ?thesis using AssignUserAccountToApp_row [of d "ua_ID ua" now app roles] account_row [OF *(3)]
    by (auto simp: app_call_def)
qed

lemma RemoveUser_ok:
  assumes "RemoveUser P h flt d ctx p up = (AppRemoved, d')"
  shows "\<exists>a u app i. P p = Some a \<and> P up = Some u \<and> app_call h d ctx a u app i \<and>
    d' = d\<lparr>apps_user_accounts := remove_row (apps_user_accounts d) (app, i)\<rparr>"
  using assms unfolding RemoveUser_def
  by (fastforce simp: app_call_def RemoveUserAccountFromApp_row dest!: member_route_Inr split: sum.splits if_splits)

lemma UpdateUserRoles_ok:
  assumes "UpdateUserRoles P h flt d ctx p up body = (AppRoles a u roles, d')"
  shows "\<exists>app i. app_call h d ctx a u app i \<and>
    d' = d\<lparr>apps_user_accounts := set_row (apps_user_accounts d) (app, i) roles\<rparr>"
proof -
  obtain app ua where *: "member_route P h flt d ctx p up (if body = None then Some AppBadBody else None) = Inr (a, app, ua)"
    "u = ua_Uuid ua" "d' = SetAppUserAccountRoles d app (ua_ID ua) roles"
    using assms unfolding UpdateUserRoles_def by (auto simp: Let_def split: sum.splits if_splits)
  from member_route_Inr [OF *(1)] *(2,3) show ?thesis
    by (auto simp: app_call_def SetAppUserAccountRoles_row dest: account_row)
qed

lemma failed_unchanged:
  "AssignUser P h flt now d ctx p body = (r, d') \<Longrightarrow> (\<forall>a u rs. r \<noteq> AppAssigned a u rs) \<Longrightarrow> d' = d"
  "RemoveUser P h flt d ctx p up = (r, d') \<Longrightarrow> r \<noteq> AppRemoved \<Longrightarrow> d' = d"
  "UpdateUserRoles P h flt d ctx p up ubody = (r, d') \<Longrightarrow> (\<forall>a u rs. r \<noteq> AppRoles a u rs) \<Longrightarrow> d' = d"
  unfolding AssignUser_def RemoveUser_def UpdateUserRoles_def
  by (auto simp: Let_def split: option.splits sum.splits if_splits)

lemma map_of_members:
  assumes "distinct (map (\<lambda>m. (ap_AppID m, ap_UserAccountID m)) ms)"
  shows "map_of (map (\<lambda>m. (ap_UserAccountID m, ap_Roles m)) (sort_key ap_AssignedAt (filter (\<lambda>m. ap_AppID m = app) ms))) u
    = membership ms (app, u)" (is "map_of ?xs u = _")
proof -
  have d: "distinct (map ap_UserAccountID (filter (\<lambda>m. ap_AppID m = app) ms))"
    using assms by (induction ms) (auto simp: image_iff)
  have "mset (map fst ?xs) = mset (map ap_UserAccountID (filter (\<lambda>m. ap_AppID m = app) ms))"
    by (simp only: map_map o_def fst_conv mset_map mset_sort)
  with d have dx: "distinct (map fst ?xs)" by (metis mset_eq_imp_distinct_iff)
  show ?thesis
  proof (cases "membership ms (app, u)")
    case None
    then have "u \<notin> fst ` set ?xs" by (auto simp: membership_None)
    with None show ?thesis by (simp add: map_of_eq_None_iff)
  next
    case (Some r)
    then obtain m where "m \<in> set ms" "ap_AppID m = app" "ap_UserAccountID m = u" "ap_Roles m = r"
      by (auto simp: membership_def dest!: find_SomeD)
    then have "(u, r) \<in> set ?xs" by force
    with dx Some show ?thesis by (simp add: map_of_eq_Some_iff)
  qed
qed

section \<open>Properties\<close>

lemma app_membership_parts:
  fixes d :: "'c db"
  defines "M \<equiv> \<lambda>d. membership (apps_user_accounts d)"
  shows
    "AssignUser P h flt now d ctx p body = (AppAssigned a u roles, d1) \<Longrightarrow>
       \<exists>app i. app_call h d ctx a u app i \<and> d1 = d\<lparr>apps_user_accounts := apps_user_accounts d1\<rparr> \<and>
         M d1 = (case M d (app, i) of None \<Rightarrow> (M d)((app, i) \<mapsto> roles) | Some _ \<Rightarrow> M d)"
    and "RemoveUser P h flt d ctx p up = (AppRemoved, d2) \<Longrightarrow>
       \<exists>a u app i. P p = Some a \<and> P up = Some u \<and> app_call h d ctx a u app i \<and>
         d2 = d\<lparr>apps_user_accounts := apps_user_accounts d2\<rparr> \<and> M d2 = (M d)((app, i) := None)"
    and "UpdateUserRoles P h flt d ctx p up ubody = (AppRoles a u roles, d3) \<Longrightarrow>
       \<exists>app i. app_call h d ctx a u app i \<and> d3 = d\<lparr>apps_user_accounts := apps_user_accounts d3\<rparr> \<and>
         M d3 = (case M d (app, i) of None \<Rightarrow> M d | Some _ \<Rightarrow> (M d)((app, i) \<mapsto> roles))"
    and "AssignUser P h flt now d ctx p body = (r, d4) \<Longrightarrow> \<forall>a u rs. r \<noteq> AppAssigned a u rs \<Longrightarrow> d4 = d"
    and "RemoveUser P h flt d ctx p up = (r, d5) \<Longrightarrow> r \<noteq> AppRemoved \<Longrightarrow> d5 = d"
    and "UpdateUserRoles P h flt d ctx p up ubody = (r, d6) \<Longrightarrow> \<forall>a u rs. r \<noteq> AppRoles a u rs \<Longrightarrow> d6 = d"
    and "db_ok d \<Longrightarrow> ListAppUsers P h flt d ctx p = AppMembers ms \<Longrightarrow>
       \<exists>a app. ah_az h ctx ''read'' None = None \<and> P p = Some a \<and> ah_GetAppByUUID h (core d) a = Inr app \<and>
         (\<forall>v. map_of ms v = M d (app, v))"
  subgoal unfolding M_def by (drule AssignUser_ok, elim exE conjE, intro exI conjI, assumption) (simp_all add: members.look_assign)
  subgoal unfolding M_def by (drule RemoveUser_ok, elim exE conjE, intro exI conjI, assumption+) (simp_all add: members.look_remove)
  subgoal unfolding M_def by (drule UpdateUserRoles_ok, elim exE conjE, intro exI conjI, assumption) (simp_all add: members.look_set)
  subgoal by (rule failed_unchanged(1))
  subgoal by (rule failed_unchanged(2))
  subgoal by (rule failed_unchanged(3))
  subgoal unfolding M_def ListAppUsers_def
    by (fastforce simp: ListAppUserAccounts_def map_of_members db_ok_def apps_ok_def uuid_param_def
        split: option.splits sum.splits if_splits)
  done


text \<open>
  The routes are no existence probe: as long as the authorizer refuses, the answer is the same
  whatever the database holds, so it tells nothing about applications or accounts.
\<close>

theorem app_routes_no_probe:
  assumes "ah_az h ctx ''update'' None = Some e" "ah_az h ctx ''read'' None = Some e'"
  shows "fst (AssignUser P h flt now d ctx p body) = fst (AssignUser P h flt' now' d' ctx p body)"
    and "fst (RemoveUser P h flt d ctx p up) = fst (RemoveUser P h flt' d' ctx p up)"
    and "fst (UpdateUserRoles P h flt d ctx p up ubody) = fst (UpdateUserRoles P h flt' d' ctx p up ubody)"
    and "ListAppUsers P h flt d ctx p = ListAppUsers P h flt' d' ctx p"
  using assms
  by (auto simp: AssignUser_def RemoveUser_def UpdateUserRoles_def ListAppUsers_def member_route_def
      split: sum.splits option.splits)

section \<open>Examples\<close>

definition demo_apps :: "unit AppsHandler" where
  "demo_apps = \<lparr>ah_az = Authorize (\<lambda>_. Some [1]) (\<lambda>_. False) demo_authz,
     ah_GetAppByUUID = \<lambda>_ a. if a = ''a1'' then Inr 9 else Inl NoRows\<rparr>"


theorem app_routes_no_probe_witness:
  "fst (AssignUser Some demo_apps (\<lambda>_. False) 5 (empty_db ()) empty_ctx ''a1'' (Some \<lparr>ar_UserUUID = ''u1'', ar_Roles = None\<rparr>)) =
   fst (AssignUser Some demo_apps (\<lambda>_. False) 5 (empty_db ()) empty_ctx ''a1'' (Some \<lparr>ar_UserUUID = ''u1'', ar_Roles = None\<rparr>)) \<and>
   (\<forall>d d'. ListAppUsers Some demo_apps (\<lambda>_. False) d empty_ctx ''a1'' = ListAppUsers Some demo_apps (\<lambda>_. False) d' empty_ctx ''a1'')"
proof -
  have "ah_az demo_apps empty_ctx op None = Some ErrUnauthenticated" for op
    by (simp add: demo_apps_def module_authz.no_actor effectiveActor_def empty_ctx_def)
  from app_routes_no_probe(1,4) [OF this this] show ?thesis by blast
qed

end
