(* ===== verification/AccountRoutes.thy ===== *)
theory AccountRoutes
  imports SshKeys Strconv
begin

text \<open>
  The HTTP layer over the account services: \<open>handlers/user_accounts.go\<close>, \<open>handlers/self.go\<close>, the
  list routes of \<open>handlers/ssh_keys.go\<close>, and the two administrator closures and the first-user
  hook, which the composition root builds (\<open>cmd/server/main.go\<close>, \<open>users/hooks.go\<close>).

  A handler checks the path and the body before anything else, then calls its service. The body is
  \<open>None\<close> when it does not decode; a query parameter that is absent is the empty string. Profiles
  and persons belong to the core module and grants to the authorization module: their services are
  functions over the state of those modules.
\<close>

section \<open>Account administration\<close>

record accountView =
  av_uuid :: string
  av_email :: "string option"
  av_email_verified :: bool
  av_created_at :: instant

definition userAccountResponse :: "SvcUserAccount \<Rightarrow> accountView" where
  "userAccountResponse ua = \<lparr>av_uuid = su_UUID ua, av_email = su_Email ua, av_email_verified = su_EmailVerified ua,
     av_created_at = su_CreatedAt ua\<rparr>"

text \<open>The names, the kind and the display name that only \<open>Get\<close> shows.\<close>

record personView =
  pv_given_name :: string
  pv_family_name :: string
  pv_entity_kind :: string
  pv_display_name :: string

datatype acc_response =
    AccBadBody
  | AccFields "(string \<times> string) list"
  | AccError svc_error
  | AccCreated accountView
  | AccUpdated accountView
  | AccDetail accountView "personView option"
  | AccList "accountView list" nat
  | AccNoContent
  | AccUUID string

definition createUserAccount_Validate :: "CreateUserAccountInput \<Rightarrow> (string \<times> string) list" where
  "createUserAccount_Validate r =
     (if TrimSpace (ToLower (ci_Email r)) = [] then [(''email'', ''users.email_required'')] else []) @
     (if TrimSpace (ci_GivenName r) = [] then [(''given_name'', ''users.given_name_required'')] else []) @
     (if TrimSpace (ci_FamilyName r) = [] then [(''family_name'', ''users.family_name_required'')] else []) @
     (case ci_Password r of
        None \<Rightarrow> []
      | Some pw \<Rightarrow> if length pw < 12 then [(''password'', ''users.password_too_short'')] else [])"

definition updateUserAccount_Validate :: "UpdateUserAccountInput \<Rightarrow> (string \<times> string) list" where
  "updateUserAccount_Validate r =
     (if blank (ui_Email r) then [(''email'', ''users.email_required'')] else []) @
     (if blank (ui_GivenName r) then [(''given_name'', ''users.given_name_required'')] else []) @
     (if blank (ui_FamilyName r) then [(''family_name'', ''users.family_name_required'')] else [])"

definition acc_decode :: "('r \<Rightarrow> (string \<times> string) list) \<Rightarrow> 'r option \<Rightarrow> (acc_response, 'r) result" where
  "acc_decode validate body =
     (case body of None \<Rightarrow> Inl AccBadBody | Some req \<Rightarrow> if validate req = [] then Inr req else Inl (AccFields (validate req)))"

definition acc_uuid :: "(string \<Rightarrow> string option) \<Rightarrow> string \<Rightarrow> (acc_response, string) result" where
  "acc_uuid uuid_Parse param =
     (case uuid_Parse param of None \<Rightarrow> Inl (AccFields [(''uuid'', ''invalid_uuid'')]) | Some u \<Rightarrow> Inr u)"

definition UserAccountsHandler_Create ::
  "'c UserAccountService \<Rightarrow> faults \<Rightarrow> instant \<Rightarrow> string \<Rightarrow> 'c db \<Rightarrow> req_ctx \<Rightarrow> CreateUserAccountInput option \<Rightarrow> acc_response \<times> 'c db" where
  "UserAccountsHandler_Create S flt now uuid d ctx body =
     (case acc_decode createUserAccount_Validate body of
        Inl r \<Rightarrow> (r, d)
      | Inr req \<Rightarrow>
          (case Create S flt now uuid d ctx req of
             (Inl e, d', _) \<Rightarrow> (AccError e, d')
           | (Inr ua, d', _) \<Rightarrow> (AccCreated (userAccountResponse ua), d')))"

text \<open>The query parameters \<open>q\<close>, \<open>email\<close>, \<open>limit\<close> and \<open>offset\<close>.\<close>

record list_query =
  lq_q :: string
  lq_email :: string
  lq_limit :: string
  lq_offset :: string

definition list_search :: "list_query \<Rightarrow> string" where
  "list_search q = (if lq_email q \<noteq> [] \<and> lq_q q = [] then lq_email q else lq_q q)"

definition query_int :: "(int \<Rightarrow> bool) \<Rightarrow> int \<Rightarrow> string \<Rightarrow> int" where
  "query_int ok dflt s =
     (if s = [] then dflt else case ParseInt 32 s of None \<Rightarrow> dflt | Some v \<Rightarrow> if ok v then v else dflt)"

definition UserAccountsHandler_List :: "'c UserAccountService \<Rightarrow> faults \<Rightarrow> 'c db \<Rightarrow> req_ctx \<Rightarrow> list_query \<Rightarrow> acc_response" where
  "UserAccountsHandler_List S flt d ctx q =
     (case List S flt d ctx (list_search q) (query_int (\<lambda>v. v > 0) 20 (lq_limit q)) (query_int (\<lambda>v. v \<ge> 0) 0 (lq_offset q)) of
        Inl e \<Rightarrow> AccError e
      | Inr accounts \<Rightarrow> AccList (map userAccountResponse accounts) (length accounts))"

definition account_person :: "SvcUserAccount \<Rightarrow> personView option" where
  "account_person ua =
     (if su_GivenName ua \<noteq> [] \<or> su_FamilyName ua \<noteq> []
      then Some \<lparr>pv_given_name = su_GivenName ua, pv_family_name = su_FamilyName ua, pv_entity_kind = su_EntityKind ua,
                 pv_display_name = TrimSpace (su_GivenName ua @ '' '' @ su_FamilyName ua)\<rparr>
      else None)"

definition UserAccountsHandler_Get ::
  "(string \<Rightarrow> string option) \<Rightarrow> 'c UserAccountService \<Rightarrow> faults \<Rightarrow> 'c db \<Rightarrow> req_ctx \<Rightarrow> string \<Rightarrow> acc_response" where
  "UserAccountsHandler_Get uuid_Parse S flt d ctx param =
     (case acc_uuid uuid_Parse param of
        Inl r \<Rightarrow> r
      | Inr u \<Rightarrow>
          (case Get S flt d ctx u of
             Inl e \<Rightarrow> AccError e
           | Inr ua \<Rightarrow> AccDetail (userAccountResponse ua) (account_person ua)))"

definition UserAccountsHandler_Update ::
  "(string \<Rightarrow> string option) \<Rightarrow> 'c UserAccountService \<Rightarrow> faults \<Rightarrow> instant \<Rightarrow> 'c db \<Rightarrow> req_ctx \<Rightarrow> string \<Rightarrow> UpdateUserAccountInput option
     \<Rightarrow> acc_response \<times> 'c db" where
  "UserAccountsHandler_Update uuid_Parse S flt now d ctx param body =
     (case acc_uuid uuid_Parse param of
        Inl r \<Rightarrow> (r, d)
      | Inr u \<Rightarrow>
          (case acc_decode updateUserAccount_Validate body of
             Inl r \<Rightarrow> (r, d)
           | Inr req \<Rightarrow>
               (case Update S flt now d ctx u req of
                  (Inl e, d') \<Rightarrow> (AccError e, d')
                | (Inr ua, d') \<Rightarrow> (AccUpdated (userAccountResponse ua), d'))))"

definition UserAccountsHandler_Delete ::
  "(string \<Rightarrow> string option) \<Rightarrow> 'c UserAccountService \<Rightarrow> faults \<Rightarrow> 'c db \<Rightarrow> req_ctx \<Rightarrow> string \<Rightarrow> acc_response \<times> 'c db" where
  "UserAccountsHandler_Delete uuid_Parse S flt d ctx param =
     (case acc_uuid uuid_Parse param of
        Inl r \<Rightarrow> (r, d)
      | Inr u \<Rightarrow>
          (case Delete S flt d ctx u of
             (Some e, d') \<Rightarrow> (AccError e, d')
           | (None, d') \<Rightarrow> (AccNoContent, d')))"

section \<open>Administrators\<close>

text \<open>
  The grant service of the authorization module, over its tables: it creates or deletes the wildcard
  grant of an entity, given by its uuid, on an operation.
\<close>

record grant_service =
  CreateWildcardGrant :: "authz_db \<Rightarrow> req_ctx \<Rightarrow> string \<Rightarrow> string \<Rightarrow> (svc_error, authz_db) result"
  DeleteWildcardGrant :: "authz_db \<Rightarrow> req_ctx \<Rightarrow> string \<Rightarrow> string \<Rightarrow> (svc_error, authz_db) result"

text \<open>
  \<open>grantAdminFn\<close> and \<open>revokeAdminFn\<close>: authorize, look the account and its entity up, write.
  The authorizer reads the grants, so it is a function of them. Sites: 0 account, 1 entity.
\<close>

definition admin_entity ::
  "(authz_db \<Rightarrow> authorize) \<Rightarrow> ('c \<Rightarrow> int \<Rightarrow> string query) \<Rightarrow> faults \<Rightarrow> 'c db \<Rightarrow> authz_db \<Rightarrow> req_ctx \<Rightarrow> string \<Rightarrow> (svc_error, string) result" where
  "admin_entity az entity flt d D ctx userAccountUUID =
     (case az D ctx ''manage'' None of
        Some e \<Rightarrow> Inl (SvcAuthz e)
      | None \<Rightarrow>
          (case at flt 0 (GetUserAccountByUUID d userAccountUUID) of
             Inl _ \<Rightarrow> Inl SvcNotFound
           | Inr ua \<Rightarrow>
               (case at flt 1 (entity (core d) (ua_AccountHolder ua)) of
                  Inl _ \<Rightarrow> Inl SvcFault
                | Inr u \<Rightarrow> Inr u)))"

definition grantAdminFn ::
  "(authz_db \<Rightarrow> authorize) \<Rightarrow> ('c \<Rightarrow> int \<Rightarrow> string query) \<Rightarrow> grant_service \<Rightarrow> faults \<Rightarrow> 'c db \<Rightarrow> authz_db \<Rightarrow> req_ctx \<Rightarrow> string
     \<Rightarrow> svc_error option \<times> authz_db" where
  "grantAdminFn az entity gs flt d D ctx uuid =
     (case admin_entity az entity flt d D ctx uuid of
        Inl e \<Rightarrow> (Some e, D)
      | Inr u \<Rightarrow> (case CreateWildcardGrant gs D ctx u ''manage'' of Inl e \<Rightarrow> (Some e, D) | Inr D' \<Rightarrow> (None, D')))"

definition revokeAdminFn ::
  "(authz_db \<Rightarrow> authorize) \<Rightarrow> ('c \<Rightarrow> int \<Rightarrow> string query) \<Rightarrow> grant_service \<Rightarrow> faults \<Rightarrow> 'c db \<Rightarrow> authz_db \<Rightarrow> req_ctx \<Rightarrow> string
     \<Rightarrow> svc_error option \<times> authz_db" where
  "revokeAdminFn az entity gs flt d D ctx uuid =
     (case admin_entity az entity flt d D ctx uuid of
        Inl e \<Rightarrow> (Some e, D)
      | Inr u \<Rightarrow> (case DeleteWildcardGrant gs D ctx u ''manage'' of Inl e \<Rightarrow> (Some e, D) | Inr D' \<Rightarrow> (None, D')))"

text \<open>The two handlers, over the injected closure.\<close>

definition GrantAdmin ::
  "(string \<Rightarrow> string option) \<Rightarrow> (authz_db \<Rightarrow> req_ctx \<Rightarrow> string \<Rightarrow> svc_error option \<times> authz_db) \<Rightarrow> authz_db \<Rightarrow> req_ctx \<Rightarrow> string
     \<Rightarrow> acc_response \<times> authz_db" where
  "GrantAdmin uuid_Parse grantAdmin D ctx param =
     (case acc_uuid uuid_Parse param of
        Inl r \<Rightarrow> (r, D)
      | Inr u \<Rightarrow> (case grantAdmin D ctx u of (Some e, D') \<Rightarrow> (AccError e, D') | (None, D') \<Rightarrow> (AccUUID u, D')))"

definition RevokeAdmin ::
  "(string \<Rightarrow> string option) \<Rightarrow> (authz_db \<Rightarrow> req_ctx \<Rightarrow> string \<Rightarrow> svc_error option \<times> authz_db) \<Rightarrow> authz_db \<Rightarrow> req_ctx \<Rightarrow> string
     \<Rightarrow> acc_response \<times> authz_db" where
  "RevokeAdmin uuid_Parse revokeAdmin D ctx param =
     (case acc_uuid uuid_Parse param of
        Inl r \<Rightarrow> (r, D)
      | Inr u \<Rightarrow> (case revokeAdmin D ctx u of (Some e, D') \<Rightarrow> (AccError e, D') | (None, D') \<Rightarrow> (AccUUID u, D')))"

text \<open>The first-user hook grants without an authorization check, in the name of the new entity.\<close>

definition grantFirstUserWildcard ::
  "grant_service \<Rightarrow> authz_db \<Rightarrow> req_ctx \<Rightarrow> string \<Rightarrow> int \<Rightarrow> svc_error option \<times> authz_db" where
  "grantFirstUserWildcard gs D ctx actorUUID entityID =
     (case CreateWildcardGrant gs D (ctx\<lparr>ctx_actor := Some entityID\<rparr>) actorUUID ''manage'' of
        Inl e \<Rightarrow> (Some e, D)
      | Inr D' \<Rightarrow> (None, D'))"

definition NewFirstUserHook ::
  "('c \<Rightarrow> int \<Rightarrow> string query) \<Rightarrow> grant_service \<Rightarrow> faults \<Rightarrow> 'c db \<Rightarrow> authz_db \<Rightarrow> req_ctx \<Rightarrow> int \<Rightarrow> svc_error option \<times> authz_db" where
  "NewFirstUserHook entity gs flt d D ctx entityID =
     (case at flt 0 (entity (core d) entityID) of
        Inl _ \<Rightarrow> (Some SvcFault, D)
      | Inr u \<Rightarrow> grantFirstUserWildcard gs D ctx u entityID)"

section \<open>The own profile\<close>

text \<open>The core module: the profile of the actor, the entity of a holder, the update of a person.\<close>

record Profile =
  pf_Entity :: string
  pf_Kind :: string
  pf_NaturalPerson :: "(string option \<times> string option) option"
  pf_Corporation :: "string option"
  pf_ServiceAccount :: "string option"

record 'c SelfHandler =
  sf_GetSelf :: "'c \<Rightarrow> req_ctx \<Rightarrow> (svc_error, Profile) result"
  sf_GetEntityByID :: "'c \<Rightarrow> int \<Rightarrow> string query"
  sf_UpdateByEntityUUID :: "'c \<Rightarrow> req_ctx \<Rightarrow> string \<Rightarrow> string option \<Rightarrow> string option \<Rightarrow> (svc_error, 'c) result"

record selfUpdateRequest =
  sr_GivenName :: "string option"
  sr_FamilyName :: "string option"

definition selfUpdate_Validate :: "selfUpdateRequest \<Rightarrow> (string \<times> string) list" where
  "selfUpdate_Validate r =
     (if blank (sr_GivenName r) then [(''given_name'', ''natural_persons.given_name_required'')] else []) @
     (if blank (sr_FamilyName r) then [(''family_name'', ''natural_persons.family_name_required'')] else [])"

record selfView =
  sv_uuid :: string
  sv_entity_uuid :: string
  sv_email :: "string option"
  sv_email_verified_at :: "instant option"
  sv_created_at :: instant
  sv_updated_at :: instant
  sv_names :: "(string \<times> string) list"

definition emailVerifiedAtValue :: "UserAccount \<Rightarrow> instant option" where
  "emailVerifiedAtValue ua = ua_EmailVerifiedAt ua"

definition buildSelfResponse :: "UserAccount \<Rightarrow> Profile \<Rightarrow> selfView" where
  "buildSelfResponse ua profile =
     \<lparr>sv_uuid = ua_Uuid ua, sv_entity_uuid = pf_Entity profile, sv_email = ua_Email ua,
      sv_email_verified_at = emailVerifiedAtValue ua, sv_created_at = ua_CreatedAt ua, sv_updated_at = ua_UpdatedAt ua,
      sv_names =
        (if pf_Kind profile = ''natural_person'' then
           (case pf_NaturalPerson profile of
              Some (given, family) \<Rightarrow> [(''given_name'', text_String given), (''family_name'', text_String family)]
            | None \<Rightarrow> [])
         else if pf_Kind profile = ''corporation'' then
           (case pf_Corporation profile of Some n \<Rightarrow> [(''legal_name'', n)] | None \<Rightarrow> [])
         else if pf_Kind profile = ''service_account'' then
           (case pf_ServiceAccount profile of Some l \<Rightarrow> [(''label'', l)] | None \<Rightarrow> [])
         else [])\<rparr>"

datatype self_response = SelfBadBody | SelfFields "(string \<times> string) list" | SelfError svc_error | SelfOk selfView

text \<open>Sites: 0 account, 1 entity.\<close>

definition SelfHandler_Get :: "'c SelfHandler \<Rightarrow> faults \<Rightarrow> 'c db \<Rightarrow> req_ctx \<Rightarrow> UserContext \<Rightarrow> self_response" where
  "SelfHandler_Get h flt d ctx uc =
     (case at flt 0 (GetUserAccountByID d (uc_UserAccountID uc)) of
        Inl _ \<Rightarrow> SelfError SvcFault
      | Inr ua \<Rightarrow>
          (case sf_GetSelf h (core d) ctx of
             Inl e \<Rightarrow> SelfError e
           | Inr profile \<Rightarrow> SelfOk (buildSelfResponse ua profile)))"

definition self_names ::
  "'c SelfHandler \<Rightarrow> faults \<Rightarrow> 'c db \<Rightarrow> req_ctx \<Rightarrow> UserAccount \<Rightarrow> selfUpdateRequest \<Rightarrow> (svc_error, 'c db) result" where
  "self_names h flt d ctx ua req =
     (if sr_GivenName req \<noteq> None \<or> sr_FamilyName req \<noteq> None then
        (case at flt 1 (sf_GetEntityByID h (core d) (ua_AccountHolder ua)) of
           Inl _ \<Rightarrow> Inl SvcFault
         | Inr entity \<Rightarrow>
             (case sf_UpdateByEntityUUID h (core d) ctx entity (sr_GivenName req) (sr_FamilyName req) of
                Inl e \<Rightarrow> Inl e
              | Inr c' \<Rightarrow> Inr (d\<lparr>core := c'\<rparr>)))
      else Inr d)"

definition SelfHandler_Put ::
  "'c SelfHandler \<Rightarrow> faults \<Rightarrow> 'c db \<Rightarrow> req_ctx \<Rightarrow> UserContext \<Rightarrow> selfUpdateRequest option \<Rightarrow> self_response \<times> 'c db" where
  "SelfHandler_Put h flt d ctx uc body =
     (case body of
        None \<Rightarrow> (SelfBadBody, d)
      | Some req \<Rightarrow>
          if selfUpdate_Validate req \<noteq> [] then (SelfFields (selfUpdate_Validate req), d)
          else
            (case at flt 0 (GetUserAccountByID d (uc_UserAccountID uc)) of
               Inl _ \<Rightarrow> (SelfError SvcFault, d)
             | Inr ua \<Rightarrow>
                 (case self_names h flt d ctx ua req of
                    Inl e \<Rightarrow> (SelfError e, d)
                  | Inr d' \<Rightarrow>
                      (case sf_GetSelf h (core d') ctx of
                         Inl e \<Rightarrow> (SelfError e, d')
                       | Inr profile \<Rightarrow> (SelfOk (buildSelfResponse ua profile), d')))))"

section \<open>Lists of SSH keys\<close>

record sshKeyDTO =
  dto_UUID :: string
  dto_KeyType :: string
  dto_Fingerprint :: string
  dto_PublicKey :: string
  dto_Label :: string
  dto_CreatedAt :: instant

definition toSSHKeyDTO :: "SSHKey \<Rightarrow> sshKeyDTO" where
  "toSSHKeyDTO k = \<lparr>dto_UUID = key_UUID k, dto_KeyType = key_Type k, dto_Fingerprint = key_Fingerprint k,
     dto_PublicKey = key_PublicKey k, dto_Label = key_Label k, dto_CreatedAt = key_CreatedAt k\<rparr>"

datatype key_list_response = KeyListFields "(string \<times> string) list" | KeyListError ssh_error | KeyList "sshKeyDTO list" int

definition parseSSHKeyListPagination :: "string \<Rightarrow> string \<Rightarrow> int \<times> int" where
  "parseSSHKeyListPagination limit offset = (query_int (\<lambda>_. True) 0 limit, query_int (\<lambda>_. True) 0 offset)"

definition key_list :: "'c SSHKeysHandler \<Rightarrow> faults \<Rightarrow> 'c db \<Rightarrow> req_ctx \<Rightarrow> string \<Rightarrow> string \<Rightarrow> string \<Rightarrow> key_list_response" where
  "key_list h flt d ctx accountUUID limit offset =
     (case parseSSHKeyListPagination limit offset of
        (lim, off) \<Rightarrow>
          (case SSHKeyService_List (sh_svc h) flt d ctx accountUUID lim off of
             Inl e \<Rightarrow> KeyListError e
           | Inr (keys, n) \<Rightarrow> KeyList (map toSSHKeyDTO keys) n))"

definition ListSelf ::
  "(string \<Rightarrow> string option) \<Rightarrow> 'c SSHKeysHandler \<Rightarrow> faults \<Rightarrow> 'c db \<Rightarrow> req_ctx \<Rightarrow> UserContext \<Rightarrow> string \<Rightarrow> string \<Rightarrow> key_list_response" where
  "ListSelf uuid_Parse h flt d ctx uc limit offset =
     (case uuid_Parse (uc_UserUUID uc) of
        None \<Rightarrow> KeyListError (SshSvc SvcFault)
      | Some u \<Rightarrow> key_list h flt d ctx u limit offset)"

definition ListForAccount ::
  "(string \<Rightarrow> string option) \<Rightarrow> 'c SSHKeysHandler \<Rightarrow> faults \<Rightarrow> 'c db \<Rightarrow> req_ctx \<Rightarrow> string \<Rightarrow> string \<Rightarrow> string \<Rightarrow> key_list_response" where
  "ListForAccount uuid_Parse h flt d ctx param limit offset =
     (case uuid_Parse param of
        None \<Rightarrow> KeyListFields [(''uuid'', ''invalid_uuid'')]
      | Some u \<Rightarrow> key_list h flt d ctx u limit offset)"

section \<open>Lemmas\<close>

lemma acc_decode_Inr [simp]: "acc_decode v body = Inr req \<longleftrightarrow> body = Some req \<and> v req = []"
  by (auto simp: acc_decode_def split: option.splits)

lemma acc_uuid_Inr [simp]: "acc_uuid P param = Inr u \<longleftrightarrow> P param = Some u"
  by (auto simp: acc_uuid_def split: option.splits)

lemma create_checks_iff: "createUserAccount_Validate r = [] \<longleftrightarrow> create_account_checks r = None"
  by (auto simp: createUserAccount_Validate_def create_account_checks_def canonical_email_def split: option.splits if_splits)

lemma update_checks_iff: "updateUserAccount_Validate r = [] \<longleftrightarrow> update_account_checks r = None"
  by (simp add: updateUserAccount_Validate_def update_account_checks_def)

lemma svc_check_first:
  "create_account_checks r = Some e \<Longrightarrow> \<exists>f c. e = SvcInvalid f c \<and> (f, c) \<in> set (createUserAccount_Validate r)"
  "update_account_checks q = Some e \<Longrightarrow> \<exists>f c. e = SvcInvalid f c \<and> (f, c) \<in> set (updateUserAccount_Validate q)"
  by (auto simp: createUserAccount_Validate_def create_account_checks_def updateUserAccount_Validate_def
      update_account_checks_def canonical_email_def split: if_splits option.splits)

lemma tx_result_not_invalid [simp]: "tx_result e \<noteq> SvcInvalid f c"
  by (simp add: tx_result_def)

lemma Create_invalid: "Create S flt now uuid d ctx r = (Inl (SvcInvalid f c), d', ev) \<Longrightarrow> create_account_checks r \<noteq> None"
  unfolding Create_def Let_def by (auto split: option.splits sum.splits if_splits prod.splits)

lemma Update_invalid: "Update S flt now d ctx uuid r = (Inl (SvcInvalid f c), d') \<Longrightarrow> update_account_checks r \<noteq> None"
  unfolding Update_def authorizeUserAccount_def
  by (auto split: option.splits sum.splits if_splits db_error.splits)

lemma query_int_show:
  "ok i \<Longrightarrow> - (2 ^ 31) \<le> i \<Longrightarrow> i < 2 ^ 31 \<Longrightarrow> query_int ok dflt (show_int i) = i"
  using ParseInt_show_int [of 32 i] by (auto simp: query_int_def show_int_def)

lemma length_List: "List S flt d ctx s lim off = Inr us \<Longrightarrow> length us \<le> 200"
  by (auto simp: List_def SearchUserAccounts_def list_limit_def split: option.splits if_splits)

lemma key_list_KeyList:
  assumes "key_list h flt d ctx u lim off = KeyList ks n"
  obtains ua where "loadAuthorizedAccount (sh_svc h) flt d ctx u ''read'' = Inr ua"
    "ks = map (toSSHKeyDTO \<circ> toSSHKey) (ListActiveSSHPublicKeysByUserAccount d (ua_ID ua)
       (clamp_limit (query_int (\<lambda>_. True) 0 lim)) (nat (query_int (\<lambda>_. True) 0 off)))"
    "n = CountActiveSSHPublicKeysByUserAccount d (ua_ID ua)"
  using assms that
  by (auto simp: key_list_def parseSSHKeyListPagination_def SSHKeyService_List_def split: sum.splits if_splits)

lemma clamp_limit_le: "clamp_limit l \<le> 200"
  by (simp add: clamp_limit_def sshKeyListDefaultLimit_def sshKeyListMaxLimit_def nat_le_iff)

lemma self_names_Inr:
  assumes "self_names h flt d ctx ua req = Inr d'"
  shows "d' = d \<or> (\<exists>e c. sf_GetEntityByID h (core d) (ua_AccountHolder ua) = Inr e \<and>
    sf_UpdateByEntityUUID h (core d) ctx e (sr_GivenName req) (sr_FamilyName req) = Inr c \<and> d' = d\<lparr>core := c\<rparr>)"
  using assms by (auto simp: self_names_def split: sum.splits if_splits)

lemma buildSelfResponse_sel [simp]:
  "sv_uuid (buildSelfResponse ua pf) = ua_Uuid ua" "sv_email (buildSelfResponse ua pf) = ua_Email ua"
  "sv_email_verified_at (buildSelfResponse ua pf) = ua_EmailVerifiedAt ua"
  by (simp_all add: buildSelfResponse_def emailVerifiedAtValue_def)

lemma self_ok_row:
  assumes "SelfHandler_Get h flt d ctx uc = SelfOk v \<or> SelfHandler_Put h flt d ctx uc body = (SelfOk v, d')"
  shows "\<exists>ua pf. GetUserAccountByID d (uc_UserAccountID uc) = Inr ua \<and> v = buildSelfResponse ua pf"
  using assms unfolding SelfHandler_Get_def SelfHandler_Put_def by (auto split: sum.splits option.splits if_splits)

lemma SelfHandler_Put_cases:
  assumes "SelfHandler_Put h flt d ctx uc body = (resp, d')"
  obtains "d' = d"
  | req ua where "body = Some req" "selfUpdate_Validate req = []" "GetUserAccountByID d (uc_UserAccountID uc) = Inr ua"
      "self_names h flt d ctx ua req = Inr d'"
  using assms unfolding SelfHandler_Put_def by (auto split: sum.splits option.splits if_splits)

lemma admin_entity_Inr:
  "admin_entity az entity flt d D ctx uuid = Inr u \<longleftrightarrow> az D ctx ''manage'' None = None \<and> \<not> flt 0 \<and> \<not> flt 1 \<and>
     (\<exists>ua. GetUserAccountByUUID d uuid = Inr ua \<and> entity (core d) (ua_AccountHolder ua) = Inr u)"
  by (auto simp: admin_entity_def at_def split: option.splits sum.splits)

lemma wildcard_authorizes:
  assumes "g \<in> set (grants D)" "g_actor g = actor" "g_target g = None" "satisfiedBy op = Some ops" "g_operation g \<in> set ops"
    "effectiveActor ctx = Some actor" "\<not> flt 0"
  shows "Authorize satisfiedBy flt D ctx op target = None"
proof -
  have "holds_wildcard D actor ops" unfolding holds_wildcard_def using assms(1-3,5) member_of.self by blast
  then show ?thesis using assms(4,6,7) by (simp add: Authorize_def authorizePrelude_def checkWildcardGrant_iff)
qed

section \<open>Properties\<close>

text \<open>
  The account routes check a body before they authorize, with the same outcome as the service's
  own checks: the body passes exactly if the service's checks pass, the error of the service is
  among the ones the route reports, so no invalid-input error of the service reaches a client.
\<close>

theorem account_validation_agrees:
  "createUserAccount_Validate r = [] \<longleftrightarrow> create_account_checks r = None"
  "updateUserAccount_Validate q = [] \<longleftrightarrow> update_account_checks q = None"
  "create_account_checks r = Some e \<Longrightarrow> \<exists>f c. e = SvcInvalid f c \<and> (f, c) \<in> set (createUserAccount_Validate r)"
  "update_account_checks q = Some e \<Longrightarrow> \<exists>f c. e = SvcInvalid f c \<and> (f, c) \<in> set (updateUserAccount_Validate q)"
  "fst (UserAccountsHandler_Create S flt now uuid d ctx body) \<noteq> AccError (SvcInvalid f c)"
  "fst (UserAccountsHandler_Update P S flt now d ctx param ubody) \<noteq> AccError (SvcInvalid f c)"
  subgoal by (rule create_checks_iff)
  subgoal by (rule update_checks_iff)
  subgoal by (rule svc_check_first(1))
  subgoal by (rule svc_check_first(2))
  subgoal by (auto simp: UserAccountsHandler_Create_def acc_decode_def create_checks_iff
        split: sum.splits prod.splits option.splits if_splits dest: Create_invalid)
  subgoal by (auto simp: UserAccountsHandler_Update_def acc_decode_def acc_uuid_def update_checks_iff
        split: sum.splits prod.splits option.splits if_splits dest: Update_invalid)
  done

lemma list_pages_parts:
  "UserAccountsHandler_List S flt d ctx q = AccList vs n \<Longrightarrow> length vs \<le> 200 \<and> n = length vs"
  "key_list h flt d ctx u lim off = KeyList ks m \<Longrightarrow> length ks \<le> 200 \<and> int (length ks) \<le> m"
  "ParseInt 32 (lq_limit q) \<in> {None, Some 0} \<Longrightarrow> UserAccountsHandler_List S flt d ctx q = AccList vs n \<Longrightarrow> length vs \<le> 20"
  "1 \<le> l \<Longrightarrow> l \<le> 200 \<Longrightarrow> 0 \<le> i \<Longrightarrow> i < 2 ^ 31 \<Longrightarrow> authorizeType S ctx ''list'' (us_natural_person S) = None \<Longrightarrow> \<not> flt 1 \<Longrightarrow>
     UserAccountsHandler_List S flt d ctx \<lparr>lq_q = s, lq_email = [], lq_limit = show_int l, lq_offset = show_int i\<rparr> =
       (let rows = SearchUserAccounts d s (nat l) (nat i)
        in AccList (map (\<lambda>ua. userAccountResponse (toUserAccount ua [] [])) rows) (length rows))"
  subgoal by (auto simp: UserAccountsHandler_List_def split: sum.splits dest: length_List)
  subgoal by (erule key_list_KeyList) (use clamp_limit_le in \<open>auto simp: ListActiveSSHPublicKeysByUserAccount_def
        CountActiveSSHPublicKeysByUserAccount_def min_def intro: order.trans\<close>)
  subgoal by (auto simp: UserAccountsHandler_List_def List_def SearchUserAccounts_def list_limit_def query_int_def
        split: sum.splits option.splits if_splits)
  subgoal by (simp add: UserAccountsHandler_List_def List_def list_search_def query_int_show list_limit_def Let_def o_def)
  done


lemma self_routes_parts:
  assumes "GetUserAccountByUUID d (ua_Uuid ua) = Inr ua" "db_ok d" "uc = buildUserContext P flt d ua p"
  shows "SelfHandler_Get h flt d ctx uc = SelfOk v \<or> SelfHandler_Put h flt d ctx uc body = (SelfOk v, d0) \<Longrightarrow>
      sv_uuid v = ua_Uuid ua \<and> sv_email v = ua_Email ua \<and>
      (sv_email_verified_at v \<noteq> None \<longleftrightarrow> RequireVerifiedEmail (contextWithAuthenticatedActor ctx uc) =
         Next (contextWithAuthenticatedActor ctx uc))"
    and "SelfHandler_Put h flt d ctx uc body = (resp, d') \<Longrightarrow> d' = d \<or> (\<exists>req e c. body = Some req \<and> selfUpdate_Validate req = [] \<and>
      sf_GetEntityByID h (core d) (ua_AccountHolder ua) = Inr e \<and>
      sf_UpdateByEntityUUID h (core d) ctx e (sr_GivenName req) (sr_FamilyName req) = Inr c \<and> d' = d\<lparr>core := c\<rparr>)"
proof -
  have row: "GetUserAccountByID d (uc_UserAccountID uc) = Inr ua"
    using assms by (auto simp: GetUserAccountByUUID_def intro: GetUserAccountByID_row dest!: find_SomeD)
  have gate: "RequireVerifiedEmail (contextWithAuthenticatedActor ctx uc) = Next (contextWithAuthenticatedActor ctx uc) \<longleftrightarrow>
      ua_EmailVerifiedAt ua \<noteq> None"
    using assms(3) by (auto simp: RequireVerifiedEmail_def contextWithAuthenticatedActor_def Let_def split: option.splits)
  show "SelfHandler_Get h flt d ctx uc = SelfOk v \<or> SelfHandler_Put h flt d ctx uc body = (SelfOk v, d0) \<Longrightarrow>
      sv_uuid v = ua_Uuid ua \<and> sv_email v = ua_Email ua \<and>
      (sv_email_verified_at v \<noteq> None \<longleftrightarrow> RequireVerifiedEmail (contextWithAuthenticatedActor ctx uc) =
         Next (contextWithAuthenticatedActor ctx uc))"
    unfolding gate using row self_ok_row [of h flt d ctx uc v body d0] by auto
  assume "SelfHandler_Put h flt d ctx uc body = (resp, d')"
  then show "d' = d \<or> (\<exists>req e c. body = Some req \<and> selfUpdate_Validate req = [] \<and>
      sf_GetEntityByID h (core d) (ua_AccountHolder ua) = Inr e \<and>
      sf_UpdateByEntityUUID h (core d) ctx e (sr_GivenName req) (sr_FamilyName req) = Inr c \<and> d' = d\<lparr>core := c\<rparr>)"
  proof (cases rule: SelfHandler_Put_cases)
    case (2 req ua')
    with row have "self_names h flt d ctx ua req = Inr d'" by simp
    from self_names_Inr [OF this] 2(1,2) show ?thesis by blast
  qed simp
qed

text \<open>
  The own profile is the caller's. What \<open>GET\<close> and \<open>PUT /self\<close> show of the account is the
  row of the caller's session, and its verification time is set exactly if the
  routes for verified accounts let the session through. \<open>PUT\<close> changes none of this module's tables;
  it changes the core module only by an update of the entity that holds the caller's account, with the
  names of a valid body, and not at all when the account or the entity cannot be read.
\<close>

theorem self_routes_own_account:
  assumes "GetUserAccountByUUID d (ua_Uuid ua) = Inr ua" "db_ok d" "uc = buildUserContext P flt d ua p"
  shows "(SelfHandler_Get h flt d ctx uc = SelfOk v \<or> SelfHandler_Put h flt d ctx uc body = (SelfOk v, d0) \<longrightarrow>
      sv_uuid v = ua_Uuid ua \<and> sv_email v = ua_Email ua \<and>
      (sv_email_verified_at v \<noteq> None \<longleftrightarrow> RequireVerifiedEmail (contextWithAuthenticatedActor ctx uc) =
         Next (contextWithAuthenticatedActor ctx uc))) \<and>
    (SelfHandler_Put h flt d ctx uc body = (resp, d') \<longrightarrow> d' = d \<or> (\<exists>req e c. body = Some req \<and> selfUpdate_Validate req = [] \<and>
      sf_GetEntityByID h (core d) (ua_AccountHolder ua) = Inr e \<and>
      sf_UpdateByEntityUUID h (core d) ctx e (sr_GivenName req) (sr_FamilyName req) = Inr c \<and> d' = d\<lparr>core := c\<rparr>))"
  by (intro conjI [OF impI] impI) (rule self_routes_parts [OF assms], assumption)+

lemma grant_admin_parts:
  fixes az :: "authz_db \<Rightarrow> authorize" and flt satisfiedBy
  defines "az \<equiv> \<lambda>D. Authorize satisfiedBy flt D"
  assumes "GrantAdmin P (grantAdminFn az entity gs flt' d) D ctx param = (resp, D') \<or>
    RevokeAdmin P (revokeAdminFn az entity gs flt' d) D ctx param = (resp, D')"
  shows "(\<forall>u. resp \<noteq> AccUUID u) \<Longrightarrow> D' = D"
    and "resp = AccUUID u \<Longrightarrow> P param = Some u \<and> Authorize satisfiedBy flt D ctx ''manage'' None = None \<and>
      (\<exists>ua e. GetUserAccountByUUID d u = Inr ua \<and> entity (core d) (ua_AccountHolder ua) = Inr e)"
    and "GrantAdmin P (grantAdminFn az entity gs flt' d) D ctx param = (AccUUID u, D') \<Longrightarrow>
      (\<And>D ctx e D' i. CreateWildcardGrant gs D ctx e ''manage'' = Inr D' \<Longrightarrow> entity (core d) i = Inr e \<Longrightarrow>
        \<exists>g \<in> set (grants D'). g_actor g = i \<and> g_operation g = manageID \<and> g_target g = None) \<Longrightarrow>
      satisfiedBy op = Some ops \<Longrightarrow> manageID \<in> set ops \<Longrightarrow> \<not> flt'' 0 \<Longrightarrow> GetUserAccountByUUID d u = Inr ua \<Longrightarrow>
      effectiveActor ctx' = Some (ua_AccountHolder ua) \<Longrightarrow> Authorize satisfiedBy flt'' D' ctx' op target = None"
  subgoal using assms by (auto simp: GrantAdmin_def RevokeAdmin_def grantAdminFn_def revokeAdminFn_def
        split: sum.splits option.splits prod.splits)
  subgoal using assms by (auto simp: GrantAdmin_def RevokeAdmin_def grantAdminFn_def revokeAdminFn_def acc_uuid_def
        admin_entity_Inr az_def split: sum.splits option.splits prod.splits)
  subgoal premises prems
  proof -
    obtain e where e: "entity (core d) (ua_AccountHolder ua) = Inr e" "CreateWildcardGrant gs D ctx e ''manage'' = Inr D'"
      using prems(1,6) by (auto simp: GrantAdmin_def grantAdminFn_def acc_uuid_def admin_entity_Inr
          split: sum.splits option.splits prod.splits)
    obtain g where "g \<in> set (grants D')" "g_actor g = ua_AccountHolder ua" "g_operation g = manageID" "g_target g = None"
      using prems(2) [OF e(2,1)] by blast
    with prems(3-5,7) show ?thesis by (auto intro!: wildcard_authorizes)
  qed
  done


section \<open>Examples\<close>

theorem account_validation_agrees_witness:
  "\<exists>f c. create_account_checks \<lparr>ci_Email = ''a@b'', ci_Password = Some ''short'', ci_GivenName = ''A'', ci_FamilyName = ''B''\<rparr> = Some (SvcInvalid f c) \<and>
     (f, c) \<in> set (createUserAccount_Validate \<lparr>ci_Email = ''a@b'', ci_Password = Some ''short'', ci_GivenName = ''A'', ci_FamilyName = ''B''\<rparr>)"
proof -
  have "create_account_checks \<lparr>ci_Email = ''a@b'', ci_Password = Some ''short'', ci_GivenName = ''A'', ci_FamilyName = ''B''\<rparr>
      = Some (SvcInvalid ''password'' ''users.password_too_short'')"
    by (simp add: create_account_checks_def canonical_email_def ToLower_def lower_char_def is_ascii_upper_def TrimSpace_def TrimLeft_def TrimRight_def is_space_def byte_def)
  from account_validation_agrees(3) [OF this] this show ?thesis by auto
qed


definition demo_self :: "unit SelfHandler" where
  "demo_self = \<lparr>sf_GetSelf = \<lambda>_ _. Inr \<lparr>pf_Entity = ''e7'', pf_Kind = ''natural_person'', pf_NaturalPerson = Some (Some ''A'', None),
       pf_Corporation = None, pf_ServiceAccount = None\<rparr>,
     sf_GetEntityByID = \<lambda>_ _. Inr ''e7'', sf_UpdateByEntityUUID = \<lambda>c _ _ _ _. Inr c\<rparr>"

theorem self_routes_own_account_witness:
  "\<exists>(d :: unit db) uc v. SelfHandler_Get demo_self (\<lambda>_. False) d empty_ctx uc = SelfOk v \<and> sv_uuid v = ''u1'' \<and>
     RequireVerifiedEmail (contextWithAuthenticatedActor empty_ctx uc) = Next (contextWithAuthenticatedActor empty_ctx uc)"
proof -
  let ?p = "\<lparr>Subject = ''u1'', Issuer = ''urn:mod-users'', Email = [], EmailVerified = False, Roles = [], SudoUserUUID = []\<rparr>"
  obtain d :: "unit db" and u where d: "db_ok d" "user_accounts d = [u]" "ua_ID u = 1" "auth_oidc_identities d = []"
    "GetUserAccountByEmail d ''a@b'' = Inr u" "ua_EmailVerifiedAt u = Some 3" "ua_Uuid u = ''u1''" "ua_AccountHolder u = 7"
    by (rule resolver_demo)
  let ?uc = "buildUserContext Some (\<lambda>_. False) d u ?p"
  obtain v where v: "SelfHandler_Get demo_self (\<lambda>_. False) d empty_ctx ?uc = SelfOk v" "sv_email_verified_at v = Some 3"
    using d by (simp add: SelfHandler_Get_def demo_self_def GetUserAccountByID_def at_def)
  have "GetUserAccountByUUID d (ua_Uuid u) = Inr u" using d(2) by (simp add: GetUserAccountByUUID_def)
  from self_routes_own_account [OF this d(1) refl, THEN conjunct1, rule_format, OF disjI1 [OF v(1)]] v d(7) show ?thesis by auto
qed

text \<open>A grant service over one entity, 7, with operation 1 for \<open>manage\<close>.\<close>

definition demo_grants :: grant_service where
  "demo_grants = \<lparr>CreateWildcardGrant = \<lambda>D _ e _.
       if e = ''e7'' then Inr (D\<lparr>grants := \<lparr>g_actor = 7, g_operation = 1, g_target = None\<rparr> # grants D\<rparr>) else Inl SvcNotFound,
     DeleteWildcardGrant = \<lambda>D _ _ _. Inr (D\<lparr>grants := []\<rparr>)\<rparr>"


end
