(* ===== verification/Server.thy ===== *)
theory Server
  imports Config
begin

text \<open>
  The HTTP server: the cross-origin policy (\<open>server/server.go\<close>) and the routes with their gates, as
  the registrars (\<open>handlers/*_routes.go\<close>, \<open>handlers/auth/routes.go\<close>) and the standalone server
  (\<open>cmd/server/main.go\<close>) mount them.

  A route is a method, a pattern, the middleware in the order it runs, and the name of the handler.
  Which pattern a path matches is the router's business: a request is the method and the pattern the
  router chose. The core module's own check \<open>coreAuthz.RequireAuth\<close>, which every registrar of
  authenticated routes adds, is a parameter. The wiring of the registrars is that of the module
  manifest (\<open>moduleforge.module.yaml\<close>); routers of other modules mounted beside them are not listed.
\<close>

section \<open>The cross-origin policy\<close>

record cors_Options =
  AllowedOrigins :: "string list"
  AllowedMethods :: "string list"
  AllowedHeaders :: "string list"
  ExposedHeaders :: "string list"
  AllowCredentials :: bool
  MaxAge :: int

definition parseOrigins :: "string \<Rightarrow> string list" where
  "parseOrigins raw =
     (if raw = [] then [] else filter (\<lambda>o'. o' \<noteq> []) (map TrimSpace (Split raw (CHR '',''))))"

text \<open>\<open>None\<close>: no cross-origin middleware, so browsers refuse every cross-origin request.\<close>

definition corsOptions :: "Config \<Rightarrow> cors_Options option" where
  "corsOptions cfg =
     (let origins = parseOrigins (srv_CORSOrigins (cfg_Server cfg));
          local = (cfg_DeployMode cfg = DeployModeLocal);
          wildcard = (origins = [] \<and> local \<or> ''*'' \<in> set origins)
      in if \<not> local \<and> list_ex (\<lambda>o'. o' \<noteq> ''*'' \<and> Contains o' ''*'') origins then None
         else if origins = [] \<and> \<not> local then None
         else if wildcard \<and> \<not> local then None
         else Some
           \<lparr>AllowedOrigins = (if wildcard then [''*''] else origins),
            AllowedMethods = [''GET'', ''POST'', ''PUT'', ''DELETE'', ''OPTIONS''],
            AllowedHeaders = [''Accept'', ''Authorization'', ''Content-Type'', ''X-App'', ''X-Request-ID'', ''X-Step-Up-Token''],
            ExposedHeaders = [''X-Request-ID''],
            AllowCredentials = (\<not> wildcard),
            MaxAge = 300\<rparr>)"

section \<open>Routes\<close>

datatype middleware = RequireConfirmed | RequireAuthMw | RequireVerified | ActorOrAnonymous | CoreRequireAuth

record route =
  rt_method :: string
  rt_pattern :: string
  rt_gates :: "middleware list"
  rt_handler :: string

definition Get_route :: "string \<Rightarrow> string \<Rightarrow> route" where
  "Get_route p h = \<lparr>rt_method = ''GET'', rt_pattern = p, rt_gates = [], rt_handler = h\<rparr>"

definition Post_route :: "string \<Rightarrow> string \<Rightarrow> route" where
  "Post_route p h = \<lparr>rt_method = ''POST'', rt_pattern = p, rt_gates = [], rt_handler = h\<rparr>"

definition Put_route :: "string \<Rightarrow> string \<Rightarrow> route" where
  "Put_route p h = \<lparr>rt_method = ''PUT'', rt_pattern = p, rt_gates = [], rt_handler = h\<rparr>"

definition Delete_route :: "string \<Rightarrow> string \<Rightarrow> route" where
  "Delete_route p h = \<lparr>rt_method = ''DELETE'', rt_pattern = p, rt_gates = [], rt_handler = h\<rparr>"

text \<open>\<open>r.Route\<close> with \<open>r.Use\<close>: a prefix before the pattern, middleware before the route's own.\<close>

definition mount :: "string \<Rightarrow> middleware list \<Rightarrow> route list \<Rightarrow> route list" where
  "mount pre mws rs = map (\<lambda>r. r\<lparr>rt_pattern := pre @ rt_pattern r, rt_gates := mws @ rt_gates r\<rparr>) rs"

definition group :: "middleware list \<Rightarrow> route list \<Rightarrow> route list" where
  "group mws rs = mount [] mws rs"

subsection \<open>The registrars\<close>

definition RegisterAccountRoutes :: "route list" where
  "RegisterAccountRoutes = group [CoreRequireAuth]
     [Get_route ''/user-accounts'' ''users.List'',
      Post_route ''/user-accounts'' ''users.Create'',
      Get_route ''/user-accounts/{uuid}'' ''users.Get'',
      Put_route ''/user-accounts/{uuid}'' ''users.Update'',
      Delete_route ''/user-accounts/{uuid}'' ''users.Delete'',
      Post_route ''/user-accounts/{uuid}/grant-admin'' ''users.GrantAdmin'',
      Post_route ''/user-accounts/{uuid}/revoke-admin'' ''users.RevokeAdmin'',
      Post_route ''/user-accounts/{uuid}/assume'' ''assume.Assume'',
      Post_route ''/apps/{uuid}/user-accounts'' ''apps.AssignUser'',
      Get_route ''/apps/{uuid}/user-accounts'' ''apps.ListAppUsers'',
      Delete_route ''/apps/{uuid}/user-accounts/{user_account_uuid}'' ''apps.RemoveUser'',
      Put_route ''/apps/{uuid}/user-accounts/{user_account_uuid}/roles'' ''apps.UpdateUserRoles'']"

definition RegisterSelfGetRoute :: "route list" where
  "RegisterSelfGetRoute = group [CoreRequireAuth] [Get_route ''/self'' ''self.Get'']"

definition RegisterSelfPutRoute :: "route list" where
  "RegisterSelfPutRoute = group [CoreRequireAuth] [Put_route ''/self'' ''self.Put'']"

definition RegisterSelfIdentitiesReadRoute :: "route list" where
  "RegisterSelfIdentitiesReadRoute = group [CoreRequireAuth] [Get_route ''/self/identities'' ''identities.List'']"

definition RegisterSelfIdentitiesWriteRoutes :: "route list" where
  "RegisterSelfIdentitiesWriteRoutes = group [CoreRequireAuth]
     [Post_route ''/self/identities/oidc/{provider}/start'' ''identities.StartLink'',
      Delete_route ''/self/identities/{identity_uuid}'' ''identities.Unlink'',
      Post_route ''/self/credential/password'' ''identities.SetPassword'',
      Delete_route ''/self/credential/password'' ''identities.RemovePassword'',
      Post_route ''/self/credential/step-up'' ''identities.StepUpRequest'',
      Post_route ''/self/credential/step-up/verify'' ''identities.StepUpVerify'']"

definition RegisterSelfSSHKeysReadRoute :: "route list" where
  "RegisterSelfSSHKeysReadRoute = group [CoreRequireAuth] [Get_route ''/self/ssh-keys'' ''sshKeys.ListSelf'']"

definition RegisterSelfSSHKeysWriteRoutes :: "route list" where
  "RegisterSelfSSHKeysWriteRoutes = group [CoreRequireAuth]
     [Post_route ''/self/ssh-keys'' ''sshKeys.RegisterSelf'',
      Delete_route ''/self/ssh-keys/{key_uuid}'' ''sshKeys.RevokeSelf'']"

definition RegisterUserAccountSSHKeyRoutes :: "route list" where
  "RegisterUserAccountSSHKeyRoutes = group [CoreRequireAuth]
     [Get_route ''/user-accounts/{uuid}/ssh-keys'' ''sshKeys.ListForAccount'',
      Post_route ''/user-accounts/{uuid}/ssh-keys'' ''sshKeys.RegisterForAccount'',
      Delete_route ''/user-accounts/{uuid}/ssh-keys/{key_uuid}'' ''sshKeys.RevokeForAccount'']"

definition RegisterOIDCConfigRoutes :: "route list" where
  "RegisterOIDCConfigRoutes =
     [Get_route ''/status'' ''oidcConfig.Status'',
      Post_route ''/confirm'' ''oidcConfig.Confirm'',
      Get_route ''/saved'' ''oidcConfig.Saved'',
      Post_route ''/providers'' ''providers.Create'',
      Get_route ''/providers/{id}'' ''providers.Get'',
      Put_route ''/providers/{id}'' ''providers.Update'',
      Delete_route ''/providers/{id}'' ''providers.Revert'',
      Get_route ''/setup-token'' ''oidcConfig.SetupToken'']"

definition RegisterRoutes :: "route list" where
  "RegisterRoutes =
     [Post_route ''/register'' ''auth.Register'',
      Post_route ''/login'' ''auth.Login'',
      Post_route ''/anonymous'' ''auth.Anonymous'',
      Post_route ''/email-code/request'' ''auth.EmailCodeRequest'',
      Post_route ''/email-code/verify'' ''auth.EmailCodeVerify'',
      Post_route ''/password-reset/request'' ''auth.PasswordResetRequest'',
      Post_route ''/password-reset/confirm'' ''auth.PasswordResetConfirm'',
      Get_route ''/providers'' ''oidc.ListProviders'',
      Get_route ''/oidc/{provider}/start'' ''oidc.Start'',
      Get_route ''/oidc/{provider}/callback'' ''oidc.Callback'']"

text \<open>The registrars under the middleware the manifest gives their entries.\<close>

definition manifest_routes :: "route list" where
  "manifest_routes =
     mount ''/v1/auth'' [RequireConfirmed] RegisterRoutes @
     mount ''/v1/oidc-config'' [] RegisterOIDCConfigRoutes @
     mount ''/v1'' [RequireConfirmed, RequireAuthMw, RequireVerified] RegisterAccountRoutes @
     mount ''/v1'' [RequireConfirmed, RequireAuthMw] RegisterSelfGetRoute @
     mount ''/v1'' [RequireConfirmed, RequireAuthMw, RequireVerified] RegisterSelfPutRoute @
     mount ''/v1'' [RequireConfirmed, RequireAuthMw] RegisterSelfIdentitiesReadRoute @
     mount ''/v1'' [RequireConfirmed, RequireAuthMw, RequireVerified] RegisterSelfIdentitiesWriteRoutes @
     mount ''/v1'' [RequireConfirmed, RequireAuthMw] RegisterSelfSSHKeysReadRoute @
     mount ''/v1'' [RequireConfirmed, RequireAuthMw, RequireVerified] RegisterSelfSSHKeysWriteRoutes @
     mount ''/v1'' [RequireConfirmed, RequireAuthMw, RequireVerified] RegisterUserAccountSSHKeyRoutes"

subsection \<open>The standalone server\<close>

definition main_routes :: "route list" where
  "main_routes =
     mount ''/v1/anonymous-demo'' [RequireConfirmed, ActorOrAnonymous] [Get_route ''/'' ''anonymous-demo''] @
     mount ''/v1'' [RequireConfirmed]
       (group [RequireAuthMw]
         ([Get_route ''/self'' ''self.Get'',
           Get_route ''/self/identities'' ''identities.List'',
           Get_route ''/self/ssh-keys'' ''sshKeys.ListSelf''] @
          group [RequireVerified]
            [Put_route ''/self'' ''self.Put'',
             Post_route ''/self/identities/oidc/{provider}/start'' ''identities.StartLink'',
             Delete_route ''/self/identities/{identity_uuid}'' ''identities.Unlink'',
             Post_route ''/self/credential/password'' ''identities.SetPassword'',
             Delete_route ''/self/credential/password'' ''identities.RemovePassword'',
             Post_route ''/self/credential/step-up'' ''identities.StepUpRequest'',
             Post_route ''/self/credential/step-up/verify'' ''identities.StepUpVerify'',
             Post_route ''/self/ssh-keys'' ''sshKeys.RegisterSelf'',
             Delete_route ''/self/ssh-keys/{key_uuid}'' ''sshKeys.RevokeSelf'',
             Delete_route ''/assume'' ''assume.EndAssume'',
             Get_route ''/user-accounts/{uuid}/ssh-keys'' ''sshKeys.ListForAccount'',
             Post_route ''/user-accounts/{uuid}/ssh-keys'' ''sshKeys.RegisterForAccount'',
             Delete_route ''/user-accounts/{uuid}/ssh-keys/{key_uuid}'' ''sshKeys.RevokeForAccount'']))"

section \<open>Serving a request\<close>

text \<open>What the gates depend on: the onboarding state, the header with what it authenticates to, the
  anonymous actor and the core module's check.\<close>

record request_env =
  rq_state :: BootState
  rq_authHeader :: string
  rq_authd :: "(auth_error, UserContext) result"
  rq_anonActor :: int
  rq_coreAuth :: "req_ctx \<Rightarrow> gate"

fun run_gate :: "request_env \<Rightarrow> middleware \<Rightarrow> req_ctx \<Rightarrow> gate" where
  "run_gate q RequireConfirmed = RequireOIDCConfirmed (rq_state q)"
| "run_gate q RequireAuthMw = RequireAuth (rq_authHeader q) (rq_authd q)"
| "run_gate q RequireVerified = RequireVerifiedEmail"
| "run_gate q ActorOrAnonymous = ResolveActorOrAnonymous (rq_anonActor q) (rq_authHeader q) (rq_authd q)"
| "run_gate q CoreRequireAuth = rq_coreAuth q"

datatype served = NotRouted | Rejected nat string string | Handled string req_ctx

definition serve :: "route list \<Rightarrow> request_env \<Rightarrow> string \<Rightarrow> string \<Rightarrow> served" where
  "serve rs q method pattern =
     (case find (\<lambda>r. rt_method r = method \<and> rt_pattern r = pattern) rs of
        None \<Rightarrow> NotRouted
      | Some r \<Rightarrow>
          (case chain (map (run_gate q) (rt_gates r)) empty_ctx of
             Answer st code msg \<Rightarrow> Rejected st code msg
           | Next ctx \<Rightarrow> Handled (rt_handler r) ctx))"

text \<open>\<open>resolveLogLevel\<close>, with the numeric levels of \<open>log/slog\<close>.\<close>

definition resolveLogLevel :: "string \<Rightarrow> int" where
  "resolveLogLevel level =
     (let l = ToUpper level in
      if l = ''DEBUG'' then -4 else if l = ''WARN'' then 4 else if l = ''ERROR'' then 8 else 0)"

section \<open>Lemmas\<close>

lemma chain_append: "chain (a @ b) ctx = Next c \<Longrightarrow> \<exists>c'. chain a ctx = Next c'"
  by (induction a arbitrary: ctx) (auto split: gate.splits)

lemma chain_take: "chain (map f gs) ctx = Next c \<Longrightarrow> \<exists>c'. chain (map f (take n gs)) ctx = Next c'"
  using chain_append [of "map f (take n gs)" "map f (drop n gs)" ctx c] by (simp flip: map_append)

lemma gates_confirmed: "chain (map (run_gate q) [RequireConfirmed]) ctx = Next c \<Longrightarrow> Confirmed (rq_state q)"
  by (auto simp: RequireOIDCConfirmed_def split: if_splits)

lemma gates_authenticated:
  "chain (map (run_gate q) [RequireConfirmed, RequireAuthMw]) ctx = Next c \<Longrightarrow> Confirmed (rq_state q) \<and> is_ok (rq_authd q)"
  by (auto simp: RequireOIDCConfirmed_def RequireAuth_def is_ok_def split: if_splits sum.splits prod.splits)

lemma gates_verified:
  "chain (map (run_gate q) [RequireConfirmed, RequireAuthMw, RequireVerified]) ctx = Next c \<Longrightarrow>
     Confirmed (rq_state q) \<and> (\<exists>uc. rq_authd q = Inr uc \<and> uc_EmailVerifiedAt uc \<noteq> None)"
  by (auto simp: RequireOIDCConfirmed_def RequireAuth_def RequireVerifiedEmail_def contextWithAuthenticatedActor_def Let_def
      split: if_splits sum.splits prod.splits option.splits)

text \<open>The handlers for clients without a session, before the onboarding, and without a verified address.\<close>

definition public_handlers :: "string list" where
  "public_handlers = map rt_handler RegisterRoutes @ [''anonymous-demo'']"

definition onboarding_handlers :: "string list" where
  "onboarding_handlers = map rt_handler RegisterOIDCConfigRoutes"

definition unverified_handlers :: "string list" where
  "unverified_handlers = [''self.Get'', ''identities.List'', ''sshKeys.ListSelf'']"

definition gates_ok :: "route \<Rightarrow> bool" where
  "gates_ok r \<longleftrightarrow>
     take 3 (rt_gates r) = [RequireConfirmed, RequireAuthMw, RequireVerified] \<or>
     take 2 (rt_gates r) = [RequireConfirmed, RequireAuthMw] \<and> rt_handler r \<in> set unverified_handlers \<or>
     take 1 (rt_gates r) = [RequireConfirmed] \<and> rt_handler r \<in> set public_handlers \<or>
     rt_handler r \<in> set onboarding_handlers"

lemma all_gates_ok: "list_all gates_ok (manifest_routes @ main_routes)"
  by code_simp

lemma serve_Handled:
  assumes "serve rs q m p = Handled h ctx"
  obtains r where "r \<in> set rs" "rt_handler r = h" "rt_method r = m" "rt_pattern r = p"
    "chain (map (run_gate q) (rt_gates r)) empty_ctx = Next ctx"
  using assms that by (auto simp: serve_def split: option.splits gate.splits dest!: find_SomeD)

lemma gates_ok_sound:
  assumes "gates_ok r" "chain (map (run_gate q) (rt_gates r)) empty_ctx = Next ctx"
  shows "rt_handler r \<in> set onboarding_handlers \<or> Confirmed (rq_state q) \<and>
    (rt_handler r \<in> set public_handlers \<or>
     (\<exists>uc. rq_authd q = Inr uc \<and> (uc_EmailVerifiedAt uc \<noteq> None \<or> rt_handler r \<in> set unverified_handlers)))"
proof -
  obtain c where c: "chain (map (run_gate q) (take n (rt_gates r))) empty_ctx = Next (c n)" for n
    using chain_take [OF assms(2)] by metis
  show ?thesis
    using assms(1) gates_confirmed [of q empty_ctx "c 1"] gates_authenticated [of q empty_ctx "c 2"]
      gates_verified [of q empty_ctx "c 3"] c [of 1] c [of 2] c [of 3]
    unfolding gates_ok_def is_ok_iff by (elim disjE conjE) (auto simp del: list.map chain.simps)
qed

lemma setcompr_map: "{f r | r. r \<in> set rs} = set (map f rs)" "{f r | r. r \<in> set rs \<and> P r} = set (map f (filter P rs))"
  by auto

lemma parseOrigins_star:
  assumes "CHR ''*'' \<notin> set raw" "o' \<in> set (parseOrigins raw)"
  shows "CHR ''*'' \<notin> set o'"
proof -
  obtain p where p: "p \<in> set (Split raw (CHR '',''))" "o' = TrimSpace p"
    using assms(2) by (auto simp: parseOrigins_def split: if_splits)
  have "set (TrimSpace p) \<subseteq> set p"
    unfolding TrimSpace_def TrimLeft_def TrimRight_def by (auto dest!: set_dropWhileD)
  then show ?thesis using p assms(1) in_all_splits [of "CHR ''*''" "CHR '',''" raw] by auto
qed

section \<open>Properties\<close>

lemma route_gates_parts:
  "rs \<in> {manifest_routes, main_routes} \<Longrightarrow> serve rs q m p = Handled h ctx \<Longrightarrow>
     h \<in> set onboarding_handlers \<or> Confirmed (rq_state q) \<and>
     (h \<in> set public_handlers \<or>
      (\<exists>uc. rq_authd q = Inr uc \<and> (uc_EmailVerifiedAt uc \<noteq> None \<or> h \<in> {''self.Get'', ''identities.List'', ''sshKeys.ListSelf''})))"
  "{(rt_method r, rt_pattern r, rt_handler r, removeAll CoreRequireAuth (rt_gates r)) | r. r \<in> set main_routes} =
     {(''GET'', ''/v1/anonymous-demo/'', ''anonymous-demo'', [RequireConfirmed, ActorOrAnonymous]),
      (''DELETE'', ''/v1/assume'', ''assume.EndAssume'', [RequireConfirmed, RequireAuthMw, RequireVerified])} \<union>
     {(rt_method r, rt_pattern r, rt_handler r, removeAll CoreRequireAuth (rt_gates r)) | r. r \<in> set manifest_routes \<and>
        rt_handler r \<notin> set (map rt_handler (RegisterAccountRoutes @ RegisterRoutes @ RegisterOIDCConfigRoutes))}"
proof -
  show "h \<in> set onboarding_handlers \<or> Confirmed (rq_state q) \<and>
     (h \<in> set public_handlers \<or>
      (\<exists>uc. rq_authd q = Inr uc \<and> (uc_EmailVerifiedAt uc \<noteq> None \<or> h \<in> {''self.Get'', ''identities.List'', ''sshKeys.ListSelf''})))"
    if rs: "rs \<in> {manifest_routes, main_routes}" and s: "serve rs q m p = Handled h ctx"
  proof -
    obtain r where r: "r \<in> set rs" "rt_handler r = h" "chain (map (run_gate q) (rt_gates r)) empty_ctx = Next ctx"
      using s by (rule serve_Handled)
    have "gates_ok r" using all_gates_ok rs r(1) by (auto simp: list_all_iff)
    from gates_ok_sound [OF this r(3)] r(2) show ?thesis by (simp add: unverified_handlers_def)
  qed
  let ?k = "\<lambda>r. (rt_method r, rt_pattern r, rt_handler r, removeAll CoreRequireAuth (rt_gates r))"
  let ?f = "\<lambda>r. rt_handler r \<notin> set (map rt_handler (RegisterAccountRoutes @ RegisterRoutes @ RegisterOIDCConfigRoutes))"
  have "set (map ?k main_routes) = set ([(''GET'', ''/v1/anonymous-demo/'', ''anonymous-demo'', [RequireConfirmed, ActorOrAnonymous]),
      (''DELETE'', ''/v1/assume'', ''assume.EndAssume'', [RequireConfirmed, RequireAuthMw, RequireVerified])] @ map ?k (filter ?f manifest_routes))"
    by code_simp
  then show "{?k r | r. r \<in> set main_routes} =
     {(''GET'', ''/v1/anonymous-demo/'', ''anonymous-demo'', [RequireConfirmed, ActorOrAnonymous]),
      (''DELETE'', ''/v1/assume'', ''assume.EndAssume'', [RequireConfirmed, RequireAuthMw, RequireVerified])} \<union>
     {?k r | r. r \<in> set manifest_routes \<and> ?f r}"
    unfolding setcompr_map by (simp only: set_append list.set)
qed

text \<open>
  C38. A request reaches a handler only through its gates, in the routes of the manifest and in those
  of the standalone server: the onboarding routes apart, the onboarding is confirmed; the sign-in routes
  (and the anonymous demonstration) apart, the header authenticates an account; and the address of
  that account is verified unless the handler is one of the three that list the own profile,
  identities or keys. The routes of the standalone server under \<open>/v1\<close> are those of the
  manifest's self-service and SSH-key entries, with the same gates up to the registrars' own check,
  and \<open>DELETE /assume\<close>, which no registrar mounts.
\<close>

theorem route_gates:
  "(rs \<in> {manifest_routes, main_routes} \<longrightarrow> serve rs q m p = Handled h ctx \<longrightarrow>
     h \<in> set onboarding_handlers \<or> Confirmed (rq_state q) \<and>
     (h \<in> set public_handlers \<or>
      (\<exists>uc. rq_authd q = Inr uc \<and> (uc_EmailVerifiedAt uc \<noteq> None \<or> h \<in> {''self.Get'', ''identities.List'', ''sshKeys.ListSelf''})))) \<and>
   {(rt_method r, rt_pattern r, rt_handler r, removeAll CoreRequireAuth (rt_gates r)) | r. r \<in> set main_routes} =
     {(''GET'', ''/v1/anonymous-demo/'', ''anonymous-demo'', [RequireConfirmed, ActorOrAnonymous]),
      (''DELETE'', ''/v1/assume'', ''assume.EndAssume'', [RequireConfirmed, RequireAuthMw, RequireVerified])} \<union>
     {(rt_method r, rt_pattern r, rt_handler r, removeAll CoreRequireAuth (rt_gates r)) | r. r \<in> set manifest_routes \<and>
        rt_handler r \<notin> set (map rt_handler (RegisterAccountRoutes @ RegisterRoutes @ RegisterOIDCConfigRoutes))}"
  using route_gates_parts(1) [of rs q m p h ctx] by (intro conjI route_gates_parts(2)) blast

lemma cors_policy_parts:
  "corsOptions cfg = Some opt \<Longrightarrow> AllowCredentials opt \<longleftrightarrow> ''*'' \<notin> set (AllowedOrigins opt)"
  "cfg_DeployMode cfg \<noteq> DeployModeLocal \<Longrightarrow> corsOptions cfg = Some opt \<Longrightarrow>
     AllowedOrigins opt = parseOrigins (srv_CORSOrigins (cfg_Server cfg)) \<and> AllowedOrigins opt \<noteq> [] \<and>
     (\<forall>o' \<in> set (AllowedOrigins opt). CHR ''*'' \<notin> set o')"
  "Load L env flt rnd d = (Inr cfg, d') \<Longrightarrow> cfg_DeployMode cfg \<noteq> DeployModeLocal \<Longrightarrow>
     corsOptions cfg = None \<longleftrightarrow> parseOrigins (srv_CORSOrigins (cfg_Server cfg)) = []"
  "cfg_DeployMode cfg = DeployModeLocal \<Longrightarrow> srv_CORSOrigins (cfg_Server cfg) = ''https://*.x'' \<Longrightarrow>
     \<exists>opt. corsOptions cfg = Some opt \<and> AllowedOrigins opt = [''https://*.x''] \<and> AllowCredentials opt"
  subgoal by (auto simp: corsOptions_def Let_def split: if_splits)
  subgoal by (auto simp: corsOptions_def Let_def list_ex_iff Contains_single split: if_splits)
  subgoal premises prems
  proof -
    obtain s cfg0 where "load_config L env = (cfg0, [])" "cfg = set_secret s cfg0" "validate cfg [] = []"
      by (rule Load_InrE [OF prems(1)])
    then have "CHR ''*'' \<notin> set (srv_CORSOrigins (cfg_Server cfg))"
      using validate_Nil(5) [of cfg "[]"] prems(2) by (simp add: DeployModeLocal_def)
    then have "\<forall>o' \<in> set (parseOrigins (srv_CORSOrigins (cfg_Server cfg))). CHR ''*'' \<notin> set o'"
      using parseOrigins_star by blast
    then show ?thesis using prems(2) by (auto simp: corsOptions_def Let_def list_ex_iff Contains_single)
  qed
  subgoal by (simp add: corsOptions_def Let_def parseOrigins_def Split_no_sep TrimSpace_def TrimLeft_def TrimRight_def is_space_def byte_def)
  done

text \<open>
  Cross-origin requests are denied unless allowed: outside the local mode the policy, if there is
  one, lists only origins of \<open>CORS_ORIGINS\<close> without any wildcard, and a configuration that loads
  gets no policy exactly if it names no origin. The bare wildcard never comes with credentials. In
  the local mode a pattern with a wildcard inside does.
\<close>

theorem cors_policy:
  "(corsOptions cfg = Some opt \<longrightarrow> (AllowCredentials opt \<longleftrightarrow> ''*'' \<notin> set (AllowedOrigins opt))) \<and>
   (cfg_DeployMode cfg \<noteq> DeployModeLocal \<longrightarrow> corsOptions cfg = Some opt \<longrightarrow>
     AllowedOrigins opt = parseOrigins (srv_CORSOrigins (cfg_Server cfg)) \<and> AllowedOrigins opt \<noteq> [] \<and>
     (\<forall>o' \<in> set (AllowedOrigins opt). CHR ''*'' \<notin> set o')) \<and>
   (Load L env flt rnd d = (Inr cfg, d') \<longrightarrow> cfg_DeployMode cfg \<noteq> DeployModeLocal \<longrightarrow>
     (corsOptions cfg = None \<longleftrightarrow> parseOrigins (srv_CORSOrigins (cfg_Server cfg)) = [])) \<and>
   (cfg_DeployMode cfg = DeployModeLocal \<longrightarrow> srv_CORSOrigins (cfg_Server cfg) = ''https://*.x'' \<longrightarrow>
     (\<exists>opt. corsOptions cfg = Some opt \<and> AllowedOrigins opt = [''https://*.x''] \<and> AllowCredentials opt))"
  by (intro conjI [OF impI] impI) (rule cors_policy_parts, assumption+)+

section \<open>Examples\<close>

definition demo_request :: "UserContext \<Rightarrow> request_env" where
  "demo_request uc = \<lparr>rq_state = BootStateConfirmedOK, rq_authHeader = ''Bearer t'', rq_authd = Inr uc, rq_anonActor = 9, rq_coreAuth = Next\<rparr>"

text \<open>An account with an unverified address reads its profile and may not change it.\<close>

theorem route_gates_witness:
  "\<exists>uc ctx. uc_EmailVerifiedAt uc = None \<and> serve main_routes (demo_request uc) ''GET'' ''/v1/self'' = Handled ''self.Get'' ctx \<and>
     (\<nexists>ctx. serve main_routes (demo_request uc) ''PUT'' ''/v1/self'' = Handled ''self.Put'' ctx)"
proof -
  let ?uc = "\<lparr>uc_UserAccountID = 1, uc_UserUUID = ''u1'', uc_EntityID = 7, uc_Email = [], uc_EmailVerifiedAt = None,
     uc_AssumedUser = None, uc_AppID = None, uc_AppRoles = []\<rparr>"
  have get: "\<exists>ctx. serve main_routes (demo_request ?uc) ''GET'' ''/v1/self'' = Handled ''self.Get'' ctx"
    by (simp add: serve_def main_routes_def mount_def group_def Get_route_def demo_request_def RequireOIDCConfirmed_def
        Confirmed_def RequireAuth_def)
  have "serve main_routes (demo_request ?uc) ''PUT'' ''/v1/self'' \<noteq> Handled ''self.Put'' ctx" for ctx
    using route_gates [of main_routes "demo_request ?uc" "''PUT''" "''/v1/self''" "''self.Put''" ctx, THEN conjunct1]
    by (auto simp: demo_request_def onboarding_handlers_def public_handlers_def RegisterRoutes_def RegisterOIDCConfigRoutes_def
        Get_route_def Post_route_def Put_route_def Delete_route_def)
  with get show ?thesis by (intro exI [of _ ?uc]) auto
qed

theorem cors_policy_witness:
  "\<exists>cfg d'. Load demo_libs demo_env (\<lambda>_. False) None (empty_db ()) = (Inr cfg, d') \<and> cfg_DeployMode cfg = ''k8s'' \<and>
     (corsOptions cfg = None \<longleftrightarrow> parseOrigins (srv_CORSOrigins (cfg_Server cfg)) = [])"
proof -
  obtain cfg d' where l: "Load demo_libs demo_env (\<lambda>_. False) None (empty_db ()) = (Inr cfg, d')" using demo_load by blast
  have "case fst (Load demo_libs demo_env (\<lambda>_. False) None (empty_db ())) of Inl _ \<Rightarrow> False | Inr cfg \<Rightarrow> cfg_DeployMode cfg = ''k8s''"
    by code_simp
  then have "cfg_DeployMode cfg = ''k8s''" by (simp add: l)
  with l cors_policy [THEN conjunct2, THEN conjunct2, THEN conjunct1, rule_format, OF l] show ?thesis by (auto simp: DeployModeLocal_def)
qed

end
