(* ===== verification/Email.thy ===== *)
theory Email
  imports StateSigner Strconv
begin

text \<open>
  The outbound mail sender, \<open>email/sender.go\<close>: the checks on a message, the text handed to the relay,
  the dialogue with the relay, and the errors it reports.

  The relay is a parameter: what it answers to each command and which extensions it advertises
  (possibly others after \<open>STARTTLS\<close>). A run yields the commands the relay completed, in order, and
  the error, if any. An I/O error is its text, the code when it is a reply of the relay, and
  whether it is a timeout; the state of the request's context at that moment is part of the answer.
  \<open>mail.ParseAddress\<close> is a parameter that yields the bare address. The goroutine that
  closes the connection on cancellation makes the pending command fail; it needs no step of its own.
\<close>

section \<open>Replacing\<close>

text \<open>\<open>strings.ReplaceAll\<close>.\<close>

function ReplaceAll :: "string \<Rightarrow> string \<Rightarrow> string \<Rightarrow> string" where
  "ReplaceAll s old new =
     (if old = [] then new @ concat (map (\<lambda>c. c # new) s)
      else if HasPrefix s old then new @ ReplaceAll (drop (length old) s) old new
      else (case s of [] \<Rightarrow> [] | c # r \<Rightarrow> c # ReplaceAll r old new))"
  by pat_completeness auto
termination
proof (relation "measure (\<lambda>(s, old, new). length s)")
  fix s old new :: string
  assume "old \<noteq> []" "HasPrefix s old"
  then have "s \<noteq> []" by (auto simp: HasPrefix_def)
  with \<open>old \<noteq> []\<close> show "((drop (length old) s, old, new), s, old, new) \<in> measure (\<lambda>(s, old, new). length s)"
    by simp
qed auto

declare ReplaceAll.simps [simp del]

section \<open>Senders and messages\<close>

definition CR :: char where "CR = CHR 0x0D"
definition LF :: char where "LF = CHR 0x0A"
definition CRLF :: string where "CRLF = [CR, LF]"

definition defaultDialTimeout :: int where "defaultDialTimeout = 10 * second"
definition defaultSendTimeout :: int where "defaultSendTimeout = 30 * second"

record Message =
  msg_To :: string
  msg_Subject :: string
  msg_TextBody :: string
  msg_ReplyTo :: string

record SMTPSender =
  smtp_host :: string
  smtp_port :: int
  smtp_from :: string
  smtp_auth :: "(string \<times> string) option"
  smtp_dialTimeout :: int
  smtp_sendTimeout :: int

type_synonym smtp_option = "SMTPSender \<Rightarrow> SMTPSender"

definition WithDialTimeout :: "int \<Rightarrow> smtp_option" where
  "WithDialTimeout t s = (if t > 0 then s\<lparr>smtp_dialTimeout := t\<rparr> else s)"

definition WithSendTimeout :: "int \<Rightarrow> smtp_option" where
  "WithSendTimeout t s = (if t > 0 then s\<lparr>smtp_sendTimeout := t\<rparr> else s)"

text \<open>A nil option is \<open>None\<close>.\<close>

definition NewSMTPSender :: "string \<Rightarrow> int \<Rightarrow> string \<Rightarrow> string \<Rightarrow> string \<Rightarrow> smtp_option option list \<Rightarrow> SMTPSender" where
  "NewSMTPSender host port from user pass opts =
     fold (\<lambda>opt s. case opt of None \<Rightarrow> s | Some f \<Rightarrow> f s) opts
       \<lparr>smtp_host = host, smtp_port = port, smtp_from = from,
        smtp_auth = (if user \<noteq> [] \<or> pass \<noteq> [] then Some (user, pass) else None),
        smtp_dialTimeout = defaultDialTimeout, smtp_sendTimeout = defaultSendTimeout\<rparr>"

definition normalizeLineEndings :: "string \<Rightarrow> string" where
  "normalizeLineEndings s = ReplaceAll (ReplaceAll s CRLF [LF]) [CR] [LF]"

definition message_text :: "SMTPSender \<Rightarrow> Message \<Rightarrow> string" where
  "message_text s msg =
     ''To: '' @ msg_To msg @ CRLF @
     ''From: '' @ smtp_from s @ CRLF @
     (if msg_ReplyTo msg \<noteq> [] then ''Reply-To: '' @ msg_ReplyTo msg @ CRLF else []) @
     ''Subject: '' @ msg_Subject msg @ CRLF @
     ''MIME-Version: 1.0'' @ CRLF @
     ''Content-Type: text/plain; charset=UTF-8'' @ CRLF @
     CRLF @
     normalizeLineEndings (msg_TextBody msg)"

section \<open>Errors\<close>

record io_error =
  io_text :: string
  io_reply :: "int option"
  io_timeout :: bool
  io_ctxErr :: "string option"
  io_ctxDeadlinePassed :: bool

text \<open>The cause exposed through \<open>Unwrap\<close>: a context error or the I/O error itself.\<close>

datatype cause = CtxCause string | IoCause string

record sendError =
  se_stage :: string
  se_detail :: string
  se_cause :: "cause option"

definition sendError_Error :: "sendError \<Rightarrow> string" where
  "sendError_Error e = ''smtp: '' @ se_stage e @ '': '' @ se_detail e"

definition redacted :: string where "redacted = ''[redacted]''"

definition redact :: "string list \<Rightarrow> string \<Rightarrow> string" where
  "redact secrets detail = fold (\<lambda>s d. if s \<noteq> [] then ReplaceAll d s redacted else d) secrets detail"

definition fail :: "string list \<Rightarrow> string \<Rightarrow> io_error \<Rightarrow> sendError" where
  "fail secrets stage err =
     (case io_ctxErr err of
        Some cerr \<Rightarrow> \<lparr>se_stage = stage, se_detail = cerr, se_cause = Some (CtxCause cerr)\<rparr>
      | None \<Rightarrow>
          if io_timeout err \<and> io_ctxDeadlinePassed err
          then \<lparr>se_stage = stage, se_detail = ''context deadline exceeded'', se_cause = Some (CtxCause ''context deadline exceeded'')\<rparr>
          else
            (case io_reply err of
               Some code \<Rightarrow> \<lparr>se_stage = stage, se_detail = ''server replied '' @ show_int code, se_cause = None\<rparr>
             | None \<Rightarrow>
                 \<lparr>se_stage = stage, se_detail = redact secrets (io_text err),
                  se_cause = (if list_ex (\<lambda>s. s \<noteq> [] \<and> Contains (io_text err) s) secrets then None
                              else Some (IoCause (io_text err)))\<rparr>))"

section \<open>The dialogue with the relay\<close>

datatype smtp_cmd =
    Dial string
  | SetDeadline
  | NewClient
  | Hello string
  | StartTLS string
  | AuthPlain string string
  | MailFrom string
  | RcptTo string
  | DataStart
  | DataWrite string
  | DataClose
  | Quit

record relay =
  rl_answer :: "smtp_cmd \<Rightarrow> io_error option"
  rl_starttls :: bool
  rl_auth :: "bool \<Rightarrow> bool"

text \<open>Run commands until one fails; \<open>Inr\<close> carries the completed ones.\<close>

fun commands :: "string list \<Rightarrow> relay \<Rightarrow> (string \<times> smtp_cmd) list \<Rightarrow> sendError option \<times> smtp_cmd list" where
  "commands secrets rl [] = (None, [])"
| "commands secrets rl ((stage, c) # cs) =
     (case rl_answer rl c of
        Some err \<Rightarrow> (Some (fail secrets stage err), [])
      | None \<Rightarrow> (case commands secrets rl cs of (r, done') \<Rightarrow> (r, c # done')))"

definition seq :: "sendError option \<times> smtp_cmd list \<Rightarrow> (unit \<Rightarrow> sendError option \<times> smtp_cmd list) \<Rightarrow> sendError option \<times> smtp_cmd list" where
  "seq r k = (case r of (Some e, t) \<Rightarrow> (Some e, t) | (None, t) \<Rightarrow> (case k () of (r', t') \<Rightarrow> (r', t @ t')))"

definition JoinHostPort :: "string \<Rightarrow> int \<Rightarrow> string" where
  "JoinHostPort host port =
     (if CHR '':'' \<in> set host then ''['' @ host @ '']:'' @ show_int port else host @ '':'' @ show_int port)"

definition run :: "SMTPSender \<Rightarrow> string list \<Rightarrow> relay \<Rightarrow> string \<Rightarrow> string \<Rightarrow> sendError option \<times> smtp_cmd list" where
  "run s secrets rl to text =
     seq (commands secrets rl [(''dial'', Dial (JoinHostPort (smtp_host s) (smtp_port s))), (''dial'', SetDeadline),
            (''dial'', NewClient), (''dial'', Hello ''localhost'')]) (\<lambda>_.
     seq (if rl_starttls rl then commands secrets rl [(''starttls'', StartTLS (smtp_host s))] else (None, [])) (\<lambda>_.
     seq (case smtp_auth s of
            None \<Rightarrow> (None, [])
          | Some (user, pass) \<Rightarrow>
              if \<not> rl_auth rl (rl_starttls rl)
              then (Some \<lparr>se_stage = ''auth'', se_detail = ''server does not support AUTH'', se_cause = None\<rparr>, [])
              else commands secrets rl [(''auth'', AuthPlain user pass)]) (\<lambda>_.
     commands secrets rl [(''mail'', MailFrom (smtp_from s)), (''rcpt'', RcptTo to), (''data'', DataStart),
       (''data'', DataWrite text), (''data'', DataClose), (''quit'', Quit)])))"

definition invalid :: "string \<Rightarrow> sendError" where
  "invalid detail = \<lparr>se_stage = ''validate'', se_detail = detail, se_cause = None\<rparr>"

definition has_line_break :: "string \<Rightarrow> bool" where
  "has_line_break v \<longleftrightarrow> CR \<in> set v \<or> LF \<in> set v"

definition SendMessage :: "(string \<Rightarrow> string option) \<Rightarrow> SMTPSender \<Rightarrow> relay \<Rightarrow> Message \<Rightarrow> sendError option \<times> smtp_cmd list" where
  "SendMessage ParseAddress s rl msg =
     (if list_ex has_line_break [msg_To msg, msg_Subject msg, msg_ReplyTo msg]
      then (Some (invalid ''header value contains line break''), [])
      else if ParseAddress (msg_To msg) \<noteq> Some (msg_To msg) then (Some (invalid ''invalid recipient address''), [])
      else if msg_ReplyTo msg \<noteq> [] \<and> ParseAddress (msg_ReplyTo msg) = None then (Some (invalid ''invalid reply-to address''), [])
      else run s [msg_To msg, msg_ReplyTo msg, smtp_from s] rl (msg_To msg) (message_text s msg))"

definition Send :: "(string \<Rightarrow> string option) \<Rightarrow> SMTPSender \<Rightarrow> relay \<Rightarrow> string \<Rightarrow> string \<Rightarrow> string \<Rightarrow> sendError option \<times> smtp_cmd list" where
  "Send ParseAddress s rl to subject textBody =
     SendMessage ParseAddress s rl \<lparr>msg_To = to, msg_Subject = subject, msg_TextBody = textBody, msg_ReplyTo = []\<rparr>"

section \<open>Lemmas on replacing\<close>

lemma Contains_iff: "Contains s p \<longleftrightarrow> (\<exists>a b. s = a @ p @ b)"
proof (induction s)
  case Nil
  then show ?case by (simp add: Contains_def)
next
  case (Cons c s)
  have "Contains (c # s) p \<longleftrightarrow> HasPrefix (c # s) p \<or> Contains s p" by (simp add: Contains_def)
  also have "\<dots> \<longleftrightarrow> (\<exists>a b. c # s = a @ p @ b)"
    unfolding Cons.IH HasPrefix_iff by (metis append_Cons append_Nil list.exhaust list.inject)
  finally show ?case .
qed

lemma Contains_set: "Contains s p \<Longrightarrow> set p \<subseteq> set s"
  by (auto simp: Contains_iff)

lemma Contains_left: "Contains a p \<Longrightarrow> Contains (a @ b) p"
  and Contains_right: "Contains b p \<Longrightarrow> Contains (a @ b) p"
  unfolding Contains_iff by (metis append.assoc)+

text \<open>An occurrence of a string without \<open>c\<close> lies on one side of every \<open>c\<close>.\<close>

lemma Contains_around:
  assumes "c \<notin> set p"
  shows "Contains (a @ c # b) p \<longleftrightarrow> Contains a p \<or> Contains b p"
proof
  assume "Contains (a @ c # b) p"
  then obtain x y where "a @ c # b = x @ p @ y" by (auto simp: Contains_iff)
  then show "Contains a p \<or> Contains b p"
    using assms by (auto simp: append_eq_append_conv2 Cons_eq_append_conv Contains_iff) blast+
next
  assume "Contains a p \<or> Contains b p"
  then show "Contains (a @ c # b) p" using Contains_left [of a p "c # b"] Contains_right [of b p "a @ [c]"] by auto
qed

text \<open>An address the redaction is safe for: with an at-sign, and without brackets.\<close>

definition plain :: "string \<Rightarrow> bool" where
  "plain p \<longleftrightarrow> CHR ''@'' \<in> set p \<and> CHR ''['' \<notin> set p \<and> CHR '']'' \<notin> set p"

lemma Contains_redacted:
  assumes "plain p"
  shows "Contains (a @ redacted @ b) p \<longleftrightarrow> Contains a p \<or> Contains b p"
proof -
  let ?w = "''redacted''"
  have "a @ redacted @ b = a @ CHR ''['' # (?w @ CHR '']'' # b)" by (simp add: redacted_def)
  moreover have "\<not> Contains ?w p" using Contains_set [of ?w p] assms by (auto simp: plain_def)
  moreover have "Contains (a @ CHR ''['' # (?w @ CHR '']'' # b)) p \<longleftrightarrow> Contains a p \<or> Contains ?w p \<or> Contains b p"
    using assms Contains_around [of "CHR ''[''" p a "?w @ CHR '']'' # b"] Contains_around [of "CHR '']''" p ?w b] by (simp only: plain_def) blast
  ultimately show ?thesis by presburger
qed

lemma ReplaceAll_prefix: "old \<noteq> [] \<Longrightarrow> ReplaceAll (old @ r) old new = new @ ReplaceAll r old new"
  using ReplaceAll.simps [of "old @ r" old new] by (auto simp: HasPrefix_iff)

lemma ReplaceAll_step: "old \<noteq> [] \<Longrightarrow> \<not> HasPrefix (c # r) old \<Longrightarrow> ReplaceAll (c # r) old new = c # ReplaceAll r old new"
  by (subst ReplaceAll.simps) simp

lemma ReplaceAll_Nil: "old \<noteq> [] \<Longrightarrow> ReplaceAll [] old new = []"
  by (subst ReplaceAll.simps) (simp add: HasPrefix_def)

lemma ReplaceAll_keeps_out:
  "old \<noteq> [] \<Longrightarrow> plain p \<Longrightarrow> Contains (a @ ReplaceAll s old redacted) p \<Longrightarrow> Contains (a @ s) p"
proof (induction "length s" arbitrary: s a rule: less_induct)
  case less
  show ?case
  proof (cases "HasPrefix s old")
    case True
    then obtain r where s: "s = old @ r" by (auto simp: HasPrefix_iff)
    have "Contains (a @ redacted @ ReplaceAll r old redacted) p"
      using less.prems ReplaceAll_prefix [OF less.prems(1)] by (simp add: s)
    then consider "Contains a p" | "Contains ([] @ ReplaceAll r old redacted) p"
      using Contains_redacted [OF less.prems(2)] by auto
    then show ?thesis
    proof cases
      case 2
      then have "Contains ([] @ r) p" using less.hyps [of r "[]"] less.prems(1,2) s by simp
      then show ?thesis using Contains_right [of r p "a @ old"] s by simp
    qed (simp add: Contains_left)
  next
    case False
    then show ?thesis
    proof (cases s)
      case (Cons c r)
      then have "ReplaceAll s old redacted = c # ReplaceAll r old redacted"
        using False less.prems(1) by (simp add: ReplaceAll_step)
      then show ?thesis using less.hyps [of r "a @ [c]"] less.prems Cons by simp
    qed (use less.prems in \<open>simp add: ReplaceAll_Nil\<close>)
  qed
qed

lemma ReplaceAll_removes_aux:
  assumes "plain p" "\<forall>i < length a. \<not> HasPrefix (drop i (a @ s)) p"
  shows "\<not> Contains (a @ ReplaceAll s p redacted) p"
  using assms(2)
proof (induction "length s" arbitrary: s a rule: less_induct)
  case less
  have p: "p \<noteq> []" using assms(1) by (auto simp: plain_def)
  have no_a: "\<not> Contains a p"
  proof
    assume "Contains a p"
    then obtain x y where a: "a = x @ p @ y" by (auto simp: Contains_iff)
    then have "HasPrefix (drop (length x) (a @ s)) p" by (auto simp: HasPrefix_iff)
    moreover have "length x < length a" using p a by simp
    ultimately show False using less.prems by blast
  qed
  show ?case
  proof (cases "HasPrefix s p")
    case True
    then obtain r where s: "s = p @ r" by (auto simp: HasPrefix_iff)
    have "ReplaceAll s p redacted = redacted @ ReplaceAll r p redacted" using ReplaceAll_prefix [OF p] by (simp add: s)
    moreover have "\<not> Contains ([] @ ReplaceAll r p redacted) p" using less.hyps [of r "[]"] s p by simp
    ultimately show ?thesis using Contains_redacted [OF assms(1)] no_a by simp
  next
    case False
    then show ?thesis
    proof (cases s)
      case (Cons c r)
      have "\<forall>i < length (a @ [c]). \<not> HasPrefix (drop i ((a @ [c]) @ r)) p"
        using less.prems False Cons by (auto simp: less_Suc_eq)
      moreover have "length r < length s" by (simp add: Cons)
      ultimately have "\<not> Contains ((a @ [c]) @ ReplaceAll r p redacted) p" by (intro less.hyps)
      then show ?thesis using False p Cons by (simp add: ReplaceAll_step)
    qed (use no_a p in \<open>simp add: ReplaceAll_Nil\<close>)
  qed
qed

lemma ReplaceAll_removes: "plain p \<Longrightarrow> \<not> Contains (ReplaceAll s p redacted) p"
  using ReplaceAll_removes_aux [of p "[]" s] by simp

lemma redact_keeps_out: "plain p \<Longrightarrow> \<not> Contains d p \<Longrightarrow> \<not> Contains (redact secrets d) p"
  by (induction secrets arbitrary: d) (use ReplaceAll_keeps_out [of _ p "[]"] in \<open>auto simp: redact_def\<close>)

lemma redact_removes: "plain p \<Longrightarrow> p \<in> set secrets \<Longrightarrow> \<not> Contains (redact secrets d) p"
proof (induction secrets arbitrary: d)
  case (Cons q secrets)
  have r: "redact (q # secrets) d = redact secrets (if q \<noteq> [] then ReplaceAll d q redacted else d)"
    by (simp add: redact_def)
  show ?case
  proof (cases "p = q")
    case True
    then have "q \<noteq> []" using Cons.prems by (auto simp: plain_def)
    then show ?thesis using r True ReplaceAll_removes redact_keeps_out Cons.prems(1) by simp
  next
    case False
    then show ?thesis using r Cons by simp
  qed
qed simp

section \<open>Lemmas on the sender\<close>

lemma set_ReplaceAll_char: "set (ReplaceAll s [c] new) \<subseteq> (set s - {c}) \<union> set new"
proof (induction s)
  case (Cons d s)
  show ?case
  proof (cases "d = c")
    case True
    then show ?thesis using ReplaceAll_prefix [of "[c]" s new] Cons by auto
  next
    case False
    then have "\<not> HasPrefix (d # s) [c]" by (simp add: HasPrefix_def)
    then show ?thesis using ReplaceAll_step [of "[c]" d s new] Cons False by auto
  qed
qed (simp add: ReplaceAll_Nil)

lemma normalizeLineEndings_no_CR: "CR \<notin> set (normalizeLineEndings s)"
  using set_ReplaceAll_char [of "ReplaceAll s CRLF [LF]" CR "[LF]"] by (auto simp: normalizeLineEndings_def CR_def LF_def)

text \<open>The header lines of a message.\<close>

definition header_lines :: "SMTPSender \<Rightarrow> Message \<Rightarrow> string list" where
  "header_lines s msg =
     [''To: '' @ msg_To msg, ''From: '' @ smtp_from s] @
     (if msg_ReplyTo msg \<noteq> [] then [''Reply-To: '' @ msg_ReplyTo msg] else []) @
     [''Subject: '' @ msg_Subject msg, ''MIME-Version: 1.0'', ''Content-Type: text/plain; charset=UTF-8'']"

lemma message_text_lines:
  "message_text s msg = concat (map (\<lambda>h. h @ CRLF) (header_lines s msg)) @ CRLF @ normalizeLineEndings (msg_TextBody msg)"
  by (simp add: message_text_def header_lines_def)

lemma header_lines_clean:
  assumes "\<not> list_ex has_line_break [msg_To msg, msg_Subject msg, msg_ReplyTo msg]" "\<not> has_line_break (smtp_from s)" "h \<in> set (header_lines s msg)"
  shows "\<not> has_line_break h"
  using assms by (auto simp: header_lines_def has_line_break_def CR_def LF_def split: if_splits)

text \<open>The commands of a complete transaction.\<close>

definition script :: "SMTPSender \<Rightarrow> relay \<Rightarrow> string \<Rightarrow> string \<Rightarrow> smtp_cmd list" where
  "script s rl to text =
     [Dial (JoinHostPort (smtp_host s) (smtp_port s)), SetDeadline, NewClient, Hello ''localhost''] @
     (if rl_starttls rl then [StartTLS (smtp_host s)] else []) @
     (case smtp_auth s of None \<Rightarrow> [] | Some (user, pass) \<Rightarrow> [AuthPlain user pass]) @
     [MailFrom (smtp_from s), RcptTo to, DataStart, DataWrite text, DataClose, Quit]"

text \<open>A sequence of commands completes a prefix of its list, and all of it exactly without an error.\<close>

lemma commands_prefix:
  "commands secrets rl cs = (r, t) \<Longrightarrow>
     (\<exists>n. t = take n (map snd cs)) \<and> (r = None \<longrightarrow> t = map snd cs) \<and>
     (\<forall>e. r = Some e \<longrightarrow> (\<exists>stage c err. (stage, c) \<in> set cs \<and> rl_answer rl c = Some err \<and> e = fail secrets stage err \<and>
        length t < length cs \<and> cs ! length t = (stage, c)))"
proof (induction cs arbitrary: t)
  case (Cons sc cs)
  obtain stage c where sc: "sc = (stage, c)" by (cases sc)
  show ?case
  proof (cases "rl_answer rl c")
    case None
    then obtain t' where t: "commands secrets rl cs = (r, t')" "t = c # t'"
      using Cons.prems sc by (auto split: prod.splits)
    from Cons.IH [OF t(1)] obtain n where "t' = take n (map snd cs)" by blast
    then have "t = take (Suc n) (map snd (sc # cs))" using t(2) sc by simp
    with Cons.IH [OF t(1)] t(2) sc show ?thesis by fastforce
  next
    case (Some err)
    then show ?thesis using Cons.prems sc by (fastforce intro: exI [of _ 0])
  qed
qed auto

lemma seq_commands: "seq (commands secrets rl xs) (\<lambda>_. commands secrets rl ys) = commands secrets rl (xs @ ys)"
  by (induction xs) (auto simp: seq_def split: option.splits prod.splits)

lemma seq_assoc: "seq (seq a (\<lambda>_. b)) (\<lambda>_. c) = seq a (\<lambda>_. seq b (\<lambda>_. c))"
  by (auto simp: seq_def split: option.splits prod.splits)

text \<open>The commands before the message is handed over, and those that hand it over.\<close>

definition prelude_cmds :: "SMTPSender \<Rightarrow> relay \<Rightarrow> (string \<times> smtp_cmd) list" where
  "prelude_cmds s rl =
     [(''dial'', Dial (JoinHostPort (smtp_host s) (smtp_port s))), (''dial'', SetDeadline), (''dial'', NewClient),
      (''dial'', Hello ''localhost'')] @
     (if rl_starttls rl then [(''starttls'', StartTLS (smtp_host s))] else [])"

definition auth_cmds :: "SMTPSender \<Rightarrow> (string \<times> smtp_cmd) list" where
  "auth_cmds s = (case smtp_auth s of None \<Rightarrow> [] | Some (user, pass) \<Rightarrow> [(''auth'', AuthPlain user pass)])"

definition envelope_cmds :: "SMTPSender \<Rightarrow> string \<Rightarrow> (string \<times> smtp_cmd) list" where
  "envelope_cmds s to = [(''mail'', MailFrom (smtp_from s)), (''rcpt'', RcptTo to)]"

definition data_cmds :: "string \<Rightarrow> (string \<times> smtp_cmd) list" where
  "data_cmds text = [(''data'', DataStart), (''data'', DataWrite text), (''data'', DataClose), (''quit'', Quit)]"

lemma script_cmds: "script s rl to text = map snd (prelude_cmds s rl @ auth_cmds s @ envelope_cmds s to @ data_cmds text)"
  by (simp add: script_def prelude_cmds_def auth_cmds_def envelope_cmds_def data_cmds_def split: option.splits)

lemma run_commands:
  assumes "smtp_auth s = None \<or> rl_auth rl (rl_starttls rl)"
  shows "run s secrets rl to text = commands secrets rl (prelude_cmds s rl @ auth_cmds s @ envelope_cmds s to @ data_cmds text)"
proof -
  have "(if rl_starttls rl then commands secrets rl [(''starttls'', StartTLS (smtp_host s))] else (None, [])) =
      commands secrets rl (if rl_starttls rl then [(''starttls'', StartTLS (smtp_host s))] else [])" by simp
  moreover have "(case smtp_auth s of None \<Rightarrow> (None, []) | Some (user, pass) \<Rightarrow>
      if \<not> rl_auth rl (rl_starttls rl) then (Some \<lparr>se_stage = ''auth'', se_detail = ''server does not support AUTH'', se_cause = None\<rparr>, [])
      else commands secrets rl [(''auth'', AuthPlain user pass)]) = commands secrets rl (auth_cmds s)"
    using assms by (auto simp: auth_cmds_def split: option.splits)
  ultimately show ?thesis
    unfolding run_def by (simp only: seq_commands) (simp add: prelude_cmds_def envelope_cmds_def data_cmds_def)
qed

definition no_auth :: sendError where
  "no_auth = \<lparr>se_stage = ''auth'', se_detail = ''server does not support AUTH'', se_cause = None\<rparr>"

lemma run_no_auth:
  assumes "smtp_auth s \<noteq> None" "\<not> rl_auth rl (rl_starttls rl)"
  shows "run s secrets rl to text = seq (commands secrets rl (prelude_cmds s rl)) (\<lambda>_. (Some no_auth, []))"
proof -
  have "(if rl_starttls rl then commands secrets rl [(''starttls'', StartTLS (smtp_host s))] else (None, [])) =
      commands secrets rl (if rl_starttls rl then [(''starttls'', StartTLS (smtp_host s))] else [])" by simp
  moreover have "seq (Some no_auth, []) k = (Some no_auth, [])" for k by (simp add: seq_def)
  moreover obtain user pass where "smtp_auth s = Some (user, pass)" using assms(1) by auto
  ultimately show ?thesis using assms(2)
    unfolding run_def prelude_cmds_def seq_commands [symmetric] seq_assoc by (simp add: no_auth_def)
qed

lemma commands_mem: "commands secrets rl cs = (r, t) \<Longrightarrow> set t \<subseteq> snd ` set cs"
  using commands_prefix [of secrets rl cs r t] by (auto dest: in_set_takeD)

lemma commands_err:
  "commands secrets rl cs = (Some e, t) \<Longrightarrow> \<exists>stage c err. (stage, c) \<in> set cs \<and> rl_answer rl c = Some err \<and> e = fail secrets stage err"
  using commands_prefix [of secrets rl cs "Some e" t] by blast

lemma commands_append:
  "commands secrets rl (xs @ ys) = (r, t) \<Longrightarrow> (\<exists>e. commands secrets rl xs = (Some e, t) \<and> r = Some e) \<or>
     (\<exists>t'. commands secrets rl xs = (None, map snd xs) \<and> commands secrets rl ys = (r, t') \<and> t = map snd xs @ t')"
  using commands_prefix [of secrets rl xs]
  by (auto simp: seq_def simp flip: seq_commands split: option.splits prod.splits)

lemma stage_fail [simp]: "se_stage (fail secrets stage err) = stage"
  by (simp add: fail_def split: option.splits)

definition stages :: "string set" where
  "stages = {''dial'', ''starttls'', ''auth'', ''mail'', ''rcpt'', ''data'', ''quit''}"

text \<open>What the dialogue did: a prefix of the script, whole exactly on success; before the data no data.\<close>

definition trace_ok :: "SMTPSender \<Rightarrow> string list \<Rightarrow> relay \<Rightarrow> string \<Rightarrow> string \<Rightarrow> sendError option \<Rightarrow> smtp_cmd list \<Rightarrow> bool" where
  "trace_ok s secrets rl to text r tr \<longleftrightarrow>
     (\<exists>n. tr = take n (script s rl to text)) \<and> (r = None \<longrightarrow> tr = script s rl to text) \<and>
     (\<forall>e. r = Some e \<longrightarrow> se_stage e \<notin> {''data'', ''quit''} \<longrightarrow> DataStart \<notin> set tr) \<and>
     (\<forall>u p. AuthPlain u p \<in> set tr \<longrightarrow> rl_auth rl (rl_starttls rl)) \<and>
     (\<forall>e. r = Some e \<longrightarrow> e = no_auth \<or> (\<exists>stage c err. rl_answer rl c = Some err \<and> e = fail secrets stage err \<and> stage \<in> stages))"

lemma cmds_sets:
  "DataStart \<notin> snd ` set (prelude_cmds s rl @ auth_cmds s @ envelope_cmds s to)"
  "AuthPlain u p \<notin> snd ` set (prelude_cmds s rl)"
  "AuthPlain u p \<in> snd ` set (prelude_cmds s rl @ auth_cmds s @ envelope_cmds s to @ data_cmds text) \<Longrightarrow> smtp_auth s \<noteq> None"
  "(stage, c) \<in> set (prelude_cmds s rl @ auth_cmds s @ envelope_cmds s to @ data_cmds text) \<Longrightarrow> stage \<in> stages"
  "(stage, c) \<in> set (data_cmds text) \<Longrightarrow> stage \<in> {''data'', ''quit''}"
  by (cases "smtp_auth s"; auto simp: prelude_cmds_def auth_cmds_def envelope_cmds_def data_cmds_def stages_def split: if_splits)+

lemma trace_ok_commands:
  assumes "commands secrets rl (prelude_cmds s rl @ auth_cmds s @ envelope_cmds s to @ data_cmds text) = (r, tr)"
    and "smtp_auth s = None \<or> rl_auth rl (rl_starttls rl)"
  shows "trace_ok s secrets rl to text r tr"
proof -
  note p = commands_prefix [OF assms(1)] and mem = commands_mem [OF assms(1)]
  have data: "DataStart \<notin> set tr" if e: "r = Some e" "se_stage e \<notin> {''data'', ''quit''}" for e
  proof -
    have "commands secrets rl ((prelude_cmds s rl @ auth_cmds s @ envelope_cmds s to) @ data_cmds text) = (Some e, tr)"
      using assms(1) e(1) by simp
    from commands_append [OF this] consider "commands secrets rl (prelude_cmds s rl @ auth_cmds s @ envelope_cmds s to) = (Some e, tr)"
      | t' where "commands secrets rl (data_cmds text) = (Some e, t')" by auto
    then show ?thesis
    proof cases
      case 1
      then show ?thesis using commands_mem cmds_sets(1) by blast
    next
      case 2
      then show ?thesis using commands_err [OF 2] cmds_sets(5) e(2) by (metis stage_fail)
    qed
  qed
  have err: "\<exists>stage c err. rl_answer rl c = Some err \<and> e = fail secrets stage err \<and> stage \<in> stages" if "r = Some e" for e
    using assms(1) commands_err cmds_sets(4) that by blast
  show ?thesis
    unfolding trace_ok_def script_cmds using p data err mem assms(2) cmds_sets(3) by blast
qed

lemma trace_ok_no_auth:
  assumes "run s secrets rl to text = (r, tr)" "smtp_auth s \<noteq> None" "\<not> rl_auth rl (rl_starttls rl)"
  shows "trace_ok s secrets rl to text r tr"
proof -
  obtain r' where c: "commands secrets rl (prelude_cmds s rl) = (r', tr)" "r = (case r' of None \<Rightarrow> Some no_auth | Some e \<Rightarrow> Some e)"
    using assms(1) unfolding run_no_auth [OF assms(2,3)] by (auto simp: seq_def split: prod.splits option.splits)
  obtain n where "tr = take n (map snd (prelude_cmds s rl))" using commands_prefix [OF c(1)] by blast
  then have pre: "tr = take (min n (length (prelude_cmds s rl))) (script s rl to text)" by (auto simp: script_cmds min_def)
  have mem: "DataStart \<notin> set tr" "AuthPlain u p \<notin> set tr" for u p
    using commands_mem [OF c(1)] cmds_sets(1) [of s rl to] cmds_sets(2) [of u p s rl] by auto
  have "e = no_auth \<or> (\<exists>stage c err. rl_answer rl c = Some err \<and> e = fail secrets stage err \<and> stage \<in> stages)" if "r = Some e" for e
  proof (cases r')
    case (Some e')
    then have "commands secrets rl (prelude_cmds s rl) = (Some e, tr)" using c that by simp
    then show ?thesis using commands_err [of secrets rl "prelude_cmds s rl" e tr] cmds_sets(4) [of _ _ s rl to "text"] by fastforce
  qed (use c(2) that in simp)
  moreover have "r \<noteq> None" using c(2) by (cases r') auto
  ultimately show ?thesis unfolding trace_ok_def using pre mem by blast
qed

lemma run_trace: "run s secrets rl to text = (r, tr) \<Longrightarrow> trace_ok s secrets rl to text r tr"
  using trace_ok_commands trace_ok_no_auth run_commands by metis

lemma run_not_validate: "run s secrets rl to text = (Some e, tr) \<Longrightarrow> se_stage e \<noteq> ''validate''"
proof -
  assume "run s secrets rl to text = (Some e, tr)"
  then have "e = no_auth \<or> (\<exists>stage c err. rl_answer rl c = Some err \<and> e = fail secrets stage err \<and> stage \<in> stages)"
    using run_trace unfolding trace_ok_def by blast
  then show ?thesis by (auto simp: no_auth_def stages_def)
qed

lemma SendMessage_validate:
  assumes "SendMessage P s rl msg = (Some e, tr)" "se_stage e = ''validate''"
  shows "e = invalid ''header value contains line break'' \<or> e = invalid ''invalid recipient address'' \<or>
      e = invalid ''invalid reply-to address''"
  using assms run_not_validate unfolding SendMessage_def by (auto split: if_splits)

lemma SendMessage_run:
  assumes "SendMessage P s rl msg = (r, tr)" "tr \<noteq> [] \<or> r = None \<or> (\<exists>e. r = Some e \<and> se_stage e \<noteq> ''validate'')"
  shows "run s [msg_To msg, msg_ReplyTo msg, smtp_from s] rl (msg_To msg) (message_text s msg) = (r, tr) \<and>
    \<not> list_ex has_line_break [msg_To msg, msg_Subject msg, msg_ReplyTo msg] \<and> P (msg_To msg) = Some (msg_To msg)"
  using assms unfolding SendMessage_def by (auto simp: invalid_def split: if_splits)

lemma trace_auth:
  assumes "trace_ok s secrets rl to text r tr" "AuthPlain u p \<in> set tr"
  shows "smtp_auth s = Some (u, p) \<and> rl_auth rl (rl_starttls rl)"
proof -
  have "AuthPlain u p \<in> set (script s rl to text)" using assms by (auto simp: trace_ok_def dest: in_set_takeD)
  then have "smtp_auth s = Some (u, p)" by (auto simp: script_def split: if_splits option.splits)
  with assms show ?thesis by (auto simp: trace_ok_def)
qed

text \<open>The credentials come after the encryption that the relay advertises.\<close>

lemma script_auth_after_tls:
  assumes "rl_starttls rl" "AuthPlain u p \<in> set (take n (script s rl to text))"
  shows "StartTLS (smtp_host s) \<in> set (takeWhile (\<lambda>c. c \<noteq> AuthPlain u p) (take n (script s rl to text)))"
proof -
  obtain rest where s: "script s rl to text = [Dial (JoinHostPort (smtp_host s) (smtp_port s)), SetDeadline, NewClient,
      Hello ''localhost'', StartTLS (smtp_host s)] @ rest"
    using assms(1) by (simp add: script_def)
  have "5 < n" using assms(2) unfolding s by (rule contrapos_pp) (auto simp: take_Cons' split: if_splits)
  then obtain m where "n = Suc (Suc (Suc (Suc (Suc m))))" by (auto dest!: less_imp_Suc_add simp: numeral_eq_Suc)
  then show ?thesis unfolding s by simp
qed

text \<open>What the redaction protects: a string with an at-sign, without brackets and spaces.\<close>

definition address_like :: "string \<Rightarrow> bool" where
  "address_like p \<longleftrightarrow> plain p \<and> CHR '' '' \<notin> set p"

definition cause_text :: "cause \<Rightarrow> string" where
  "cause_text c = (case c of CtxCause t \<Rightarrow> t | IoCause t \<Rightarrow> t)"

lemma no_at: "address_like p \<Longrightarrow> CHR ''@'' \<notin> set s \<Longrightarrow> \<not> Contains s p"
  using Contains_set [of s p] by (auto simp: address_like_def plain_def)

lemma Contains_Error:
  assumes "address_like p" "CHR ''@'' \<notin> set (se_stage e)" "\<not> Contains (se_detail e) p"
  shows "\<not> Contains (sendError_Error e) p"
proof -
  have "sendError_Error e = (''smtp: '' @ se_stage e @ '':'') @ CHR '' '' # se_detail e" by (simp add: sendError_Error_def)
  moreover have "\<not> Contains (''smtp: '' @ se_stage e @ '':'') p" using assms(1,2) by (intro no_at) auto
  ultimately show ?thesis using assms(1,3) Contains_around [of "CHR '' ''" p] by (simp only: address_like_def) blast
qed

lemma Error_no_at: "address_like p \<Longrightarrow> CHR ''@'' \<notin> set (se_stage e) \<Longrightarrow> CHR ''@'' \<notin> set (se_detail e) \<Longrightarrow> \<not> Contains (sendError_Error e) p"
  by (intro Contains_Error no_at)

lemma show_int_no_at: "CHR ''@'' \<notin> set (show_int i)"
  using show_nat_digits [of "CHR ''@''"] by (auto simp: show_int_def is_ascii_digit_def byte_def)

definition ctx_texts :: "string list" where
  "ctx_texts = [''context canceled'', ''context deadline exceeded'']"

lemma fail_private:
  assumes "address_like p" "p \<in> set secrets" "\<And>t. io_ctxErr err = Some t \<Longrightarrow> t \<in> set ctx_texts"
  shows "\<not> Contains (se_detail (fail secrets stage err)) p"
    and "se_cause (fail secrets stage err) = Some c \<Longrightarrow> \<not> Contains (cause_text c) p"
proof -
  have ctx: "\<not> Contains t p" if "t \<in> set ctx_texts" for t
    using assms(1) by (rule no_at) (use that in \<open>auto simp: ctx_texts_def\<close>)
  have reply: "\<not> Contains (''server replied '' @ show_int code) p" for code
    using assms(1) show_int_no_at by (intro no_at) auto
  have "plain p" "p \<noteq> []" using assms(1) by (auto simp: address_like_def plain_def)
  then have red: "\<not> Contains (redact secrets d) p" for d using redact_removes assms(2) by blast
  have deadline: "''context deadline exceeded'' \<in> set ctx_texts" by (simp add: ctx_texts_def)
  show "\<not> Contains (se_detail (fail secrets stage err)) p"
    using ctx reply red assms(3) deadline by (auto simp: fail_def split: option.splits)
  show "\<not> Contains (cause_text c) p" if "se_cause (fail secrets stage err) = Some c"
    using that ctx assms(2,3) deadline \<open>p \<noteq> []\<close>
    by (auto simp: fail_def cause_text_def list_ex_iff split: option.splits if_splits)
qed

section \<open>Properties\<close>

text \<open>
  C39. What the sender tells the relay. Whatever the relay answers, the commands it completed are a prefix
  of one script, and success means all of it: greeting, encryption if the relay advertises it, credentials
  if there are any (only if the relay advertises them, and after the encryption), the sender, the one
  recipient, the message. An error of an earlier stage means that no message was begun. The
  recipient is a bare address, and the message consists of the intended header lines, none of which
  has a line break, an empty line and a body without carriage returns: no field can add a header.
\<close>

theorem SendMessage_delivery:
  assumes "SendMessage P s rl msg = (r, tr)" "\<not> has_line_break (smtp_from s)"
  shows "(\<exists>n. tr = take n (script s rl (msg_To msg) (message_text s msg))) \<and>
    (r = None \<longrightarrow> tr = script s rl (msg_To msg) (message_text s msg)) \<and>
    (\<forall>e. r = Some e \<longrightarrow> se_stage e \<notin> {''data'', ''quit''} \<longrightarrow> DataStart \<notin> set tr) \<and>
    (\<forall>u p. AuthPlain u p \<in> set tr \<longrightarrow> smtp_auth s = Some (u, p) \<and> rl_auth rl (rl_starttls rl) \<and>
      (rl_starttls rl \<longrightarrow> StartTLS (smtp_host s) \<in> set (takeWhile (\<lambda>c. c \<noteq> AuthPlain u p) tr))) \<and>
    (tr \<noteq> [] \<longrightarrow> P (msg_To msg) = Some (msg_To msg) \<and> (\<forall>h \<in> set (header_lines s msg). \<not> has_line_break h) \<and>
      (\<exists>body. CR \<notin> set body \<and>
        message_text s msg = concat (map (\<lambda>h. h @ CRLF) (header_lines s msg)) @ CRLF @ body))"
proof (cases "tr = [] \<and> (\<exists>e. r = Some e \<and> se_stage e = ''validate'')")
  case True
  then show ?thesis by (auto intro: exI [of _ 0])
next
  case False
  then have m: "run s [msg_To msg, msg_ReplyTo msg, smtp_from s] rl (msg_To msg) (message_text s msg) = (r, tr)"
    "\<not> list_ex has_line_break [msg_To msg, msg_Subject msg, msg_ReplyTo msg]" "P (msg_To msg) = Some (msg_To msg)"
    using SendMessage_run [OF assms(1)] by (cases r; auto)+
  note t = run_trace [OF m(1)]
  obtain n where n: "tr = take n (script s rl (msg_To msg) (message_text s msg))" using t by (auto simp: trace_ok_def)
  have "smtp_auth s = Some (u, p) \<and> rl_auth rl (rl_starttls rl) \<and>
      (rl_starttls rl \<longrightarrow> StartTLS (smtp_host s) \<in> set (takeWhile (\<lambda>c. c \<noteq> AuthPlain u p) tr))" if "AuthPlain u p \<in> set tr" for u p
    using trace_auth [OF t that] script_auth_after_tls that unfolding n by blast
  moreover have "\<forall>h \<in> set (header_lines s msg). \<not> has_line_break h" using header_lines_clean [OF m(2) assms(2)] by blast
  moreover have "\<exists>body. CR \<notin> set body \<and> message_text s msg = concat (map (\<lambda>h. h @ CRLF) (header_lines s msg)) @ CRLF @ body"
    using message_text_lines normalizeLineEndings_no_CR by blast
  ultimately show ?thesis using t m(3) unfolding trace_ok_def by blast
qed


section \<open>Examples\<close>

text \<open>A relay with encryption that refuses the recipient and echoes the address.\<close>

definition demo_relay :: relay where
  "demo_relay = \<lparr>rl_answer = \<lambda>c. if c = RcptTo ''a@b'' then Some \<lparr>io_text = ''lost a@b'', io_reply = None, io_timeout = False,
       io_ctxErr = None, io_ctxDeadlinePassed = False\<rparr> else None, rl_starttls = True, rl_auth = \<lambda>tls. tls\<rparr>"

definition demo_sender :: SMTPSender where
  "demo_sender = NewSMTPSender ''h'' 25 ''x@y'' ''u'' ''p'' [None, Some (WithSendTimeout 5)]"

definition demo_message :: "string \<Rightarrow> Message" where
  "demo_message to = \<lparr>msg_To = to, msg_Subject = ''s'', msg_TextBody = ''t'', msg_ReplyTo = []\<rparr>"

lemmas email_demo = SendMessage_def demo_relay_def demo_sender_def demo_message_def NewSMTPSender_def WithSendTimeout_def
  run_commands prelude_cmds_def auth_cmds_def envelope_cmds_def data_cmds_def has_line_break_def CR_def LF_def

theorem SendMessage_delivery_witness:
  "\<exists>tr. SendMessage Some demo_sender demo_relay (demo_message ''c@d'') = (None, tr) \<and>
     StartTLS ''h'' \<in> set (takeWhile (\<lambda>c. c \<noteq> AuthPlain ''u'' ''p'') tr)"
proof -
  obtain tr where r: "SendMessage Some demo_sender demo_relay (demo_message ''c@d'') = (None, tr)" "AuthPlain ''u'' ''p'' \<in> set tr"
    by (simp add: email_demo)
  have "\<not> has_line_break (smtp_from demo_sender)" "rl_starttls demo_relay" "smtp_host demo_sender = ''h''"
    by (simp_all add: email_demo)
  with SendMessage_delivery [OF r(1)] r show ?thesis by auto
qed


end
