(* ===== verification/Journeys.thy ===== *)
theory Journeys
  imports UserAccounts
begin

text \<open>
  The components in sequence: the e-mail addresses that every writer of accounts keeps canonical, what
  a registration, a mailed code and a mailed reset link lead to, and registrations that run at the
  same time on an empty system.
\<close>

section \<open>Canonical addresses\<close>

definition stored_address :: "string option \<Rightarrow> bool" where
  "stored_address a = (case a of None \<Rightarrow> True | Some e \<Rightarrow> canonical_email e = e \<and> e \<noteq> [])"

lemma stored_address_simps [simp]: "stored_address None"
  "stored_address (Some (canonical_email e)) \<longleftrightarrow> canonical_email e \<noteq> []"
  "stored_address (text_nonempty (canonical_email e))"
  by (simp_all add: stored_address_def text_nonempty_def)

text \<open>A write that adds no address but a canonical one.\<close>

definition canon_write :: "'c db \<Rightarrow> 'c db \<Rightarrow> bool" where
  "canon_write d d' \<longleftrightarrow> db_write d d' \<and>
     (\<forall>u \<in> set (user_accounts d'). ua_Email u \<in> ua_Email ` set (user_accounts d) \<or> stored_address (ua_Email u))"

definition addresses_inv :: "'c db \<Rightarrow> bool" where
  "addresses_inv d \<longleftrightarrow> db_ok d \<and> (\<forall>u \<in> set (user_accounts d). stored_address (ua_Email u))"

lemma canon_write_inv: "canon_write d d' \<Longrightarrow> addresses_inv d \<Longrightarrow> addresses_inv d'"
  unfolding canon_write_def addresses_inv_def by (metis db_write_ok imageE)

lemma canon_create:
  assumes "CreateUserAccount d now uuid h e v = Inr (u, d')" "stored_address e"
  shows "canon_write d d'"
  using CreateUserAccount_Inr [OF assms(1)] assms db_write.create_account [OF assms(1)] by (auto simp: canon_write_def)

lemma canon_update:
  assumes "UpdateUserAccount d now i e v = Inr d'" "stored_address e \<or> e \<in> ua_Email ` set (user_accounts d)"
  shows "canon_write d d'"
  using UpdateUserAccount_rows [OF assms(1)] assms(2) db_write.update_account [OF assms(1)] by (auto simp: canon_write_def)

text \<open>A write to another table.\<close>

lemma canon_other: "db_write d d' \<Longrightarrow> user_accounts d' = user_accounts d \<Longrightarrow> canon_write d d'"
  by (auto simp: canon_write_def)

lemma canon_core [simp]: "canon_write d (d\<lparr>core := c\<rparr>)"
  by (rule canon_other) (auto intro: db_write.core_write)

lemma canon_upsert: "UpsertAuthLocal d now i hash = Inr d' \<Longrightarrow> canon_write d d'"
  by (rule canon_other) (auto intro: db_write.upsert_local dest: UpsertAuthLocal_effect(4))

lemma canon_anon: "CreateAnonToken d now uuid device token u expires = Inr (a, d') \<Longrightarrow> canon_write d d'"
  by (rule canon_other [OF db_write.create_anon]) (auto simp: CreateAnonToken_def Let_def split: if_splits)

lemma canon_identity: "InsertOIDCIdentity d now uuid u iss sub e v = Inr (x, d') \<Longrightarrow> canon_write d d'"
  by (rule canon_other) (auto intro: db_write.insert_identity dest: InsertOIDCIdentity_frame)

lemma canon_upgrade: "canon_write\<^sup>*\<^sup>* d (upgrade ua e d)"
  by (auto simp: upgrade_def DeleteAnonTokensByUserAccountID_def
      intro!: r_into_rtranclp [where r = canon_write] canon_other db_write.delete_anon)

lemma canon1: "canon_write d d' \<Longrightarrow> canon_write\<^sup>*\<^sup>* d d'"
  by (rule r_into_rtranclp)

lemma canon_after: "canon_write d d' \<Longrightarrow> canon_write\<^sup>*\<^sup>* d' d'' \<Longrightarrow> canon_write\<^sup>*\<^sup>* d d''"
  by (rule converse_rtranclp_into_rtranclp)

lemma canon_from_core: "canon_write\<^sup>*\<^sup>* (d\<lparr>core := c\<rparr>) d' \<Longrightarrow> canon_write\<^sup>*\<^sup>* d d'"
  by (rule canon_after [OF canon_core])

lemma canon_create_then:
  assumes "CreateUserAccount (d\<lparr>core := c\<rparr>) now uuid h e v = Inr (u, d1)" "stored_address e" "canon_write\<^sup>*\<^sup>* d1 d'"
  shows "canon_write\<^sup>*\<^sup>* d d'"
  by (rule canon_from_core [OF canon_after [OF canon_create [OF assms(1,2)] assms(3)]])

section \<open>The writers of accounts\<close>

lemma Register_writes:
  assumes "Register IDKey salt C uuid flt now d body = (r, d', hook)"
  shows "canon_write\<^sup>*\<^sup>* d d'"
proof (cases "d' = d")
  case False
  then obtain req :: registerRequest and c' entity ua d1 hash where r: "canonical_email (rg_Email req) \<noteq> []"
    "CreateUserAccount (d\<lparr>core := c'\<rparr>) now uuid entity (Some (canonical_email (rg_Email req))) None = Inr (ua, d1)"
    "UpsertAuthLocal d1 now (ua_ID ua) hash = Inr d'"
    using assms unfolding Register_def Let_def
    by (auto split: if_splits sum.splits prod.splits db_error.splits option.splits)
  show ?thesis by (rule canon_create_then [OF r(2) _ canon1 [OF canon_upsert [OF r(3)]]]) (simp add: r(1))
qed simp

lemma Create_writes:
  assumes "Create S flt now uuid d ctx inp = (r, d', ev)"
  shows "canon_write\<^sup>*\<^sup>* d d'"
proof (cases "d' = d")
  case False
  then obtain c' entity ua d1 where e: "create_account_checks inp = None"
    and c: "CreateUserAccount (d\<lparr>core := c'\<rparr>) now uuid entity (Some (canonical_email (ci_Email inp))) None = Inr (ua, d1)"
    and u: "d' = d1 \<or> (\<exists>hash. UpsertAuthLocal d1 now (ua_ID ua) hash = Inr d')"
    using assms unfolding Create_def Let_def
    by (auto split: if_splits sum.splits prod.splits db_error.splits option.splits) blast+
  have "stored_address (Some (canonical_email (ci_Email inp)))" using e by (simp add: create_account_checks_def split: if_splits)
  moreover have "canon_write\<^sup>*\<^sup>* d1 d'" using u canon1 [OF canon_upsert] by blast
  ultimately show ?thesis by (rule canon_create_then [OF c])
qed simp

lemma CreateAnonymousUser_writes:
  assumes "CreateAnonymousUser sha256 rnd S flt now uuid tuuid d device given family = (r, d')"
  shows "canon_write\<^sup>*\<^sup>* d d'"
proof (cases "d' = d")
  case False
  then obtain c' entity ua d1 row tok where c: "CreateUserAccount (d\<lparr>core := c'\<rparr>) now uuid entity None None = Inr (ua, d1)"
    and u: "CreateAnonToken d1 now tuuid device tok (ua_ID ua) (now + anon_ttl) = Inr (row, d')"
    using assms unfolding CreateAnonymousUser_def Let_def
    by (auto split: if_splits sum.splits prod.splits db_error.splits option.splits)
  show ?thesis by (rule canon_create_then [OF c _ canon1 [OF canon_anon [OF u]]]) simp
qed simp

lemma blank_canonical: "\<not> blank (Some e) \<Longrightarrow> canonical_email e \<noteq> []"
  by (simp add: blank_def canonical_email_def TrimSpace_ToLower) (simp add: ToLower_def)

lemma Update_writes:
  assumes "Update S flt now d ctx uuid inp = (r, d')"
  shows "canon_write\<^sup>*\<^sup>* d d'"
proof (cases r)
  case (Inr su)
  with assms obtain ua d1 c where a: "authorizeUserAccount S flt d ctx ''update'' uuid = Inr ua" "update_account_checks inp = None"
    and u: "UpdateUserAccount d now (ua_ID ua) (new_email inp ua) (ua_EmailVerifiedAt ua) = Inr d1"
    and d': "d' = (upgrade ua (new_email inp ua) d1)\<lparr>core := c\<rparr>"
    by (auto elim: Update_Inr)
  have "ua \<in> set (user_accounts d)"
    using a(1) by (auto simp: authorizeUserAccount_def GetUserAccountByUUID_def one_def dest!: find_SomeD
        split: if_splits option.splits sum.splits db_error.splits)
  moreover have "ui_Email inp = Some e \<Longrightarrow> canonical_email e \<noteq> []" for e
    using a(2) blank_canonical by (auto simp: update_account_checks_def split: if_splits)
  ultimately have "stored_address (new_email inp ua) \<or> new_email inp ua \<in> ua_Email ` set (user_accounts d)"
    by (auto simp: new_email_def split: option.splits)
  from canon_update [OF u this] show ?thesis
    unfolding d' by (blast intro: canon_after rtranclp_trans [OF canon_upgrade canon1 [OF canon_core]])
next
  case (Inl e)
  then have "d' = d" using assms Update_Inl by blast
  then show ?thesis by simp
qed

lemma Delete_writes:
  assumes "Delete S flt d ctx uuid = (r, d')"
  shows "canon_write\<^sup>*\<^sup>* d d'"
  using assms by (auto simp: Delete_def intro!: canon1 split: sum.splits if_splits)

lemma EmailCodeVerify_writes:
  assumes "EmailCodeVerify bcrypt_ok jwt_sign h flt now d body = (r, d')"
  shows "canon_write\<^sup>*\<^sup>* d d'"
proof (cases "d' = d")
  case False
  have acc: "canon_write\<^sup>*\<^sup>* d2 d'" if "code_accepted jwt_sign h flt now purpose ua d2 = (r, d')" "ua \<in> set (user_accounts d)"
    "user_accounts d2 = user_accounts d" for purpose ua d2
    using that canon_update [of d2 now "ua_ID ua" "ua_Email ua" "Some now" d']
    by (auto simp: code_accepted_def intro: canon1 split: if_splits sum.splits)
  have claim: "canon_write d d1 \<and> user_accounts d1 = user_accounts d" if "ClaimEmailCodeAttempt d now i m = Inr (c, d1)" for i m c d1
    using that canon_other [OF db_write.claim_code [OF that]] by (auto simp: ClaimEmailCodeAttempt_def split: option.splits)
  have consume: "canon_write d1 d2 \<and> user_accounts d2 = user_accounts d1" if "ConsumeEmailCode d1 now i = (n, d2)" for d1 d2 i n
    using that canon_other [OF db_write.consume_code [OF that]] by (auto simp: ConsumeEmailCode_def)
  obtain ua i c d1 where ua: "ua \<in> set (user_accounts d)" and cl: "ClaimEmailCodeAttempt d now i MaxEmailCodeAttempts = Inr (c, d1)"
    and rest: "d' = d1 \<or> (\<exists>n. ConsumeEmailCode d1 now i = (n, d')) \<or>
      (\<exists>purpose. code_accepted jwt_sign h flt now purpose ua d1 = (r, d')) \<or>
      (\<exists>purpose n d2. ConsumeEmailCode d1 now i = (n, d2) \<and> code_accepted jwt_sign h flt now purpose ua d2 = (r, d'))"
    using assms False unfolding EmailCodeVerify_def Let_def
    by (auto simp: GetUserAccountByEmail_def one_def dest!: find_SomeD
        split: if_splits sum.splits prod.splits db_error.splits option.splits) blast+
  note c = claim [OF cl]
  show ?thesis
    using rest
  proof (elim disjE exE conjE)
    fix n assume "ConsumeEmailCode d1 now i = (n, d')"
    then show ?thesis using c consume by (meson canon_after canon1)
  next
    fix purpose assume "code_accepted jwt_sign h flt now purpose ua d1 = (r, d')"
    then show ?thesis using acc ua c by (meson canon_after)
  next
    fix purpose n d2 assume "ConsumeEmailCode d1 now i = (n, d2)" "code_accepted jwt_sign h flt now purpose ua d2 = (r, d')"
    moreover from this(1) have "canon_write d1 d2" "user_accounts d2 = user_accounts d" using c consume by fastforce+
    ultimately show ?thesis using acc ua c by (meson canon_after)
  qed (use c canon1 in blast)
qed simp

lemma Resolve_writes:
  assumes "res_db (Resolve P C R flt now auuid iuuid d p) = d'"
  shows "canon_write\<^sup>*\<^sup>* d d'"
proof -
  have found: "canon_write\<^sup>*\<^sup>* d (res_db (resolveFound P R flt now iuuid d p ua))" if "ua \<in> set (user_accounts d)" for ua
  proof -
    have "canon_write\<^sup>*\<^sup>* d d2" if "linkIdentity R flt now iuuid d ua p = Inr (d2, ev)" for d2 ev
      using that canon1 [OF canon_identity] unfolding linkIdentity_def by (auto split: if_splits sum.splits)
    moreover have "canon_write\<^sup>*\<^sup>* d d2" if v: "verifyAndLink R flt now iuuid d ua p = Inr (d2, ev)" for d2 ev
    proof -
      obtain d1 x where u: "UpdateUserAccount d now (ua_ID ua) (ua_Email ua) (Some now) = Inr d1"
        and i: "InsertOIDCIdentity d1 now iuuid (ua_ID ua) (Issuer p) (Subject p) (text_nonempty (Email p)) (Some now) = Inr (x, d2)"
        using v unfolding verifyAndLink_def by (auto split: if_splits sum.splits)
      show ?thesis
        by (rule canon_after [OF canon_update [OF u] canon1 [OF canon_identity [OF i]]]) (simp add: \<open>ua \<in> set (user_accounts d)\<close>)
    qed
    ultimately show ?thesis by (auto simp: resolveFound_def resolved_def split: sum.splits prod.splits)
  qed
  have create: "canon_write\<^sup>*\<^sup>* d (res_db (resolveCreate P C R flt now auuid iuuid d p))"
  proof (cases "autoCreate C R flt now auuid iuuid d p")
    case (Inr x)
    obtain ua d2 ev hook where x: "x = (ua, d2, ev, hook)" by (cases x)
    obtain entity c' d1 where c: "CreateUserAccount (d\<lparr>core := c'\<rparr>) now auuid entity (text_nonempty (canonical_email (Email p)))
        (if EmailVerified p then Some now else None) = Inr (ua, d1)"
      and rest: "(\<exists>x. InsertOIDCIdentity d1 now iuuid (ua_ID ua) (Issuer p) (Subject p)
        (text_nonempty (Email p)) (if EmailVerified p then Some now else None) = Inr (x, d2)) \<or> d2 = d1"
      using Inr unfolding x autoCreate_def autoCreateEmailFields_def Let_def
      by (auto split: if_splits sum.splits prod.splits option.splits)
    have w: "canon_write\<^sup>*\<^sup>* d1 d2" using rest canon1 [OF canon_identity] by blast
    have "canon_write\<^sup>*\<^sup>* d d2" by (rule canon_create_then [OF c _ w]) simp
    then show ?thesis by (simp add: resolveCreate_def Inr x)
  qed (simp add: resolveCreate_def resolved_def)
  have email: "canon_write\<^sup>*\<^sup>* d (res_db (resolveByEmail P C R flt now auuid iuuid d p))"
    using found create
    by (auto simp: resolveByEmail_def resolved_def GetUserAccountByEmail_def one_def dest!: find_SomeD
        split: sum.splits db_error.splits option.splits)
  have touch: "canon_write\<^sup>*\<^sup>* d (TouchOIDCIdentityLastSeen d now i)" for i
    by (rule canon1 [OF canon_other [OF db_write.touch_identity]]) (simp_all add: TouchOIDCIdentityLastSeen_def)
  show ?thesis
    using email touch assms unfolding Resolve_def Let_def
    by (auto simp: resolved_def split: if_splits sum.splits db_error.splits)
qed

text \<open>A run of one of the operations that write accounts, or a statement on another table.\<close>

inductive account_step :: "'c db \<Rightarrow> 'c db \<Rightarrow> bool" where
  register: "Register IDKey salt C uuid flt now d body = (r, d', hook) \<Longrightarrow> account_step d d'"
| verify_code: "EmailCodeVerify bcrypt_ok jwt_sign h flt now d body' = (r, d') \<Longrightarrow> account_step d d'"
| sign_in: "res_db (Resolve P C R flt now auuid iuuid d p) = d' \<Longrightarrow> account_step d d'"
| create_by_admin: "Create S flt now uuid d ctx inp = (r', d', ev) \<Longrightarrow> account_step d d'"
| create_guest: "CreateAnonymousUser sha256 rnd S flt now uuid tuuid d device given family = (g, d') \<Longrightarrow> account_step d d'"
| update: "Update S flt now d ctx uuid inp' = (r', d') \<Longrightarrow> account_step d d'"
| delete: "Delete S flt d ctx uuid = (x, d') \<Longrightarrow> account_step d d'"
| elsewhere: "db_write d d' \<Longrightarrow> user_accounts d' = user_accounts d \<Longrightarrow> account_step d d'"

lemma account_step_inv: "account_step d d' \<Longrightarrow> addresses_inv d \<Longrightarrow> addresses_inv d'"
proof -
  assume "account_step d d'"
  then have "canon_write\<^sup>*\<^sup>* d d'"
    by cases (blast intro: Register_writes EmailCodeVerify_writes Resolve_writes Create_writes CreateAnonymousUser_writes
        Update_writes Delete_writes canon1 [OF canon_other])+
  then show "addresses_inv d \<Longrightarrow> addresses_inv d'"
    by (induction rule: rtranclp_induct) (auto intro: canon_write_inv)
qed

interpretation addresses: invariant_system addresses_inv account_step addresses_inv
  by unfold_locales (auto intro: account_step_inv)

lemma addresses_unique:
  assumes "addresses_inv d" "u \<in> set (user_accounts d)" "v \<in> set (user_accounts d)"
    and "ua_Email u = Some e" "ua_Email v = Some e'" "canonical_email e = canonical_email e'"
  shows "u = v"
proof -
  have "canonical_email e = e" "canonical_email e' = e'"
    using assms(1-5) by (fastforce simp: addresses_inv_def stored_address_def)+
  then have "ua_Email u = ua_Email v" using assms(4-6) by metis
  moreover have "inj_on ua_Email {u \<in> set (user_accounts d). ua_Email u \<noteq> None}"
    using assms(1) by (simp add: addresses_inv_def db_ok_def accounts_ok_def distinct_map)
  ultimately show ?thesis using assms(2-5) by (blast dest: inj_onD [where x = u and y = v])
qed

lemma addresses_lookup:
  assumes "addresses_inv d" "u \<in> set (user_accounts d)" "ua_Email u = Some e" "canonical_email raw = canonical_email e"
  shows "GetUserAccountByEmail d (canonical_email raw) = Inr u"
proof -
  have can: "canonical_email x = x" if "w \<in> set (user_accounts d)" "ua_Email w = Some x" for w x
    using assms(1) that by (force simp: addresses_inv_def stored_address_def)
  let ?P = "\<lambda>w. map_option ToLower (ua_Email w) = Some (ToLower (canonical_email raw))"
  have e: "canonical_email e = e" using can assms(2,3) by simp
  then have u: "?P u" using assms(3,4) by (metis option.map(2))
  then obtain w where w: "find ?P (user_accounts d) = Some w" using assms(2) by (cases "find ?P (user_accounts d)") (auto simp: find_None_iff)
  then obtain x where x: "w \<in> set (user_accounts d)" "ua_Email w = Some x" "ToLower x = canonical_email raw"
    by (auto dest!: find_SomeD)
  then have "x = canonical_email raw" using can [OF x(1,2)] canonical_email_ToLower by metis
  then have "w = u" using addresses_unique [OF assms(1) x(1) assms(2) x(2) assms(3)] assms(4) by simp
  with w show ?thesis by (simp add: GetUserAccountByEmail_def)
qed

section \<open>Passwords\<close>

text \<open>What argon2 documents: a key of the requested length, and no panic for the program's parameters.\<close>

definition argon2 :: "id_key \<Rightarrow> bool" where
  "argon2 IDKey \<longleftrightarrow> (\<forall>pw s t m p n k. IDKey pw s t m p n = Some k \<longrightarrow> length k = unat n) \<and>
     (\<forall>pw s. IDKey pw s 3 65536 2 32 \<noteq> None)"

lemma Login_password:
  assumes "argon2 IDKey" "HashPassword IDKey (Some salt) pw = Inr (al_PasswordHash al)"
    and "GetUserAccountByEmail d (canonical_email (lr_Email lb)) = Inr ua" "GetAuthLocal d (ua_ID ua) = Inr al"
    and "canonical_email (lr_Email lb) \<noteq> []" "lr_Password lb \<noteq> []"
  shows "Login IDKey jwt_sign h (\<lambda>_. False) t d (Some lb) =
    (if IDKey (lr_Password lb) salt 3 65536 2 32 = IDKey pw salt 3 65536 2 32 then session jwt_sign h ua t
     else ErrorResp 401 ''unauthenticated'')"
proof -
  have "VerifyPassword IDKey (lr_Password lb) (al_PasswordHash al) =
      Inr (IDKey (lr_Password lb) salt 3 65536 2 32 = IDKey pw salt 3 65536 2 32)"
    using assms(1) by (intro VerifyPassword_hashed [OF assms(2)]) (auto simp: argon2_def)
  then show ?thesis using assms(3-6) by (simp add: Login_def Let_def at_def)
qed

lemma upsert_other_account:
  assumes "UpsertAuthLocal d now i hash = Inr d'" "j \<noteq> i"
  shows "find (\<lambda>a. al_UserAccountID a = j) (auth_local d') = find (\<lambda>a. al_UserAccountID a = j) (auth_local d)"
proof -
  have "find (\<lambda>a. al_UserAccountID a = j) (map (\<lambda>a. if al_UserAccountID a = i then a\<lparr>al_PasswordHash := hash, al_PasswordUpdatedAt := now\<rparr> else a) xs) =
      find (\<lambda>a. al_UserAccountID a = j) xs" for xs
    using assms(2) by (induction xs) auto
  then show ?thesis using assms by (auto simp: UpsertAuthLocal_def find_snoc split: if_splits option.splits)
qed

lemma Register_account:
  assumes "Register IDKey salt C uuid flt now d (Some req) = (CreatedResp ua, d', hook)"
  shows "user_accounts d' = user_accounts d @ [ua]" "ua_Email ua = Some (canonical_email (rg_Email req))"
    "canonical_email (rg_Email req) \<noteq> []" "12 \<le> length (rg_Password req)" "ua_EmailVerifiedAt ua = None" "ua_Uuid ua = uuid"
    "email_codes d' = email_codes d" "ua_ID ua = next_id d" "next_id d' = next_id d + 1"
    "\<exists>al. GetAuthLocal d' (ua_ID ua) = Inr al \<and> HashPassword IDKey salt (rg_Password req) = Inr (al_PasswordHash al)"
proof -
  obtain hash entity c' d1 where hash: "HashPassword IDKey salt (rg_Password req) = Inr hash"
    and len: "12 \<le> length (rg_Password req)" "canonical_email (rg_Email req) \<noteq> []"
    and c: "CreateUserAccount (d\<lparr>core := c'\<rparr>) now uuid entity (Some (canonical_email (rg_Email req))) None = Inr (ua, d1)"
    and u: "UpsertAuthLocal d1 now (ua_ID ua) hash = Inr d'"
    using assms unfolding Register_def Let_def
    by (auto split: if_splits sum.splits prod.splits db_error.splits)
  have c': "user_accounts d1 = user_accounts d @ [ua]" "ua_Email ua = Some (canonical_email (rg_Email req))"
    "ua_EmailVerifiedAt ua = None" "ua_Uuid ua = uuid" "email_codes d1 = email_codes d" "ua_ID ua = next_id d"
    "next_id d1 = next_id d + 1"
    using c by (auto simp: CreateUserAccount_def Let_def split: if_splits)
  have u': "email_codes d' = email_codes d1" "next_id d' = next_id d1"
    using u by (auto simp: UpsertAuthLocal_def split: if_splits)
  show "user_accounts d' = user_accounts d @ [ua]" "ua_Email ua = Some (canonical_email (rg_Email req))"
    "canonical_email (rg_Email req) \<noteq> []" "12 \<le> length (rg_Password req)" "ua_EmailVerifiedAt ua = None" "ua_Uuid ua = uuid"
    "email_codes d' = email_codes d" "ua_ID ua = next_id d" "next_id d' = next_id d + 1"
    using len c' u' UpsertAuthLocal_effect(4) [OF u] by simp_all
  show "\<exists>al. GetAuthLocal d' (ua_ID ua) = Inr al \<and> HashPassword IDKey salt (rg_Password req) = Inr (al_PasswordHash al)"
    using UpsertAuthLocal_effect(1,5) [OF u] hash
    by (cases "GetAuthLocal d' (ua_ID ua)") (auto simp: GetAuthLocal_def find_None_iff dest!: find_SomeD)
qed

section \<open>A new account's first code\<close>

text \<open>
  The code mailed to an account that has none yet, given back in time, marks the account verified.
\<close>

lemma insort_key_last: "f x \<le> f c \<Longrightarrow> insort_key f x (ys @ [c]) = insort_key f x ys @ [c]"
  by (induction ys) auto

lemma newest_last:
  assumes "\<And>k. k \<in> set cs \<Longrightarrow> ec_CreatedAt k \<le> ec_CreatedAt c"
  shows "newest (cs @ [c]) = Some c"
proof -
  have "sort_key ec_CreatedAt (cs @ [c]) = sort_key ec_CreatedAt cs @ [c]"
    using assms by (induction cs) (auto simp: insort_key_last)
  then show ?thesis by (simp add: newest_def)
qed

text \<open>
  A code that the cooldown let in is the newest of its account and purpose: until it expires it is the one that is looked up, and
  its first attempt finds it claimable and consumable.
\<close>

lemma new_code_usable:
  assumes ok: "db_ok d" and cr: "CreateEmailCodeWithCooldown d t1 u hs purpose expires secs = Inr (c, d2)"
    and time: "0 \<le> secs" "t2 < expires"
  obtains claimed cs cs' where "GetActiveEmailCode d2 t2 u purpose = Inr c"
    "ClaimEmailCodeAttempt d2 t2 (ec_ID c) 5 = Inr (claimed, d2\<lparr>email_codes := cs\<rparr>)"
    "ec_CodeHash claimed = hs" "ec_ConsumedAt claimed = None"
    "ConsumeEmailCode (d2\<lparr>email_codes := cs\<rparr>) t2 (ec_ID c) = (1, d2\<lparr>email_codes := cs'\<rparr>)"
    "d2 = d\<lparr>email_codes := email_codes d2, next_id := next_id d2\<rparr>"
proof -
  have c: "email_codes d2 = email_codes d @ [c]" "ec_ID c = next_id d" "ec_UserAccountID c = u" "ec_Purpose c = purpose"
    "ec_ConsumedAt c = None" "ec_FailedAttempts c = 0" "ec_CodeHash c = hs" "ec_ExpiresAt c = expires" "ec_CreatedAt c = t1"
    and d2: "d2 = d\<lparr>email_codes := email_codes d2, next_id := next_id d2\<rparr>"
    and cool: "\<not> HasRecentEmailCode d t1 u purpose secs"
    using cr by (auto simp: CreateEmailCodeWithCooldown_def CreateEmailCode_def Let_def split: if_splits)
  have "0 \<le> secs * second" using time(1) by (simp add: second_def)
  then have older: "ec_CreatedAt k \<le> t1" if "k \<in> set (email_codes d)" "ec_UserAccountID k = u" "ec_Purpose k = purpose" for k
    using cool that by (force simp: HasRecentEmailCode_def recent_code_def)
  have "newest (filter P (email_codes d) @ [c]) = Some c" if "\<And>k. P k \<Longrightarrow> ec_UserAccountID k = u \<and> ec_Purpose k = purpose" for P
    using that older c(9) by (intro newest_last) auto
  from this [of "\<lambda>k. ec_UserAccountID k = u \<and> ec_Purpose k = purpose \<and> ec_ConsumedAt k = None \<and> t2 < ec_ExpiresAt k"]
  have act: "GetActiveEmailCode d2 t2 u purpose = Inr c"
    using c time(2) by (simp add: GetActiveEmailCode_def)
  have old: "ec_ID k \<noteq> next_id d" if "k \<in> set (email_codes d)" for k
    using ok that by (auto simp: db_ok_def codes_ok_def ids_ok_def)
  define claimed where "claimed = claim_row t2 5 c"
  have cl: "claimed = c\<lparr>ec_FailedAttempts := 1\<rparr>" using c by (simp add: claimed_def claim_row_def)
  have none: "find (claimable (next_id d) 5) (email_codes d) = None"
    using old by (auto simp: find_None_iff claimable_def)
  have keep: "map (\<lambda>k. if P k then g k else k) (email_codes d) = email_codes d" if "\<And>k. P k \<Longrightarrow> ec_ID k = next_id d" for P g
    by (rule map_idI) (use old that in auto)
  have claim: "ClaimEmailCodeAttempt d2 t2 (ec_ID c) 5 = Inr (claimed, d2\<lparr>email_codes := email_codes d @ [claimed]\<rparr>)"
    using c none keep [of "claimable (next_id d) 5"]
    by (simp add: ClaimEmailCodeAttempt_def find_snoc claimable_def claimed_def)
  have "filter (consumable (next_id d)) (email_codes d) = []" using old by (auto simp: filter_empty_conv consumable_def)
  then have "ConsumeEmailCode (d2\<lparr>email_codes := email_codes d @ [claimed]\<rparr>) t2 (ec_ID c) =
      (1, d2\<lparr>email_codes := email_codes d @ [claimed\<lparr>ec_ConsumedAt := Some t2\<rparr>]\<rparr>)"
    using c cl keep [of "consumable (next_id d)"] by (simp add: ConsumeEmailCode_def consumable_def)
  moreover have "ec_CodeHash claimed = hs" "ec_ConsumedAt claimed = None" using c(5,7) by (simp_all add: cl)
  ultimately show thesis by (rule that [OF act claim _ _ _ d2, rotated 2])
qed

lemma six_digits_nonempty: "six_digits n \<noteq> []"
  by (cases "show_nat n") (auto simp: six_digits_def)

lemma UpdateUserAccount_own_email:
  assumes "db_ok d" "u \<in> set (user_accounts d)"
  shows "UpdateUserAccount d now (ua_ID u) (ua_Email u) v =
    Inr (d\<lparr>user_accounts := map (\<lambda>w. if ua_ID w = ua_ID u then w\<lparr>ua_Email := ua_Email u, ua_EmailVerifiedAt := v, ua_UpdatedAt := now\<rparr> else w)
      (user_accounts d)\<rparr>)"
proof -
  have "inj_on ua_Email {u \<in> set (user_accounts d). ua_Email u \<noteq> None}"
    using assms(1) by (simp add: db_ok_def accounts_ok_def distinct_map)
  then have "ua_Email w \<noteq> ua_Email u" if "ua_Email u \<noteq> None" "w \<in> set (user_accounts d)" "ua_ID w \<noteq> ua_ID u" for w
    using that assms(2) by (auto dest: inj_onD [where x = w and y = u])
  then show ?thesis by (auto simp: UpdateUserAccount_def)
qed

lemma verify_new_code:
  assumes "db_ok d" "u \<in> set (user_accounts d)" "ua_Email u = Some e" "canonical_email e = e" "e \<noteq> []"
    and "GetUserAccountByEmail d e = Inr u"
    and mail: "sendEmailCode (Some n) hash flt t1 d e ''verify_email'' = (Some m, d2)"
    and bcrypt: "\<And>code hs. hash code = Some hs \<Longrightarrow> bcrypt_ok hs code"
    and time: "t2 < t1 + 300 * second"
    and body: "canonical_email (ev_Email vb) = e" "ev_Code vb = mail_code m" "ev_Purpose vb = ''verify_email''"
  obtains d3 where "EmailCodeVerify bcrypt_ok jwt_sign h (\<lambda>_. False) t2 d2 (Some vb) = (NoContent, d3)"
    and "mail_to m = e" "auth_local d3 = auth_local d"
    and "user_accounts d3 = map (\<lambda>w. if ua_ID w = ua_ID u then w\<lparr>ua_Email := ua_Email u, ua_EmailVerifiedAt := Some t2, ua_UpdatedAt := t2\<rparr> else w)
      (user_accounts d)"
proof -
  obtain hs c where hs: "hash (six_digits n) = Some hs" and m: "mail_to m = e" "mail_code m = six_digits n"
    and cr: "CreateEmailCodeWithCooldown d t1 (ua_ID u) hs ''verify_email'' (t1 + 300 * second) 60 = Inr (c, d2)"
    using mail assms(3,5,6)
    by (auto simp: sendEmailCode_def EmailCodeRequestCooldown_def second_def split: if_splits sum.splits option.splits)
  obtain claimed cs cs' where act: "GetActiveEmailCode d2 t2 (ua_ID u) ''verify_email'' = Inr c"
    and claim: "ClaimEmailCodeAttempt d2 t2 (ec_ID c) 5 = Inr (claimed, d2\<lparr>email_codes := cs\<rparr>)"
    and cl: "ec_CodeHash claimed = hs" "ec_ConsumedAt claimed = None"
    and consume: "ConsumeEmailCode (d2\<lparr>email_codes := cs\<rparr>) t2 (ec_ID c) = (1, d2\<lparr>email_codes := cs'\<rparr>)"
    and d2: "d2 = d\<lparr>email_codes := email_codes d2, next_id := next_id d2\<rparr>"
    by (rule new_code_usable [OF assms(1) cr _ time]) simp
  have tab: "user_accounts d2 = user_accounts d" "auth_local d2 = auth_local d" by (subst d2, simp)+
  let ?d = "d2\<lparr>email_codes := cs'\<rparr>"
  have upd: "UpdateUserAccount ?d t2 (ua_ID u) (ua_Email u) (Some t2) = Inr (?d\<lparr>user_accounts := user_accounts d3\<rparr>)"
    if "UpdateUserAccount d t2 (ua_ID u) (ua_Email u) (Some t2) = Inr d3" for d3
    using that tab(1) by (auto simp: UpdateUserAccount_def split: if_splits)
  note own = UpdateUserAccount_own_email [OF assms(1,2), of t2 "Some t2"]
  have "GetUserAccountByEmail d2 e = Inr u" using assms(6) tab(1) by (simp add: GetUserAccountByEmail_def)
  then have "EmailCodeVerify bcrypt_ok jwt_sign h (\<lambda>_. False) t2 d2 (Some vb) =
      (NoContent, ?d\<lparr>user_accounts := map (\<lambda>w. if ua_ID w = ua_ID u then w\<lparr>ua_Email := ua_Email u, ua_EmailVerifiedAt := Some t2, ua_UpdatedAt := t2\<rparr> else w)
      (user_accounts d)\<rparr>)"
    using body m assms(5) act claim consume bcrypt [OF hs] cl upd [OF own] six_digits_nonempty [of n]
    by (simp add: EmailCodeVerify_def Let_def at_def publicEmailCodePurpose_def code_accepted_def MaxEmailCodeAttempts_def)
  then show thesis by (rule that) (simp_all add: m(1) tab(2))
qed

lemma find_by_key: "distinct (map f xs) \<Longrightarrow> x \<in> set xs \<Longrightarrow> find (\<lambda>y. f y = f x) xs = Some x"
  by (induction xs) auto

lemma account_by_uuid:
  assumes "db_ok d" "u \<in> set (user_accounts d)"
  shows "GetUserAccountByUUID d (ua_Uuid u) = Inr u"
  using find_by_key [of ua_Uuid "user_accounts d" u] assms by (simp add: GetUserAccountByUUID_def db_ok_def accounts_ok_def)

section \<open>A session at the gates\<close>

text \<open>The two gates that look at the caller, over the whole pipeline from the header to the account.\<close>

definition verified_gate ::
  "crypto \<Rightarrow> Verifier \<Rightarrow> string \<Rightarrow> 'c core_ops \<Rightarrow> UserResolver \<Rightarrow> (string \<Rightarrow> string option) \<Rightarrow> instant \<Rightarrow> 'c db \<Rightarrow> string \<Rightarrow> gate" where
  "verified_gate K v admin C R P now d authHeader =
     chain [RequireAuth authHeader
              (fst (AuthenticateRequest K v (local_mapper admin) now d (Resolve P C R (\<lambda>_. False) now [] [] d) authHeader)),
            RequireVerifiedEmail] empty_ctx"

definition admitted :: "UserAccount \<Rightarrow> gate \<Rightarrow> bool" where
  "admitted u g \<longleftrightarrow> (\<exists>ctx uc. g = Next ctx \<and> ctx_user ctx = Some uc \<and> uc_UserAccountID uc = ua_ID u \<and> uc_AssumedUser uc = None)"

definition refused_unverified :: "gate \<Rightarrow> bool" where
  "refused_unverified g \<longleftrightarrow> (\<exists>msg. g = Answer 403 ''users.email_unverified'' msg)"

text \<open>
  How the server is wired: the handler signs with the configured key, the verifier checks against
  it, and the JWT library makes tokens of the documented format.
\<close>

definition wired :: "crypto \<Rightarrow> discovery \<Rightarrow> jwt_lib \<Rightarrow> LocalAuthConfig \<Rightarrow> Verifier \<Rightarrow> Handler \<Rightarrow> UserResolver \<Rightarrow> bool" where
  "wired K discover jwt_sign lc v h R \<longleftrightarrow> (\<exists>s. NewSigner lc = Inr s \<and> jwtSigner h = Inr s) \<and>
     NewLocalVerifier K discover lc = Inr v \<and> distinct (map fst (JWTVerifyPublicKeys lc)) \<and>
     h_issuer h = LocalIssuer lc \<and> rs_localIssuer R = LocalIssuer lc \<and>
     (\<forall>key extra cl t. jwt_sign key extra cl = Some t \<longrightarrow> compact_jws K key extra cl t)"

lemma session_gate:
  assumes w: "wired K discover jwt_sign lc v h R" and s: "session jwt_sign h ua issued = SessionResp tok ua'"
    and now: "now \<le> Unix (issued + day) * second" and P: "P (ua_Uuid ua) = Some (ua_Uuid ua)" "ua_Uuid ua \<noteq> []"
    and u: "GetUserAccountByUUID d (ua_Uuid ua) = Inr u"
  shows "if ua_EmailVerifiedAt u = None then refused_unverified (verified_gate K v admin C R P now d (''Bearer '' @ tok))
    else admitted u (verified_gate K v admin C R P now d (''Bearer '' @ tok))"
proof -
  let ?c = "local_claims (ua_Uuid ua) (LocalIssuer lc) issued"
  obtain sg where sg: "NewSigner lc = Inr sg" "jwtSigner h = Inr sg" using w by (auto simp: wired_def)
  have c: "lc_iss ?c = LocalIssuer lc" "lc_sub ?c = ua_Uuid ua" "lc_exp ?c = Unix (issued + day)" "lc_sudo ?c = []"
    by (simp_all add: local_claims_def)
  have sign: "Signer_Sign jwt_sign (Some sg) (localClaims_members ?c) = Inr tok"
    using s sg(2) w by (auto simp: session_def issueLocalJWT_def IssueLocalJWTWithSigner_def wired_def split: sum.splits)
  have W: "NewLocalVerifier K discover lc = Inr v" "distinct (map fst (JWTVerifyPublicKeys lc))"
    "\<And>key extra cl t. jwt_sign key extra cl = Some t \<Longrightarrow> compact_jws K key extra cl t" "rs_localIssuer R = LocalIssuer lc"
    using w by (auto simp: wired_def)
  obtain p where p: "Subject p = ua_Uuid ua" "SudoUserUUID p = []"
    "AuthenticateRequest K v (local_mapper admin) now d (Resolve P C R (\<lambda>_. False) now [] [] d) (''Bearer '' @ tok) =
      (case resolveLocal P (\<lambda>_. False) d p of Inl e \<Rightarrow> (Inl (ResolveFailed e), d) | Inr uc \<Rightarrow> (Inr uc, d))"
    using AuthenticateRequest_claims [OF sg(1) W(1,2,3) sign c(1) _ W(4), of admin now d P C "\<lambda>_. False" "[]" "[]"] P(2) c now by auto
  show ?thesis
    using p P(1) u
    by (auto simp: verified_gate_def resolveLocal_def at_def RequireAuth_def RequireVerifiedEmail_def admitted_def
        refused_unverified_def contextWithAuthenticatedActor_def buildUserContext_def)
qed

section \<open>Registrations at the same time\<close>

text \<open>
  A registration counts the accounts first and inserts its own later; under the isolation level of
  the transaction, read committed, other registrations commit in between. A transaction that has
  counted is pending with what it saw; at its commit it does what \<open>Register\<close> does to the database of that
  moment, and the first-user hook then runs if the count was zero. \<open>admins\<close> has the entities the hook was
  called for. A transaction may also end without an effect.
\<close>

record 'c registrations =
  rg_db :: "'c db"
  rg_pending :: "bool list"
  rg_admins :: "int list"

inductive registration_step :: "'c registrations \<Rightarrow> 'c registrations \<Rightarrow> bool" where
  begin_count: "registration_step s (s\<lparr>rg_pending := (user_accounts (rg_db s) = []) # rg_pending s\<rparr>)"
| insert_commit: "isFirst \<in> set (rg_pending s) \<Longrightarrow>
     Register IDKey salt C uuid flt now (rg_db s) body = (CreatedResp ua, d', hook) \<Longrightarrow>
     registration_step s (s\<lparr>rg_db := d', rg_pending := remove1 isFirst (rg_pending s),
       rg_admins := (if isFirst then [ua_AccountHolder ua] else []) @ rg_admins s\<rparr>)"
| roll_back: "isFirst \<in> set (rg_pending s) \<Longrightarrow>
     registration_step s (s\<lparr>rg_pending := remove1 isFirst (rg_pending s)\<rparr>)"

text \<open>One transaction at a time: a count only when none is pending.\<close>

definition serial_step :: "'c registrations \<Rightarrow> 'c registrations \<Rightarrow> bool" where
  "serial_step s t \<longleftrightarrow> registration_step s t \<and> length (rg_pending t) \<le> 1"

definition no_registrations :: "'c db \<Rightarrow> 'c registrations" where
  "no_registrations d = \<lparr>rg_db = d, rg_pending = [], rg_admins = []\<rparr>"

definition serial_inv :: "'c registrations \<Rightarrow> bool" where
  "serial_inv s \<longleftrightarrow> rg_pending s \<in> {[], [True], [False]} \<and> length (rg_admins s) \<le> 1 \<and>
     (user_accounts (rg_db s) = [] \<longrightarrow> rg_admins s = []) \<and>
     (True \<in> set (rg_pending s) \<longrightarrow> user_accounts (rg_db s) = [])"

lemma Register_adds:
  assumes "Register IDKey salt C uuid flt now d body = (CreatedResp ua, d', hook)"
  shows "user_accounts d' = user_accounts d @ [ua]"
proof -
  obtain req where "body = Some req" using assms by (cases body) (auto simp: Register_def)
  then show ?thesis using Register_account(1) assms by blast
qed

lemma serial_step_inv: "serial_step s t \<Longrightarrow> serial_inv s \<Longrightarrow> serial_inv t"
  unfolding serial_step_def
  by (auto simp: serial_inv_def dest!: Register_adds elim!: registration_step.cases)

interpretation serial: invariant_system "\<lambda>s. s = no_registrations d" serial_step serial_inv for d :: "'c db"
  by unfold_locales (simp add: no_registrations_def serial_inv_def, rule serial_step_inv)

text \<open>Two people register on an empty system; the core module hands out entities 7 and 8.\<close>

definition counting_core :: "int core_ops" where
  "counting_core = \<lparr>GetTypeBySlug = \<lambda>_ _. Inr 1, CreateEntity = \<lambda>c _. Inr (c, c + 1), CreateLegalEntity = \<lambda>c _. Inr c,
     CreateNaturalPerson = \<lambda>c _ _ _. Inr c\<rparr>"

lemma create_person_counting [simp]: "create_person counting_core (\<lambda>_. False) k c g f = Inr (c, c + 1)"
  by (simp add: create_person_def counting_core_def at_def)

lemma two_admins:
  "\<exists>(s :: int registrations) ua ub. registration_step\<^sup>*\<^sup>* (no_registrations (empty_db 7)) s \<and>
     rg_pending s = [] \<and> user_accounts (rg_db s) = [ua, ub] \<and> set (rg_admins s) = {ua_AccountHolder ua, ua_AccountHolder ub} \<and>
     ua_AccountHolder ua \<noteq> ua_AccountHolder ub"
proof -
  let ?R = "\<lambda>uuid d b. Register demo_id_key (Some ''salt'') counting_core uuid (\<lambda>_. False) 0 d (Some b)"
  let ?b = "demo_registration\<lparr>rg_Email := ''c@d''\<rparr>"
  have can: "canonical_email ''c@d'' = ''c@d''"
    by (simp add: canonical_email_def TrimSpace_def TrimLeft_def TrimRight_def is_space_def ToLower_def lower_char_def
        is_ascii_upper_def byte_def)
  obtain hash where hash: "HashPassword demo_id_key (Some ''salt'') ''correct horse'' = Inr hash"
    by (simp add: HashPassword_def demo_id_key_def)
  obtain ua d1 hk al where r1: "?R ''u1'' (empty_db 7) demo_registration = (CreatedResp ua, d1, hk)"
    and d1: "user_accounts d1 = [ua]" "ua_AccountHolder ua = 7" "ua_Uuid ua = ''u1''" "ua_Email ua = Some ''a@b''" "core d1 = 8"
      "ua_ID ua = 1" "next_id d1 = 2" "auth_local d1 = [al]" "al_UserAccountID al = 1"
    by (simp add: Register_def demo_registration_def hash at_def CreateUserAccount_def UpsertAuthLocal_def
        account_exists_def Let_def)
  obtain ub d2 hk2 where r2: "?R ''u2'' d1 ?b = (CreatedResp ub, d2, hk2)"
    and d2: "user_accounts d2 = [ua, ub]" "ua_AccountHolder ub = 8"
    using d1 by (simp add: Register_def demo_registration_def hash at_def CreateUserAccount_def UpsertAuthLocal_def
        account_exists_def Let_def can)
  let ?s = "no_registrations (empty_db 7) :: int registrations"
  let ?s2 = "\<lparr>rg_db = empty_db (7 :: int), rg_pending = [True, True], rg_admins = []\<rparr>"
  let ?s3 = "\<lparr>rg_db = d1, rg_pending = [True], rg_admins = [7]\<rparr>"
  let ?s4 = "\<lparr>rg_db = d2, rg_pending = [], rg_admins = [8, 7]\<rparr>"
  have s2: "registration_step\<^sup>*\<^sup>* ?s ?s2"
    using registration_step.begin_count [of ?s] registration_step.begin_count [of "?s\<lparr>rg_pending := [True]\<rparr>"]
    by (simp add: no_registrations_def)
  have s3: "registration_step ?s2 ?s3"
    using registration_step.insert_commit [of True ?s2 demo_id_key "Some ''salt''" counting_core "''u1''" "\<lambda>_. False" 0 "Some demo_registration"]
      r1 d1 by simp
  have s4: "registration_step ?s3 ?s4"
    using registration_step.insert_commit [of True ?s3 demo_id_key "Some ''salt''" counting_core "''u2''" "\<lambda>_. False" 0 "Some ?b"]
      r2 d2 by simp
  have "registration_step\<^sup>*\<^sup>* ?s ?s4" using s2 s3 s4 by simp
  then show ?thesis using d1 d2 by (intro exI [of _ ?s4]) auto
qed

section \<open>Properties\<close>

text \<open>
  C5. One address, one account: from a database whose addresses are canonical (an empty one is), whatever
  sequence of registrations, sign-ins, verified codes and administrative calls runs, with
  whatever faults, the constraints hold, no two accounts have addresses that differ only in case or
  surrounding space, and every way of writing the address of an account finds that account.
\<close>

theorem canonical_addresses:
  assumes "account_step\<^sup>*\<^sup>* d0 d" "addresses_inv d0"
  shows "db_ok d \<and>
    (\<forall>u v e e'. u \<in> set (user_accounts d) \<and> v \<in> set (user_accounts d) \<and> ua_Email u = Some e \<and> ua_Email v = Some e' \<and>
       canonical_email e = canonical_email e' \<longrightarrow> u = v) \<and>
    (\<forall>u e raw. u \<in> set (user_accounts d) \<and> ua_Email u = Some e \<and> canonical_email raw = canonical_email e \<longrightarrow>
       GetUserAccountByEmail d (canonical_email raw) = Inr u)"
proof -
  have inv: "addresses_inv d" by (rule addresses.reachable_inv [OF assms(2,1)])
  then show ?thesis using addresses_unique [OF inv] addresses_lookup [OF inv] by (auto simp: addresses_inv_def)
qed

theorem canonical_addresses_witness:
  "\<exists>ua d'. Register demo_id_key (Some ''salt'') demo_core ''u1'' (\<lambda>_. False) 0 (empty_db ()) (Some demo_registration) =
       (CreatedResp ua, d', Some 7) \<and> db_ok d'"
proof -
  obtain ua d' where r: "Register demo_id_key (Some ''salt'') demo_core ''u1'' (\<lambda>_. False) 0 (empty_db ())
      (Some demo_registration) = (CreatedResp ua, d', Some 7)"
    by (rule Register_demo)
  then have "account_step\<^sup>*\<^sup>* (empty_db ()) d'" by (intro r_into_rtranclp account_step.register)
  moreover have "addresses_inv (empty_db ())" by (simp add: addresses_inv_def)
  ultimately show ?thesis using canonical_addresses [of "empty_db ()" d'] r by blast
qed

text \<open>
  C6. From a registration to a verified session. On a system with canonical addresses, the registered
  password opens a session for the new account, with the address written in any way; the session is refused
  at the routes for verified addresses until the code mailed to that address is given back within
  five minutes, and is admitted from then on, as that account, without signing in again.
\<close>

theorem registration_journey:
  assumes reg: "Register IDKey (Some salt) C uuid flt t0 d (Some req) = (CreatedResp ua, d1, hook)"
    and inv: "addresses_inv d" and argon: "argon2 IDKey"
    and login: "canonical_email (lr_Email lb) = canonical_email (rg_Email req)" "lr_Password lb = rg_Password req"
    and wired: "wired K discover jwt_sign lc v h R" and sess: "session jwt_sign h ua t = SessionResp tok ua"
    and now: "now \<le> Unix (t + day) * second" and P: "P uuid = Some uuid" "uuid \<noteq> []"
    and mail: "sendEmailCode (Some n) hash flt1 t1 d1 (canonical_email raw) ''verify_email'' = (Some m, d2)"
      "canonical_email raw = canonical_email (rg_Email req)"
    and bcrypt: "\<And>code hs. hash code = Some hs \<Longrightarrow> bcrypt_ok hs code" and time: "t2 < t1 + 300 * second"
    and body: "canonical_email (ev_Email vb) = canonical_email (rg_Email req)" "ev_Code vb = mail_code m"
      "ev_Purpose vb = ''verify_email''"
  shows "\<exists>d3 u. Login IDKey jwt_sign h (\<lambda>_. False) t d1 (Some lb) = SessionResp tok ua \<and>
    refused_unverified (verified_gate K v admin C R P now d1 (''Bearer '' @ tok)) \<and>
    mail_to m = canonical_email (rg_Email req) \<and>
    EmailCodeVerify bcrypt_ok jwt_sign h (\<lambda>_. False) t2 d2 (Some vb) = (NoContent, d3) \<and>
    GetUserAccountByUUID d3 uuid = Inr u \<and> ua_ID u = ua_ID ua \<and> ua_EmailVerifiedAt u = Some t2 \<and>
    admitted u (verified_gate K v admin C R P now d3 (''Bearer '' @ tok))"
proof -
  note R = Register_account [OF reg]
  let ?e = "canonical_email (rg_Email req)"
  have inv1: "addresses_inv d1" using account_step_inv [OF account_step.register [OF reg] inv] .
  then have ok: "db_ok d1" by (simp add: addresses_inv_def)
  have ua: "ua \<in> set (user_accounts d1)" using R(1) by simp
  have look: "GetUserAccountByEmail d1 ?e = Inr ua" using addresses_lookup [OF inv1 ua R(2), of ?e] by simp
  obtain al where al: "GetAuthLocal d1 (ua_ID ua) = Inr al" "HashPassword IDKey (Some salt) (rg_Password req) = Inr (al_PasswordHash al)"
    using R(10) by blast
  have "lr_Password lb \<noteq> []" using R(4) login(2) by auto
  then have "Login IDKey jwt_sign h (\<lambda>_. False) t d1 (Some lb) = SessionResp tok ua"
    using Login_password [OF argon al(2) _ al(1), of lb jwt_sign h t] look login R(3) sess by simp
  moreover have uu: "GetUserAccountByUUID d1 (ua_Uuid ua) = Inr ua"
    by (rule account_by_uuid [OF ok ua])
  moreover have "refused_unverified (verified_gate K v admin C R P now d1 (''Bearer '' @ tok))"
    using session_gate [OF wired sess now _ _ uu] P R(5,6) by simp
  moreover obtain d3 where d3: "EmailCodeVerify bcrypt_ok jwt_sign h (\<lambda>_. False) t2 d2 (Some vb) = (NoContent, d3)" "mail_to m = ?e"
    "user_accounts d3 = map (\<lambda>w. if ua_ID w = ua_ID ua then w\<lparr>ua_Email := ua_Email ua, ua_EmailVerifiedAt := Some t2, ua_UpdatedAt := t2\<rparr> else w)
      (user_accounts d1)"
    by (rule verify_new_code [OF ok ua R(2) canonical_email_idem R(3) look mail(1) [unfolded mail(2)] bcrypt time body])
  moreover define u where "u = ua\<lparr>ua_EmailVerifiedAt := Some t2, ua_UpdatedAt := t2\<rparr>"
  have "GetUserAccountByUUID d3 uuid = Inr u"
  proof -
    let ?g = "\<lambda>w. if ua_ID w = ua_ID ua then w\<lparr>ua_Email := ua_Email ua, ua_EmailVerifiedAt := Some t2, ua_UpdatedAt := t2\<rparr> else w"
    have "map ua_Uuid (map ?g (user_accounts d1)) = map ua_Uuid (user_accounts d1)" by simp
    then have "distinct (map ua_Uuid (map ?g (user_accounts d1)))" using ok by (simp only: db_ok_def accounts_ok_def)
    moreover have "u \<in> set (map ?g (user_accounts d1))" using ua by (force simp: u_def)
    ultimately show ?thesis
      using find_by_key [of ua_Uuid "map ?g (user_accounts d1)" u] d3(3) R(6) by (simp add: GetUserAccountByUUID_def u_def)
  qed
  moreover from this have "admitted u (verified_gate K v admin C R P now d3 (''Bearer '' @ tok))"
    using session_gate [OF wired sess now, of P d3 u admin C] P R(6) by (simp add: u_def)
  ultimately show ?thesis using d3(1,2) by (intro exI [of _ d3] exI [of _ u]) (simp add: u_def)
qed

text \<open>
  C7. The reset link. The link that a reset request mails to the address of an account, opened within
  half an hour, sets the password: that account, and no other, signs in with the new password and
  with no password of another argon2 key, every other account keeps its password, and the link works once.
\<close>

theorem reset_journey:
  assumes req: "PasswordResetRequest sha256 (Some raw) h flt t1 d rawEmail = (Some (addr, link), d1)" "raw \<noteq> []"
    and ok: "db_ok d" and argon: "argon2 IDKey"
    and link: "link = TrimRight (\<lambda>c. c = CHR ''/'') (h_guiBase h) @ ''/reset-password?token='' @ pc_Token pc"
    and pc: "12 \<le> length (pc_Password pc)" "t2 < t1 + 1800 * second"
  shows "\<exists>u d2. GetUserAccountByEmail d (canonical_email rawEmail) = Inr u \<and> ua_Email u = Some addr \<and>
    PasswordResetConfirm sha256 IDKey (Some salt) (\<lambda>_. False) t2 d1 (Some pc) = (NoContent, d2) \<and>
    (\<forall>lb jwt_sign t. canonical_email (lr_Email lb) = canonical_email rawEmail \<and> lr_Password lb \<noteq> [] \<longrightarrow>
       Login IDKey jwt_sign h (\<lambda>_. False) t d2 (Some lb) =
         (if IDKey (lr_Password lb) salt 3 65536 2 32 = IDKey (pc_Password pc) salt 3 65536 2 32 then session jwt_sign h u t
          else ErrorResp 401 ''unauthenticated'')) \<and>
    (\<forall>i. i \<noteq> ua_ID u \<longrightarrow> GetAuthLocal d2 i = GetAuthLocal d i) \<and>
    (\<forall>t3 pc'. pc_Token pc' = pc_Token pc \<and> 12 \<le> length (pc_Password pc') \<longrightarrow>
       PasswordResetConfirm sha256 IDKey (Some salt) (\<lambda>_. False) t3 d2 (Some pc') = (ErrorResp 401 ''unauthenticated'', d2))"
proof -
  let ?h = "reset_token_hash sha256 (hex_encode raw)"
  obtain u p where u: "GetUserAccountByEmail d (canonical_email rawEmail) = Inr u" "ua_Email u = Some addr" "canonical_email rawEmail \<noteq> []"
    and cr: "CreatePasswordReset d t1 (ua_ID u) ?h (t1 + 1800 * second) = Inr (p, d1)"
    and l: "link = TrimRight (\<lambda>c. c = CHR ''/'') (h_guiBase h) @ ''/reset-password?token='' @ hex_encode raw"
    using req(1) by (auto simp: PasswordResetRequest_def Let_def split: if_splits sum.splits option.splits)
  have tok: "pc_Token pc = hex_encode raw" using link l by simp
  moreover have "hex_encode raw \<noteq> []" using req(2) by (cases raw) auto
  ultimately have tok: "pc_Token pc = hex_encode raw" "hex_encode raw \<noteq> []" "pc_Token pc \<noteq> []" by simp_all
  have p: "password_resets d1 = password_resets d @ [p]" "prs_TokenHash p = ?h" "prs_ConsumedAt p = None"
    "prs_ExpiresAt p = t1 + 1800 * second" "prs_UserAccountID p = ua_ID u" "user_accounts d1 = user_accounts d" "auth_local d1 = auth_local d"
    and fresh: "\<forall>q \<in> set (password_resets d). prs_TokenHash q \<noteq> ?h"
    using cr by (auto simp: CreatePasswordReset_def Let_def split: if_splits)
  have "find (\<lambda>q. prs_TokenHash q = ?h \<and> prs_ConsumedAt q = None \<and> t2 < prs_ExpiresAt q) (password_resets d) = None"
    using fresh by (auto simp: find_None_iff)
  then have act: "GetActivePasswordReset d1 t2 ?h = Inr p" using p pc(2) by (simp add: GetActivePasswordReset_def find_snoc)
  obtain key where "IDKey (pc_Password pc) salt 3 65536 2 32 = Some key" using argon unfolding argon2_def by blast
  then obtain hash where hash: "HashPassword IDKey (Some salt) (pc_Password pc) = Inr hash"
    by (auto simp: HashPassword_def argonTime_def argonMemory_def argonThreads_def argonHashLen_def)
  have "u \<in> set (user_accounts d1)" using u(1) p(6) by (auto simp: GetUserAccountByEmail_def one_def dest!: find_SomeD split: option.splits)
  then obtain d' where up: "UpsertAuthLocal d1 t2 (ua_ID u) hash = Inr d'"
    by (cases "UpsertAuthLocal d1 t2 (ua_ID u) hash") (auto simp: UpsertAuthLocal_def account_exists_def split: if_splits)
  define d2 where "d2 = ConsumePasswordReset d' t2 (prs_ID p)"
  have conf: "PasswordResetConfirm sha256 IDKey (Some salt) (\<lambda>_. False) t2 d1 (Some pc) = (NoContent, d2)"
    using tok pc(1) act hash up p(5) by (simp add: PasswordResetConfirm_def at_def d2_def)
  note E = UpsertAuthLocal_effect [OF up]
  have d2: "auth_local d2 = auth_local d'" "user_accounts d2 = user_accounts d" using E(4) p(6) by (simp_all add: d2_def ConsumePasswordReset_def)
  obtain al where al: "GetAuthLocal d2 (ua_ID u) = Inr al" "al_PasswordHash al = hash"
    using E(1,5) d2 by (cases "GetAuthLocal d2 (ua_ID u)") (auto simp: GetAuthLocal_def find_None_iff dest!: find_SomeD)
  have login: "Login IDKey jwt_sign h (\<lambda>_. False) t d2 (Some lb) =
         (if IDKey (lr_Password lb) salt 3 65536 2 32 = IDKey (pc_Password pc) salt 3 65536 2 32 then session jwt_sign h u t
          else ErrorResp 401 ''unauthenticated'')"
    if "canonical_email (lr_Email lb) = canonical_email rawEmail" "lr_Password lb \<noteq> []" for lb jwt_sign t
    by (rule Login_password [OF argon, of salt _ al]) (use u hash al that d2 in \<open>simp_all add: GetUserAccountByEmail_def\<close>)
  have others: "GetAuthLocal d2 i = GetAuthLocal d i" if "i \<noteq> ua_ID u" for i
    using upsert_other_account [OF up that] d2(1) p(7) by (simp add: GetAuthLocal_def)
  have "db_ok d1" by (rule db_ok_CreatePasswordReset [OF cr ok])
  then have "distinct (map prs_TokenHash (password_resets d'))" "p \<in> set (password_resets d')"
    using E(3) p(1) by (simp_all add: db_ok_def resets_ok_def)
  then have spent: "GetActivePasswordReset d2 t3 ?h = Inl NoRows" for t3
    using ConsumePasswordReset_spends [of p d' t2 t3] p(2) by (simp add: d2_def)
  have "PasswordResetConfirm sha256 IDKey (Some salt) (\<lambda>_. False) t3 d2 (Some pc') = (ErrorResp 401 ''unauthenticated'', d2)"
    if "pc_Token pc' = pc_Token pc" "12 \<le> length (pc_Password pc')" for t3 pc'
    using that tok spent by (simp add: PasswordResetConfirm_def at_def)
  then show ?thesis using u(1,2) conf login others by blast
qed

text \<open>
  C9. The first administrator. When registrations come one at a time the first-user hook is called for at
  most one of them. Two registrations at the same time on an empty system can both count
  no account, both succeed, and the hook then makes both of them administrators. (The creation of an
  account at the first OIDC sign-in counts in the same way.)
\<close>

theorem first_user_race:
  "(\<forall>(d :: 'c db) s. serial_step\<^sup>*\<^sup>* (no_registrations d) s \<longrightarrow> length (rg_admins s) \<le> 1) \<and>
   (\<exists>(s :: int registrations) ua ub. registration_step\<^sup>*\<^sup>* (no_registrations (empty_db 7)) s \<and>
      rg_pending s = [] \<and> user_accounts (rg_db s) = [ua, ub] \<and> set (rg_admins s) = {ua_AccountHolder ua, ua_AccountHolder ub} \<and>
      ua_AccountHolder ua \<noteq> ua_AccountHolder ub)"
proof (intro conjI allI impI)
  fix d :: "'c db" and s
  assume "serial_step\<^sup>*\<^sup>* (no_registrations d) s"
  then have "serial_inv s" by (rule serial.reachable_inv [OF refl])
  then show "length (rg_admins s) \<le> 1" by (simp add: serial_inv_def)
next
  show "\<exists>(s :: int registrations) ua ub. registration_step\<^sup>*\<^sup>* (no_registrations (empty_db 7)) s \<and>
      rg_pending s = [] \<and> user_accounts (rg_db s) = [ua, ub] \<and> set (rg_admins s) = {ua_AccountHolder ua, ua_AccountHolder ub} \<and>
      ua_AccountHolder ua \<noteq> ua_AccountHolder ub"
    using two_admins by blast
qed

theorem first_user_race_witness:
  "\<exists>s :: int registrations. serial_step\<^sup>*\<^sup>* (no_registrations (empty_db 7)) s \<and> rg_pending s = [True] \<and> length (rg_admins s) \<le> 1"
proof -
  let ?s = "no_registrations (empty_db 7) :: int registrations"
  have "serial_step ?s (?s\<lparr>rg_pending := [True]\<rparr>)"
    using registration_step.begin_count [of ?s] by (simp add: serial_step_def no_registrations_def)
  then have r: "serial_step\<^sup>*\<^sup>* ?s (?s\<lparr>rg_pending := [True]\<rparr>)" by (rule r_into_rtranclp [where r = serial_step])
  then have "length (rg_admins (?s\<lparr>rg_pending := [True]\<rparr>)) \<le> 1" using first_user_race by blast
  with r show ?thesis by (intro exI [of _ "?s\<lparr>rg_pending := [True]\<rparr>"]) simp
qed

section \<open>Examples\<close>

lemma argon2_demo: "argon2 demo_id_key"
  by (auto simp: argon2_def demo_id_key_def)

definition demo_handler :: Handler where
  "demo_handler = \<lparr>h_jwtSecret = [], h_signer = Some \<lparr>sg_key = EdDSAKey (replicate 64 (CHR ''k'')), sg_kid = ''a''\<rparr>,
     h_issuer = ''urn:mod-users'', h_guiBase = ''g/''\<rparr>"

definition demo_checker :: Verifier where
  "demo_checker = \<lparr>oidcVerifier = None, localSecret = [], localIssuer = ''urn:mod-users'', edKeys = [''a'' \<mapsto> replicate 32 (CHR ''k'')]\<rparr>"

lemma wired_demo: "wired demo_crypto (\<lambda>_ _ _. None) demo_sign (demo_config ''EdDSA'') demo_checker demo_handler demo_resolver"
  using demo_signer(2) demo_verifier(2) [of "\<lambda>_ _ _. None"] compact_jws_demo
  by (auto simp: wired_def jwtSigner_def demo_handler_def demo_checker_def demo_resolver_def demo_config_def)

lemma session_demo:
  obtains tok where "session demo_sign demo_handler ua t = SessionResp tok ua"
  by (simp add: session_def issueLocalJWT_def jwtSigner_def demo_handler_def IssueLocalJWTWithSigner_def
      Signer_Sign_def demo_sign_def Let_def)

theorem registration_journey_witness:
  "\<exists>ua tok d1 m d2 d3 u. Register demo_id_key (Some ''salt'') demo_core ''u1'' (\<lambda>_. False) 0 (empty_db ()) (Some demo_registration) =
       (CreatedResp ua, d1, Some 7) \<and>
     sendEmailCode (Some 42) Some (\<lambda>_. False) 1 d1 ''a@b'' ''verify_email'' = (Some m, d2) \<and>
     EmailCodeVerify (=) demo_sign demo_handler (\<lambda>_. False) 2 d2
       (Some \<lparr>ev_Email = ''a@b'', ev_Code = mail_code m, ev_Purpose = ''verify_email''\<rparr>) = (NoContent, d3) \<and>
     admitted u (verified_gate demo_crypto demo_checker ''admin'' demo_core demo_resolver Some 3 d3 (''Bearer '' @ tok))"
proof -
  obtain ua d1 where r: "Register demo_id_key (Some ''salt'') demo_core ''u1'' (\<lambda>_. False) 0 (empty_db ())
      (Some demo_registration) = (CreatedResp ua, d1, Some 7)"
    by (rule Register_demo)
  have inv: "addresses_inv (empty_db ())" by (simp add: addresses_inv_def)
  note R = Register_account [OF r]
  have can: "canonical_email (rg_Email demo_registration) = ''a@b''" by (simp add: demo_registration_def)
  have "addresses_inv d1" using account_step_inv [OF account_step.register [OF r] inv] .
  then have look: "GetUserAccountByEmail d1 ''a@b'' = Inr ua"
    using addresses_lookup [of d1 ua "''a@b''" "''a@b''"] R(1,2) can by simp
  obtain tok where t: "session demo_sign demo_handler ua 0 = SessionResp tok ua" by (rule session_demo)
  obtain m d2 where m: "sendEmailCode (Some 42) Some (\<lambda>_. False) 1 d1 ''a@b'' ''verify_email'' = (Some m, d2)"
    using look R(1,2,7) can
    by (simp add: sendEmailCode_def publicEmailCodePurpose_def at_def HasRecentEmailCode_def CreateEmailCodeWithCooldown_def
        CreateEmailCode_def email_code_purposes_def account_exists_def Let_def)
  let ?lb = "\<lparr>lr_Email = ''a@b'', lr_Password = rg_Password demo_registration\<rparr>"
  let ?vb = "\<lparr>ev_Email = ''a@b'', ev_Code = mail_code m, ev_Purpose = ''verify_email''\<rparr>"
  have now: "3 \<le> Unix (0 + day) * second" by (simp add: Unix_def day_def second_def)
  from registration_journey [OF r inv argon2_demo, of ?lb demo_crypto "\<lambda>_ _ _. None" demo_sign "demo_config ''EdDSA''" demo_checker demo_handler demo_resolver
      0 tok 3 Some "42" Some "\<lambda>_. False" 1 "''a@b''" m d2 "(=)" 2 ?vb "''admin''"]
  have "\<exists>d3 u. EmailCodeVerify (=) demo_sign demo_handler (\<lambda>_. False) 2 d2 (Some ?vb) = (NoContent, d3) \<and>
      admitted u (verified_gate demo_crypto demo_checker ''admin'' demo_core demo_resolver Some 3 d3 (''Bearer '' @ tok))"
    using wired_demo t now m can by (auto simp: second_def)
  with r m show ?thesis by blast
qed

theorem reset_journey_witness:
  "\<exists>ua tok d1 d2 d3 addr link. Register demo_id_key (Some ''salt'') demo_core ''u1'' (\<lambda>_. False) 0 (empty_db ()) (Some demo_registration) =
       (CreatedResp ua, d1, Some 7) \<and>
     PasswordResetRequest id (Some ''xyz'') demo_handler (\<lambda>_. False) 1 d1 ''a@b'' = (Some (addr, link), d2) \<and>
     PasswordResetConfirm id demo_id_key (Some ''other'') (\<lambda>_. False) 2 d2
       (Some \<lparr>pc_Token = hex_encode ''xyz'', pc_Password = ''battery staple''\<rparr>) = (NoContent, d3) \<and>
     Login demo_id_key demo_sign demo_handler (\<lambda>_. False) 3 d3 (Some \<lparr>lr_Email = ''a@b'', lr_Password = ''battery staple''\<rparr>) = SessionResp tok ua"
proof -
  obtain ua d1 where r: "Register demo_id_key (Some ''salt'') demo_core ''u1'' (\<lambda>_. False) 0 (empty_db ())
      (Some demo_registration) = (CreatedResp ua, d1, Some 7)"
    by (rule Register_demo)
  have inv: "addresses_inv (empty_db ())" by (simp add: addresses_inv_def)
  note R = Register_account [OF r]
  have can: "canonical_email (rg_Email demo_registration) = ''a@b''" by (simp add: demo_registration_def)
  have inv1: "addresses_inv d1" using account_step_inv [OF account_step.register [OF r] inv] .
  then have look: "GetUserAccountByEmail d1 ''a@b'' = Inr ua"
    using addresses_lookup [of d1 ua "''a@b''" "''a@b''"] R(1,2) can by simp
  have "password_resets d1 = []"
    using r by (auto simp: Register_def Let_def CreateUserAccount_def UpsertAuthLocal_def split: if_splits sum.splits prod.splits)
  then obtain addr link d2 where q: "PasswordResetRequest id (Some ''xyz'') demo_handler (\<lambda>_. False) 1 d1 ''a@b'' = (Some (addr, link), d2)"
    "link = TrimRight (\<lambda>c. c = CHR ''/'') (h_guiBase demo_handler) @ ''/reset-password?token='' @ hex_encode ''xyz''"
    using look R(1,2) can by (simp add: PasswordResetRequest_def at_def CreatePasswordReset_def account_exists_def Let_def)
  let ?pc = "\<lparr>pc_Token = hex_encode ''xyz'', pc_Password = ''battery staple''\<rparr>"
  obtain tok where t: "session demo_sign demo_handler ua 3 = SessionResp tok ua" by (rule session_demo)
  have ok: "db_ok d1" using inv1 by (simp add: addresses_inv_def)
  obtain u d3 where c: "GetUserAccountByEmail d1 (canonical_email ''a@b'') = Inr u"
    "PasswordResetConfirm id demo_id_key (Some ''other'') (\<lambda>_. False) 2 d2 (Some ?pc) = (NoContent, d3)"
    and l: "\<And>lb jwt_sign t. canonical_email (lr_Email lb) = canonical_email ''a@b'' \<and> lr_Password lb \<noteq> [] \<Longrightarrow>
       Login demo_id_key jwt_sign demo_handler (\<lambda>_. False) t d3 (Some lb) =
         (if demo_id_key (lr_Password lb) ''other'' 3 65536 2 32 = demo_id_key (pc_Password ?pc) ''other'' 3 65536 2 32
          then session jwt_sign demo_handler u t else ErrorResp 401 ''unauthenticated'')"
    using reset_journey [OF q(1) _ ok argon2_demo, of ?pc 2 "''other''"] q(2) by (auto simp: second_def)
  have "u = ua" using c(1) look by simp
  with l [of "\<lparr>lr_Email = ''a@b'', lr_Password = ''battery staple''\<rparr>" demo_sign 3] t
  have "Login demo_id_key demo_sign demo_handler (\<lambda>_. False) 3 d3 (Some \<lparr>lr_Email = ''a@b'', lr_Password = ''battery staple''\<rparr>) = SessionResp tok ua"
    by simp
  with r q(1) c(2) show ?thesis by blast
qed

end
