(* ===== verification/Credentials.thy ===== *)
theory Credentials
  imports Journeys Identities
begin

text \<open>
  A change of credentials from its beginning: the code that is mailed for the step-up challenge, the token it is
  exchanged for, the change that uses the token up, and the sign-in it leads to.
\<close>

section \<open>The steps\<close>

text \<open>A mailed step-up code, given back in time, is exchanged for a token.\<close>

lemma step_up_code_exchanged:
  assumes ok: "db_ok d" and mail: "sendStepUpCode (Some n) hash h flt t1 d uc = (Some m, d1)"
    and bcrypt: "\<And>code hs. hash code = Some hs \<Longrightarrow> bcrypt_ok hs code" and time: "t2 < t1 + 300 * second"
    and key: "ih_jwtSecret h \<noteq> []"
  obtains tok d2 where "mail_to m = uc_Email uc"
    "StepUpVerify mac bcrypt_ok h (Some raw) (\<lambda>_. False) t2 d1 uc (Some (mail_code m)) = (IdStepUpToken tok 300, d2)"
    "IssueStepUpToken mac (ih_jwtSecret h) (uc_UserAccountID uc) StepUpTTL (Some raw) t2 = Inr (tok, hex_encode raw, t2 + StepUpTTL)"
    "tok \<noteq> []" "d2 = d\<lparr>email_codes := email_codes d2, next_id := next_id d2\<rparr>"
proof -
  obtain hs c where hs: "hash (six_digits n) = Some hs" and m: "mail_to m = uc_Email uc" "mail_code m = six_digits n"
    and cr: "CreateEmailCodeWithCooldown d t1 (uc_UserAccountID uc) hs ''credential_change'' (t1 + 300 * second) 60 = Inr (c, d1)"
    using mail
    by (auto simp: sendStepUpCode_def generateEmailCode_def at_def emailCodeRequestCooldown_def second_def split: if_splits sum.splits option.splits)
  obtain claimed cs cs' where code: "GetActiveEmailCode d1 t2 (uc_UserAccountID uc) ''credential_change'' = Inr c"
    "ClaimEmailCodeAttempt d1 t2 (ec_ID c) 5 = Inr (claimed, d1\<lparr>email_codes := cs\<rparr>)" "ec_CodeHash claimed = hs" "ec_ConsumedAt claimed = None"
    "ConsumeEmailCode (d1\<lparr>email_codes := cs\<rparr>) t2 (ec_ID c) = (1, d1\<lparr>email_codes := cs'\<rparr>)"
    and d1: "d1 = d\<lparr>email_codes := email_codes d1, next_id := next_id d1\<rparr>"
    by (rule new_code_usable [OF ok cr _ time]) simp
  obtain tok where tok: "IssueStepUpToken mac (ih_jwtSecret h) (uc_UserAccountID uc) StepUpTTL (Some raw) t2 = Inr (tok, hex_encode raw, t2 + StepUpTTL)"
    "tok \<noteq> []"
    using key by (simp add: IssueStepUpToken_def Let_def)
  then have "StepUpVerify mac bcrypt_ok h (Some raw) (\<lambda>_. False) t2 d1 uc (Some (mail_code m)) =
      (IdStepUpToken tok 300, d1\<lparr>email_codes := cs'\<rparr>)"
    using code bcrypt [OF hs] six_digits_nonempty [of n]
    by (simp add: StepUpVerify_def Let_def at_def m(2) maxEmailCodeAttempts_def issue_step_up_def StepUpTTL_def second_def)
  moreover obtain x i where "d1 = d\<lparr>email_codes := x, next_id := i\<rparr>" using d1 by blast
  then have "d1\<lparr>email_codes := cs'\<rparr> = d\<lparr>email_codes := email_codes (d1\<lparr>email_codes := cs'\<rparr>), next_id := next_id (d1\<lparr>email_codes := cs'\<rparr>)\<rparr>" by simp
  ultimately show thesis using m(1) tok that by blast
qed

text \<open>The token passes the gate once.\<close>

lemma issued_token_once:
  assumes iss: "IssueStepUpToken mac (ih_jwtSecret h) u StepUpTTL (Some raw) t2 = Inr (tok, jti, exp)" "tok \<noteq> []"
    and int: "in_int64 u" "in_int64 (Unix exp)" and h: "ih_stepUpRequired h" and time: "Unix t3 \<le> Unix (t2 + StepUpTTL)"
    and fresh: "c jti = None"
  shows "requireStepUp mac h tok u t3 c = (Inr (), c(jti \<mapsto> Unix (t2 + StepUpTTL)))"
    and "requireStepUp mac h tok v t4 (c(jti \<mapsto> Unix (t2 + StepUpTTL))) = (Inl ErrStepUpRequired, c(jti \<mapsto> Unix (t2 + StepUpTTL)))"
  using checkStepUpToken_issued [OF iss(1) int, of u t3] checkStepUpToken_issued [OF iss(1) int, of v t4] assms(2) h time fresh
  by (auto simp: requireStepUp_def checkStepUp_def VerifyStepUpToken_def isConsumedJTI_def storeConsumedJTI_def)

section \<open>The properties\<close>

text \<open>
  C8. Adding a password to an account that signed in by a provider only. The code mailed to the caller,
  given back within five minutes, is exchanged for a token; with the token, within its five minutes,
  the caller sets a password; with the account's address, in any writing, that password and no other of another
  argon2 key then opens a session for the account. The token is spent, for every account and every kind of change,
  and the credentials of all other accounts are what they were.
\<close>

theorem step_up_journey:
  assumes inv: "addresses_inv d" and u: "u \<in> set (user_accounts d)" "ua_ID u = uc_UserAccountID uc" "ua_Email u = Some e"
    and none: "GetAuthLocal d (ua_ID u) = Inl NoRows"
    and mail: "sendStepUpCode (Some n) hash h flt t1 d uc = (Some m, d1)"
    and bcrypt: "\<And>code hs. hash code = Some hs \<Longrightarrow> bcrypt_ok hs code"
    and time: "t2 < t1 + 300 * second" "Unix t3 \<le> Unix (t2 + StepUpTTL)"
    and h: "ih_stepUpRequired h" "ih_jwtSecret h \<noteq> []"
    and int: "in_int64 (ua_ID u)" "in_int64 (Unix (t2 + StepUpTTL))" and fresh: "c (hex_encode raw) = None"
    and pw: "argon2 IDKey" "12 \<le> length pw"
  shows "\<exists>tok d2 c3 d3. mail_to m = uc_Email uc \<and>
    StepUpVerify mac bcrypt_ok h (Some raw) (\<lambda>_. False) t2 d1 uc (Some (mail_code m)) = (IdStepUpToken tok 300, d2) \<and>
    SetPassword mac IDKey (Some salt) h (\<lambda>_. False) t3 d2 c uc tok (Some \<lparr>sp_CurrentPassword = None, sp_NewPassword = pw\<rparr>) =
      (IdNoContent, c3, d3) \<and>
    (\<forall>lb lh jwt_sign t. canonical_email (lr_Email lb) = canonical_email e \<and> lr_Password lb \<noteq> [] \<longrightarrow>
       Login IDKey jwt_sign lh (\<lambda>_. False) t d3 (Some lb) =
         (if IDKey (lr_Password lb) salt 3 65536 2 32 = IDKey pw salt 3 65536 2 32 then session jwt_sign lh u t
          else ErrorResp 401 ''unauthenticated'')) \<and>
    (\<forall>t4 v. requireStepUp mac h tok v t4 c3 = (Inl ErrStepUpRequired, c3)) \<and>
    others_same (ua_ID u) d d3"
proof -
  have ok: "db_ok d" using inv by (simp add: addresses_inv_def)
  obtain tok d2 where V: "mail_to m = uc_Email uc"
      "StepUpVerify mac bcrypt_ok h (Some raw) (\<lambda>_. False) t2 d1 uc (Some (mail_code m)) = (IdStepUpToken tok 300, d2)"
    and iss: "IssueStepUpToken mac (ih_jwtSecret h) (ua_ID u) StepUpTTL (Some raw) t2 = Inr (tok, hex_encode raw, t2 + StepUpTTL)" "tok \<noteq> []"
    and d2: "d2 = d\<lparr>email_codes := email_codes d2, next_id := next_id d2\<rparr>"
    by (rule step_up_code_exchanged [where mac = mac and raw = raw, OF ok mail bcrypt time(1) h(2), folded u(2)])
  have tab: "user_accounts d2 = user_accounts d" "auth_local d2 = auth_local d" "auth_oidc_identities d2 = auth_oidc_identities d"
    by (subst d2, simp)+
  let ?c = "c(hex_encode raw \<mapsto> Unix (t2 + StepUpTTL))"
  note gate = issued_token_once [where c = c, OF iss int h(1) time(2) fresh]
  have "IDKey pw salt 3 65536 2 32 \<noteq> None" using pw(1) unfolding argon2_def by blast
  then obtain k where "IDKey pw salt 3 65536 2 32 = Some k" by blast
  then obtain hash where H: "HashPassword IDKey (Some salt) pw = Inr hash"
    by (simp add: HashPassword_def argonTime_def argonMemory_def argonThreads_def argonHashLen_def)
  have "account_exists d2 (ua_ID u)" using u(1) tab(1) by (auto simp: account_exists_def)
  then obtain d3 where d3: "UpsertAuthLocal d2 t3 (ua_ID u) hash = Inr d3"
    unfolding UpsertAuthLocal_def by (metis (no_types, lifting))
  have no: "GetAuthLocal d2 (ua_ID u) = Inl NoRows" using none tab(2) by (simp add: GetAuthLocal_def)
  have tx: "set_password_tx (ih_obs h) (\<lambda>_. False) t3 d2 (ua_ID u) hash = (IdNoContent, d3)"
    using d3 by (simp add: set_password_tx_def at_def)
  have S: "SetPassword mac IDKey (Some salt) h (\<lambda>_. False) t3 d2 c uc tok (Some \<lparr>sp_CurrentPassword = None, sp_NewPassword = pw\<rparr>) =
      (IdNoContent, ?c, d3)"
    using gate(1) no H tx pw(2) by (auto simp: SetPassword_def setPassword_Validate_def at_def current_password_ok_def u(2))
  obtain al where al: "GetAuthLocal d3 (ua_ID u) = Inr al" "HashPassword IDKey (Some salt) pw = Inr (al_PasswordHash al)"
    using UpsertAuthLocal_effect(1,5) [OF d3] H
    by (cases "GetAuthLocal d3 (ua_ID u)") (auto simp: GetAuthLocal_def find_None_iff dest!: find_SomeD)
  have login: "Login IDKey jwt_sign lh (\<lambda>_. False) t d3 (Some lb) =
      (if IDKey (lr_Password lb) salt 3 65536 2 32 = IDKey pw salt 3 65536 2 32 then session jwt_sign lh u t
       else ErrorResp 401 ''unauthenticated'')"
    if "canonical_email (lr_Email lb) = canonical_email e" "lr_Password lb \<noteq> []" for lb lh jwt_sign t
  proof (rule Login_password [OF pw(1) al(2) _ al(1) _ that(2)])
    show "GetUserAccountByEmail d3 (canonical_email (lr_Email lb)) = Inr u"
      using addresses_lookup [OF inv u(1,3) that(1)] UpsertAuthLocal_effect(4) [OF d3] tab(1) by (simp add: GetUserAccountByEmail_def)
    show "canonical_email (lr_Email lb) \<noteq> []"
      using inv u(1,3) that(1) by (force simp: addresses_inv_def stored_address_def)
  qed
  have "others_same (ua_ID u) d d3" using others_same_tx(3) [OF tx] tab by (simp add: others_same_def)
  with V S login gate(2) show ?thesis by blast
qed

section \<open>Examples\<close>

definition demo_account :: UserAccount where
  "demo_account = \<lparr>ua_ID = 1, ua_Uuid = ''u1'', ua_AccountHolder = 7, ua_Email = Some ''a@b'', ua_EmailVerifiedAt = Some 0,
     ua_DefaultAppID = None, ua_CreatedAt = 0, ua_UpdatedAt = 0\<rparr>"

theorem step_up_journey_witness:
  "\<exists>m d1 tok d2 c3 d3 u. sendStepUpCode (Some 42) Some (demo_ih True) (\<lambda>_. False) 1 (empty_db ()\<lparr>user_accounts := [u], next_id := 2\<rparr>) demo_uc = (Some m, d1) \<and>
     StepUpVerify (\<lambda>k m. m) (=) (demo_ih True) (Some ''r'') (\<lambda>_. False) 2 d1 demo_uc (Some (mail_code m)) = (IdStepUpToken tok 300, d2) \<and>
     SetPassword (\<lambda>k m. m) demo_id_key (Some ''salt'') (demo_ih True) (\<lambda>_. False) 3 d2 Map.empty demo_uc tok
       (Some \<lparr>sp_CurrentPassword = None, sp_NewPassword = ''long enough!''\<rparr>) = (IdNoContent, c3, d3) \<and>
     Login demo_id_key demo_sign Journeys.demo_handler (\<lambda>_. False) 4 d3 (Some \<lparr>lr_Email = '' A@b'', lr_Password = ''long enough!''\<rparr>) =
       session demo_sign Journeys.demo_handler u 4"
proof -
  let ?d = "empty_db ()\<lparr>user_accounts := [demo_account], next_id := 2\<rparr>"
  let ?lb = "\<lparr>lr_Email = '' A@b'', lr_Password = ''long enough!''\<rparr>"
  have can: "canonical_email ''a@b'' = ''a@b''" "canonical_email '' A@b'' = ''a@b''" by code_simp+
  have inv: "addresses_inv ?d"
    by (simp add: addresses_inv_def demo_account_def stored_address_def can db_ok_def accounts_ok_def identities_ok_def codes_ok_def locals_ok_def
        resets_ok_def keys_ok_def anon_ok_def apps_ok_def ids_ok_def fk_def account_exists_def empty_db_def)
  obtain m d1 where m: "sendStepUpCode (Some 42) Some (demo_ih True) (\<lambda>_. False) 1 ?d demo_uc = (Some m, d1)"
    by (simp add: sendStepUpCode_def demo_ih_def demo_uc_def HasRecentEmailCode_def CreateEmailCodeWithCooldown_def CreateEmailCode_def
        generateEmailCode_def at_def email_code_purposes_def account_exists_def demo_account_def Let_def empty_db_def)
  have "in_int64 (1 :: int)" "in_int64 (Unix (2 + StepUpTTL))" "Unix 3 \<le> Unix (2 + StepUpTTL)"
    "ih_stepUpRequired (demo_ih True)" "ih_jwtSecret (demo_ih True) \<noteq> []" "GetAuthLocal ?d 1 = Inl NoRows"
    by (simp_all add: in_int64_def Unix_def second_def StepUpTTL_def demo_ih_def GetAuthLocal_def empty_db_def)
  with step_up_journey [OF inv _ _ _ _ m, of demo_account "''a@b''" "(=)" 2 3 "Map.empty" "''r''" demo_id_key "''long enough!''"
      "\<lambda>k m. m" "''salt''"] argon2_demo
  obtain tok d2 c3 d3 where V: "StepUpVerify (\<lambda>k m. m) (=) (demo_ih True) (Some ''r'') (\<lambda>_. False) 2 d1 demo_uc (Some (mail_code m)) = (IdStepUpToken tok 300, d2)"
    and S: "SetPassword (\<lambda>k m. m) demo_id_key (Some ''salt'') (demo_ih True) (\<lambda>_. False) 3 d2 Map.empty demo_uc tok
       (Some \<lparr>sp_CurrentPassword = None, sp_NewPassword = ''long enough!''\<rparr>) = (IdNoContent, c3, d3)"
    and L: "\<And>lb lh jwt_sign t. canonical_email (lr_Email lb) = canonical_email ''a@b'' \<and> lr_Password lb \<noteq> [] \<Longrightarrow>
       Login demo_id_key jwt_sign lh (\<lambda>_. False) t d3 (Some lb) =
         (if demo_id_key (lr_Password lb) ''salt'' 3 65536 2 32 = demo_id_key ''long enough!'' ''salt'' 3 65536 2 32 then session jwt_sign lh demo_account t
          else ErrorResp 401 ''unauthenticated'')"
    by (auto simp: demo_account_def second_def)
  have "Login demo_id_key demo_sign Journeys.demo_handler (\<lambda>_. False) 4 d3 (Some ?lb) = session demo_sign Journeys.demo_handler demo_account 4"
    using L [of ?lb] can by simp
  with m V S show ?thesis by blast
qed

end
