(* ===== verification/Boot.thy ===== *)
theory Boot
  imports Journeys Config ProviderAdmin
begin

text \<open>
  The start of the standalone server, \<open>cmd/server/main.go\<close>: from the environment and the
  tables to the running components, or the exit. The result has what the routes are mounted with.

  The start writes the JWT secret (first boot) and the setup token; everything else reads. The
  tables of the onboarding outlive the process, the rest of \<open>onb_state\<close> is what a process has in memory,
  so a restart is \<open>boot\<close> on the state the previous process left.
  Steps of other modules that can only fail are fault sites.
\<close>

section \<open>The start\<close>

datatype boot_exit =
    ConfigLoadFailed "config_problem list"
  | OtelInitFailed
  | DatabaseFailed
  | VerifierInitFailed jwt_error
  | MapperInitFailed claim_error
  | AnonymousActorFailed anon_error
  | ProviderMergeFailed db_error
  | OAuthInitFailed oauth_error
  | StateLoadFailed db_error
  | OverridesFailed onb_error
  | NotConfirmed
  | SetupTokenFailed onb_error
  | ModuleInitFailed nat
  | SignerInitFailed jwt_error
  | StepUpKeyFailed jwt_error

text \<open>The libraries, the environment, and the anonymous actor's two look-ups.\<close>

record boot_world =
  bw_config :: config_libs
  bw_crypto :: crypto
  bw_discovery :: discovery
  bw_libs :: libs
  bw_sha256 :: "string \<Rightarrow> string"
  bw_env :: environ
  bw_actor :: "string \<Rightarrow> int query"
  bw_hasGrants :: "int \<Rightarrow> bool query"

record booted =
  bt_cfg :: Config
  bt_verifier :: Verifier
  bt_mapper :: "claims \<Rightarrow> (claim_error, Principal) result"
  bt_anonymous :: int
  bt_resolver :: UserResolver
  bt_onboarding :: OIDCConfigDeps
  bt_handler :: Handler
  bt_stepUpSecret :: string
  bt_display :: boot_result

definition cold :: "OAuth \<Rightarrow> onb_state \<Rightarrow> onb_state" where
  "cold oa st = st\<lparr>on_oauth := oa, on_cachedDB := None, on_cachedBoot := None, on_plain := []\<rparr>"

definition with_providers :: "ProviderRegistry \<Rightarrow> Config \<Rightarrow> Config" where
  "with_providers registry cfg = cfg\<lparr>cfg_Providers := registry\<rparr>"

text \<open>
  The components that serve requests, once the onboarding is in place. Sites: 11 field cipher,
  12 type resolver, 13 operation registry, 14 access functions.
\<close>

definition build_handlers ::
  "boot_world \<Rightarrow> faults \<Rightarrow> Config \<Rightarrow> Verifier \<Rightarrow> (claims \<Rightarrow> (claim_error, Principal) result) \<Rightarrow> int \<Rightarrow> OIDCConfigDeps \<Rightarrow> boot_result
     \<Rightarrow> (boot_exit, booted) result" where
  "build_handlers W flt cfg v mapper anon D display =
     (if flt 11 then Inl (ModuleInitFailed 11)
      else if flt 12 then Inl (ModuleInitFailed 12)
      else if flt 13 then Inl (ModuleInitFailed 13)
      else if flt 14 then Inl (ModuleInitFailed 14)
      else
        (case NewSigner (cfg_LocalAuth cfg) of
           Inl e \<Rightarrow> Inl (SignerInitFailed e)
         | Inr signer \<Rightarrow>
             (case StepUpKey (bw_crypto W) (cfg_LocalAuth cfg) of
                Inl e \<Rightarrow> Inl (StepUpKeyFailed e)
              | Inr key \<Rightarrow>
                  Inr \<lparr>bt_cfg = cfg, bt_verifier = v, bt_mapper = mapper, bt_anonymous = anon,
                       bt_resolver = \<lparr>rs_localIssuer = LocalIssuer (cfg_LocalAuth cfg), rs_obs = True, rs_firstUserHook = True\<rparr>,
                       bt_onboarding = D,
                       bt_handler = \<lparr>h_jwtSecret = [], h_signer = Some signer, h_issuer = LocalIssuer (cfg_LocalAuth cfg),
                                     h_guiBase = srv_GUIBaseURL (cfg_Server cfg)\<rparr>,
                       bt_stepUpSecret = key, bt_display = display\<rparr>)))"

text \<open>
  \<open>fltT\<close> are the faults of the setup token. Sites: 0 tracing, 1 pool, 2 override rows, 3 and 4 verdict,
  5 to 7 overrides.
\<close>

definition start_onboarding ::
  "boot_world \<Rightarrow> faults \<Rightarrow> faults \<Rightarrow> instant \<Rightarrow> string \<Rightarrow> Config \<Rightarrow> OAuth \<Rightarrow> onb_state \<Rightarrow> (boot_exit, OIDCConfigDeps \<times> boot_result) result \<times> onb_state" where
  "start_onboarding W flt fltT now rnd cfg oa tables =
     (let D = \<lparr>od_libs = bw_libs W, od_sha256 = bw_sha256 W, od_EnvRegistry = cfg_Providers cfg, od_EnvNoOIDCEnv = oa_envNoOIDCAccounts oa\<rparr>
      in case RefreshState D flt 3 (cold oa tables) of
           Inl e \<Rightarrow> (Inl (StateLoadFailed e), tables)
         | Inr st1 \<Rightarrow>
             (case ApplyDBOverridesToOAuth D flt 5 st1 of
                (Some e, st2) \<Rightarrow> (Inl (OverridesFailed e), st2)
              | (None, st2) \<Rightarrow>
                  (case EnsureSetupTokenAndPrint D fltT now rnd (cfg_TokenDisplay cfg) st2 of
                     (BootNotConfirmed, st3) \<Rightarrow> (Inl NotConfirmed, st3)
                   | (BootFailed e, st3) \<Rightarrow> (Inl (SetupTokenFailed e), st3)
                   | (display, st3) \<Rightarrow> (Inr (D, display), st3))))"

definition boot ::
  "boot_world \<Rightarrow> faults \<Rightarrow> faults \<Rightarrow> faults \<Rightarrow> instant \<Rightarrow> string option \<Rightarrow> string \<Rightarrow> 'c db \<Rightarrow> onb_state
     \<Rightarrow> (boot_exit, booted) result \<times> 'c db \<times> onb_state" where
  "boot W fltL flt fltT now rndL rnd d tables =
     (case Load (bw_config W) (bw_env W) fltL rndL d of
        (Inl ps, d1) \<Rightarrow> (Inl (ConfigLoadFailed ps), d1, tables)
      | (Inr cfg, d1) \<Rightarrow>
          (let stop = (\<lambda>e. (Inl e, d1, tables)) in
           if flt 0 then stop OtelInitFailed
           else if flt 1 then stop DatabaseFailed
           else
             (case NewLocalVerifier (bw_crypto W) (bw_discovery W) (cfg_LocalAuth cfg) of
                Inl e \<Rightarrow> stop (VerifierInitFailed e)
              | Inr v \<Rightarrow>
                  (case NewClaimMapper (visit (bw_libs W)) ''generic''
                          \<lparr>AdminRole = ac_AdminRole (cfg_Auth cfg), RolesNamespace = [], RolesPath = ''roles'', EmailPath = ''email''\<rparr> of
                     Inl e \<Rightarrow> stop (MapperInitFailed e)
                   | Inr mapper \<Rightarrow>
                       (case newAnonymousActor (bw_actor W) (bw_hasGrants W) of
                          Inl e \<Rightarrow> stop (AnonymousActorFailed e)
                        | Inr anon \<Rightarrow>
                            (case LoadMergedProviders (cfg_Providers cfg) (at flt 2 (ListOIDCProviders tables)) of
                               Inl e \<Rightarrow> stop (ProviderMergeFailed e)
                             | Inr merged \<Rightarrow>
                                 (let cfg' = with_providers (MergedRegistry merged) cfg
                                  in case NewOAuth (bw_crypto W) (bw_libs W) (Getenv (bw_env W) ''NO_OIDC_ACCOUNTS'')
                                            (Some (cfg_Auth cfg', cfg_LocalAuth cfg', cfg_Providers cfg')) of
                                       Inl e \<Rightarrow> stop (OAuthInitFailed e)
                                     | Inr oa \<Rightarrow>
                                         (case start_onboarding W flt fltT now rnd cfg' oa tables of
                                            (Inl e, st) \<Rightarrow> (Inl e, d1, st)
                                          | (Inr (D, display), st) \<Rightarrow>
                                              (build_handlers W flt cfg' v mapper anon D display, d1, st)))))))))"

section \<open>What a successful start went through\<close>

lemma boot_InrE:
  assumes "boot W fltL flt fltT now rndL rnd d tables = (Inr B, d1, st)"
  obtains cfg v merged oa D display where
    "Load (bw_config W) (bw_env W) fltL rndL d = (Inr cfg, d1)"
    "NewLocalVerifier (bw_crypto W) (bw_discovery W) (cfg_LocalAuth cfg) = Inr v"
    "LoadMergedProviders (cfg_Providers cfg) (at flt 2 (ListOIDCProviders tables)) = Inr merged"
    "start_onboarding W flt fltT now rnd (with_providers (MergedRegistry merged) cfg) oa tables = (Inr (D, display), st)"
    "build_handlers W flt (with_providers (MergedRegistry merged) cfg) v (local_mapper (ac_AdminRole (cfg_Auth cfg))) (bt_anonymous B) D display = Inr B"
    "newAnonymousActor (bw_actor W) (bw_hasGrants W) = Inr (bt_anonymous B)"
proof -
  have anon: "bt_anonymous B = a" if "build_handlers W flt c v m a D x = Inr B" for c v m a D x
    using that by (auto simp: build_handlers_def split: if_splits sum.splits)
  obtain cfg v merged oa D display a where
    "Load (bw_config W) (bw_env W) fltL rndL d = (Inr cfg, d1)"
    "NewLocalVerifier (bw_crypto W) (bw_discovery W) (cfg_LocalAuth cfg) = Inr v"
    "LoadMergedProviders (cfg_Providers cfg) (at flt 2 (ListOIDCProviders tables)) = Inr merged"
    "start_onboarding W flt fltT now rnd (with_providers (MergedRegistry merged) cfg) oa tables = (Inr (D, display), st)"
    "build_handlers W flt (with_providers (MergedRegistry merged) cfg) v (local_mapper (ac_AdminRole (cfg_Auth cfg))) a D display = Inr B"
    "newAnonymousActor (bw_actor W) (bw_hasGrants W) = Inr a"
    using assms unfolding boot_def Let_def local_mapper_eq
    by (clarsimp split: prod.splits sum.splits if_splits)
  with anon that show thesis by blast
qed

lemma build_handlers_Inr:
  assumes "build_handlers W flt cfg v mapper anon D display = Inr B"
  shows "bt_cfg B = cfg" "bt_verifier B = v" "bt_mapper B = mapper" "bt_onboarding B = D" "bt_display B = display"
    "\<exists>s. NewSigner (cfg_LocalAuth cfg) = Inr s \<and> jwtSigner (bt_handler B) = Inr s"
    "h_issuer (bt_handler B) = LocalIssuer (cfg_LocalAuth cfg)" "rs_localIssuer (bt_resolver B) = LocalIssuer (cfg_LocalAuth cfg)"
  using assms by (auto simp: build_handlers_def jwtSigner_def split: if_splits sum.splits)

lemma build_handlers_handler:
  "build_handlers W flt cfg v mapper anon D display = Inr B \<Longrightarrow>
     \<exists>sg iss g. bt_handler B = \<lparr>h_jwtSecret = [], h_signer = Some sg, h_issuer = iss, h_guiBase = g\<rparr>"
  by (auto simp: build_handlers_def split: if_splits sum.splits)

lemma anonymous_no_grants: "newAnonymousActor look hg = Inr a \<Longrightarrow> hg a = Inr False"
  by (auto simp: newAnonymousActor_def split: sum.splits db_error.splits if_splits)

lemma mint_token_live:
  assumes "mint_token D flt now rnd st = (Inr plain, st')" "\<And>m. length (od_sha256 D m) = 32"
  shows "verifySetupToken D st' plain \<and> on_plain st' = plain"
proof -
  obtain digest where g: "generateSetupTokenFrom (od_sha256 D) rnd = Inr (plain, digest)"
    and r: "RefreshState D flt 2 ((SetSetupTokenHash now digest st)\<lparr>on_plain := plain\<rparr>) = Inr st'"
    using assms(1) by (auto simp: mint_token_def Let_def split: sum.splits prod.splits if_splits)
  have "on_plain st' = plain" "cached_hash st' = Some digest"
    using r by (auto simp: RefreshState_def GetOIDCConfig_def at_def SetSetupTokenHash_def cached_hash_def split: sum.splits if_splits)
  moreover have "length plain = 64" "digest = hex_encode (od_sha256 D plain)"
    using g by (auto simp: generateSetupTokenFrom_def setupTokenBytes_def HashSetupToken_def Let_def split: if_splits)
  moreover from this have "length digest = 64" using assms(2) by simp
  then have "digest \<noteq> []" by auto
  ultimately have "plain \<noteq> []" "VerifySetupToken (od_sha256 D) plain digest" "on_plain st' = plain" "cached_hash st' = Some digest"
    by (auto simp: VerifySetupToken_def HashSetupToken_def)
  then show ?thesis by (simp add: verifySetupToken_def)
qed

text \<open>The verdict does not depend on the hash of the setup token.\<close>

lemma refresh_again_confirmed:
  assumes "ApplyDBOverridesToOAuth D flt k st = (None, st2)" "current_confirmed st2"
    and "RefreshState D flt' k' (ClearSetupTokenHash st2) = Inr st3"
  shows "current_confirmed st3"
proof -
  obtain st1 merged where "RefreshState D flt (k + 1) st1 = Inr st2"
    and m: "load_merged D flt (k + 2) st1 = Inr merged"
    and st2: "st2 = st1\<lparr>on_cachedDB := Some (on_row st1),
      on_cachedBoot := Some (DetermineBootState (buildProviderViews D (on_oauth st1) merged) (cf_OptOut (on_row st1)) (od_EnvNoOIDCEnv D))\<rparr>"
    using assms(1)
    by (auto simp: ApplyDBOverridesToOAuth_def RefreshState_def GetOIDCConfig_def at_def split: sum.splits if_splits)
  have "load_merged D flt' (k' + 1) (ClearSetupTokenHash st2) = Inr merged" if "\<not> flt' (k' + 1)"
    using m that by (auto simp: load_merged_def LoadMergedProviders_def st2 ClearSetupTokenHash_def ListOIDCProviders_def at_def split: if_splits)
  then have "st3 = (ClearSetupTokenHash st2)\<lparr>on_cachedDB := Some (on_row (ClearSetupTokenHash st2)), on_cachedBoot := on_cachedBoot st2\<rparr>"
    using assms(3)
    by (auto simp: RefreshState_def GetOIDCConfig_def st2 ClearSetupTokenHash_def load_merged_def LoadMergedProviders_def at_def split: sum.splits if_splits)
  then show ?thesis using assms(2) by (simp add: current_confirmed_def)
qed

lemma start_onboarding_Inr:
  assumes "start_onboarding W flt fltT now rnd cfg oa tables = (Inr (D, display), st)" "\<And>m. length (bw_sha256 W m) = 32"
  shows "od_EnvRegistry D = cfg_Providers cfg" "od_libs D = bw_libs W"
    "current_confirmed st \<or> cfg_TokenDisplay cfg \<noteq> ''none'' \<and> verifySetupToken D st (on_plain st)"
proof -
  obtain st1 st2 where D: "D = \<lparr>od_libs = bw_libs W, od_sha256 = bw_sha256 W, od_EnvRegistry = cfg_Providers cfg,
      od_EnvNoOIDCEnv = oa_envNoOIDCAccounts oa\<rparr>"
    and r: "RefreshState D flt 3 (cold oa tables) = Inr st1" "ApplyDBOverridesToOAuth D flt 5 st1 = (None, st2)"
    and e: "EnsureSetupTokenAndPrint D fltT now rnd (cfg_TokenDisplay cfg) st2 = (display, st)" "display \<noteq> BootNotConfirmed"
      "\<And>x. display \<noteq> BootFailed x"
    using assms(1) by (auto simp: start_onboarding_def Let_def split: sum.splits prod.splits option.splits boot_result.splits)
  show "od_EnvRegistry D = cfg_Providers cfg" "od_libs D = bw_libs W" by (simp_all add: D)
  have plain: "on_plain st2 = []"
    using r by (auto simp: ApplyDBOverridesToOAuth_def RefreshState_def rebuild_def cold_def split: sum.splits)
  have mint: "verifySetupToken D st (on_plain st)" if "mint_token D fltT now rnd x = (Inr p, st)" for x p
    using mint_token_live [OF that] assms(2) by (simp add: D)
  show "current_confirmed st \<or> cfg_TokenDisplay cfg \<noteq> ''none'' \<and> verifySetupToken D st (on_plain st)"
  proof (cases "cfg_TokenDisplay cfg = ''none''")
    case True
    then show ?thesis using e(1,2) by (auto simp: EnsureSetupTokenAndPrint_def split: if_splits)
  next
    case False
    then obtain p where t: "EnsureSetupToken D fltT now rnd st2 = (Inr p, st)"
      using e by (auto simp: EnsureSetupTokenAndPrint_def split: prod.splits sum.splits if_splits)
    show ?thesis
    proof (cases "current_confirmed st2")
      case True
      have keep: "current_confirmed st" if "RefreshState D fltT 2 (ClearSetupTokenHash st2) = Inr st"
        using refresh_again_confirmed [OF r(2) True that] .
      show ?thesis using t True keep by (auto simp: EnsureSetupToken_def split: if_splits sum.splits)
    next
      case no: False
      have "\<exists>x. mint_token D fltT now rnd x = (Inr p, st)"
        using t no plain by (auto simp: EnsureSetupToken_def split: if_splits)
      then show ?thesis using mint \<open>cfg_TokenDisplay cfg \<noteq> ''none''\<close> by blast
    qed
  qed
qed

section \<open>The providers of a started server\<close>

definition client_id :: "onb_state \<Rightarrow> string \<Rightarrow> string option" where
  "client_id st pid = map_option (\<lambda>s. pr_ClientID (ps_Provider s)) (map_of (oa_States (on_oauth st)) pid)"

lemma map_of_init: "map_of (map (\<lambda>(pid, p). (pid, f pid p)) ps) pid = map_option (f pid) (map_of ps pid)"
  by (induction ps) auto

lemma apply_providers:
  assumes "ApplyDBOverridesToOAuth D flt k st = (None, st2)" "distinct (map op_ID (on_providers st))"
  shows "on_providers st2 = on_providers st"
    and "client_id st2 pid = (let row = map_option toDBProviderRow (row_of (on_providers st) pid);
        m = mergeFields pid (map_of (od_EnvRegistry D) pid) row (wellKnownProviders pid);
        e = Effective m
      in if (pid \<in> fst ` set (od_EnvRegistry D) \<or> row \<noteq> None) \<and> MergedEnabled m \<and> pr_ClientID e \<noteq> [] \<and> pr_IssuerURL e \<noteq> [] \<and>
        pr_ClaimStyle e \<noteq> [] then Some (pr_ClientID e) else None)"
proof -
  obtain st1 merged ac where m: "load_merged D flt k st = Inr merged"
    and st1: "st1 = st\<lparr>on_oauth := (on_oauth st)\<lparr>oa_States := map (\<lambda>(pid, p). (pid, initProvider (od_libs D) ac pid p)) (MergedRegistry merged)\<rparr>\<rparr>"
    and r: "RefreshState D flt (k + 1) st1 = Inr st2"
    using assms(1) by (auto simp: ApplyDBOverridesToOAuth_def rebuild_def Rebuild_def split: sum.splits option.splits)
  have keep: "on_providers st2 = on_providers st" "on_oauth st2 = on_oauth st1"
    using r by (auto simp: RefreshState_def st1 split: sum.splits)
  then show "on_providers st2 = on_providers st" by simp
  have d: "distinct (map fst merged)"
    using m by (auto simp: load_merged_def LoadMergedProviders_def o_def split: sum.splits)
  have c: "client_id st2 pid = map_option pr_ClientID (map_of (MergedRegistry merged) pid)"
    by (simp add: client_id_def keep st1 map_of_init option.map_comp comp_def initProvider_def)
  have reg: "map_of (MergedRegistry merged) pid = (case map_of merged pid of None \<Rightarrow> None | Some m \<Rightarrow>
      if MergedEnabled m \<and> pr_ClientID (Effective m) \<noteq> [] \<and> pr_IssuerURL (Effective m) \<noteq> [] \<and> pr_ClaimStyle (Effective m) \<noteq> []
      then Some (Effective m) else None)"
    by (rule option_ext) (auto simp: map_of_MergedRegistry [OF d] split: option.splits)
  show "client_id st2 pid = (let row = map_option toDBProviderRow (row_of (on_providers st) pid);
        m = mergeFields pid (map_of (od_EnvRegistry D) pid) row (wellKnownProviders pid);
        e = Effective m
      in if (pid \<in> fst ` set (od_EnvRegistry D) \<or> row \<noteq> None) \<and> MergedEnabled m \<and> pr_ClientID e \<noteq> [] \<and> pr_IssuerURL e \<noteq> [] \<and>
        pr_ClaimStyle e \<noteq> [] then Some (pr_ClientID e) else None)"
    unfolding c reg Let_def map_of_load_merged [OF m assms(2), of pid] by simp
qed

lemma RefreshState_keeps: "RefreshState D flt k st = Inr st' \<Longrightarrow> on_providers st' = on_providers st \<and> on_oauth st' = on_oauth st"
  by (auto simp: RefreshState_def split: sum.splits)

lemma EnsureSetupTokenAndPrint_keeps:
  assumes "EnsureSetupTokenAndPrint D flt now rnd disp st = (x, st')"
  shows "on_providers st' = on_providers st \<and> on_oauth st' = on_oauth st"
proof -
  have c: "on_providers (ClearSetupTokenHash st) = on_providers st" "on_oauth (ClearSetupTokenHash st) = on_oauth st" for st
    by (simp_all add: ClearSetupTokenHash_def)
  have m: "on_providers st2 = on_providers st1 \<and> on_oauth st2 = on_oauth st1" if "mint_token D flt now rnd st1 = (r, st2)" for r st1 st2
    using that by (auto simp: mint_token_def Let_def SetSetupTokenHash_def split: sum.splits prod.splits if_splits dest!: RefreshState_keeps)
  have e: "on_providers st2 = on_providers st \<and> on_oauth st2 = on_oauth st" if "EnsureSetupToken D flt now rnd st = (r, st2)" for r st2
    using that by (auto simp: EnsureSetupToken_def c split: sum.splits if_splits dest!: RefreshState_keeps m)
  show ?thesis using assms by (auto simp: EnsureSetupTokenAndPrint_def split: if_splits prod.splits sum.splits dest!: e)
qed

definition effective :: "Config \<Rightarrow> OidcProvider list \<Rightarrow> string \<Rightarrow> Provider" where
  "effective cfg rows pid = Effective (mergeFields pid (map_of (cfg_Providers cfg) pid)
     (map_option toDBProviderRow (row_of rows pid)) (wellKnownProviders pid))"

lemma boot_client:
  assumes run: "boot W fltL flt fltT now rndL rnd d tables = (Inr B, d1, st)"
    and cfg: "Load (bw_config W) (bw_env W) fltL rndL d = (Inr cfg, d1)"
    and rows: "distinct (map op_ID (on_providers tables))" "\<And>r. row_of (on_providers tables) pid = Some r \<Longrightarrow> op_Enabled r"
    and env: "pid \<in> fst ` set (cfg_Providers cfg)"
    and E: "E = effective cfg (on_providers tables) pid" "pr_ClientID E \<noteq> []" "pr_IssuerURL E \<noteq> []" "pr_ClaimStyle E \<noteq> []"
  shows "on_providers st = on_providers tables" "map_of (od_EnvRegistry (bt_onboarding B)) pid = Some E"
    "client_id st pid = Some (pr_ClientID E)"
proof -
  obtain cfg' v merged oa D display where L: "Load (bw_config W) (bw_env W) fltL rndL d = (Inr cfg', d1)"
    and M: "LoadMergedProviders (cfg_Providers cfg') (at flt 2 (ListOIDCProviders tables)) = Inr merged"
    and O: "start_onboarding W flt fltT now rnd (with_providers (MergedRegistry merged) cfg') oa tables = (Inr (D, display), st)"
    and H: "build_handlers W flt (with_providers (MergedRegistry merged) cfg') v (local_mapper (ac_AdminRole (cfg_Auth cfg'))) (bt_anonymous B) D display = Inr B"
    by (rule boot_InrE [OF run])
  have "cfg' = cfg" using L cfg by simp
  then have M': "LoadMergedProviders (cfg_Providers cfg) (Inr (sort_key op_ID (on_providers tables))) = (Inr merged :: (db_error, _) result)"
    using M by (auto simp: at_def ListOIDCProviders_def LoadMergedProviders_def split: if_splits)
  have "D = bt_onboarding B" using build_handlers_Inr(4) [OF H] by simp
  obtain st1 st2 where reg: "od_EnvRegistry D = MergedRegistry merged"
    and r: "RefreshState D flt 3 (cold oa tables) = Inr st1" "ApplyDBOverridesToOAuth D flt 5 st1 = (None, st2)"
    and e: "EnsureSetupTokenAndPrint D fltT now rnd (cfg_TokenDisplay cfg') st2 = (display, st)"
    using O by (auto simp: start_onboarding_def with_providers_def Let_def split: sum.splits prod.splits option.splits boot_result.splits)
  have st1: "on_providers st1 = on_providers tables" using RefreshState_keeps [OF r(1)] by (simp add: cold_def)
  have keep: "on_providers st = on_providers st2" "client_id st pid = client_id st2 pid"
    using EnsureSetupTokenAndPrint_keeps [OF e] by (simp_all add: client_id_def)
  note A = apply_providers [OF r(2), unfolded st1, OF rows(1)]
  show "on_providers st = on_providers tables" using keep A(1) by simp
  have en: "\<forall>r. map_option toDBProviderRow (row_of (on_providers tables) pid) = Some r \<longrightarrow> row_Enabled r"
    using rows(2) by (auto simp: toDBProviderRow_def)
  have E': "map_of (MergedRegistry merged) pid = Some E"
    using MergedRegistry_spec [OF M', of pid E] env en E by (simp add: rows_by_id_row_of [OF rows(1)] effective_def)
  then show "map_of (od_EnvRegistry (bt_onboarding B)) pid = Some E" using reg \<open>D = bt_onboarding B\<close> by simp
  let ?row = "map_option toDBProviderRow (row_of (on_providers tables) pid)"
  let ?e = "Effective (mergeFields pid (Some E) ?row (wellKnownProviders pid))"
  have idem: "pr_ClientID ?e = pr_ClientID E" "pr_IssuerURL ?e = pr_IssuerURL E" "pr_ClaimStyle ?e = pr_ClaimStyle E"
    using E(2-4) by (auto simp: E(1) effective_def mergeFields_def Let_def envStr_def)
  have "pid \<in> fst ` set (MergedRegistry merged)" using map_of_SomeD [OF E'] by force
  moreover have "MergedEnabled (mergeFields pid (Some E) ?row (wellKnownProviders pid))"
    using en by (auto simp: MergedEnabled_def mergeFields_def Let_def split: option.splits)
  ultimately have "client_id st2 pid = Some (pr_ClientID ?e)"
    using A(2) [of pid] idem E(2-4) by (simp add: reg E' Let_def)
  then show "client_id st pid = Some (pr_ClientID E)" using keep(2) idem(1) by simp
qed

lemma Load_providers:
  assumes "Load L env f r d = (Inr cfg, d1)" "Load L env f' r' d' = (Inr cfg', d1')"
  shows "cfg_Providers cfg = cfg_Providers cfg'"
proof -
  obtain c s where "load_config L env = (c, [])" "cfg = set_secret s c" by (rule Load_InrE [OF assms(1)])
  moreover obtain c' s' where "load_config L env = (c', [])" "cfg' = set_secret s' c'" by (rule Load_InrE [OF assms(2)])
  ultimately show ?thesis by (simp add: set_secret_def)
qed

section \<open>Properties\<close>



section \<open>Examples\<close>

definition demo_world :: boot_world where
  "demo_world = \<lparr>bw_config = Config.demo_libs, bw_crypto = demo_crypto, bw_discovery = \<lambda>_ _ _. None, bw_libs = OAuth.demo_libs ''n'',
     bw_sha256 = \<lambda>_. replicate 32 (CHR ''h''),
     bw_env = [(''DB_URL'', ''d''), (''JWT_SECRET'', ''s''), (''DEPLOY_MODE'', ''k8s''), (''DB_MAX_CONNS'', ''8''),
       (''AUTH_PROVIDERS'', ''google''), (''AUTH_PROVIDER_GOOGLE_CLIENT_ID'', ''env''), (''AUTH_PROVIDER_GOOGLE_CLIENT_SECRET'', ''s''),
       (''AUTH_FRONTEND_RETURN_URL'', ''f''), (''AUTH_OAUTH_REDIRECT_BASE_URL'', ''r'')],
     bw_actor = \<lambda>_. Inr 3, bw_hasGrants = \<lambda>_. Inr False\<rparr>"

definition demo_row :: OidcProvider where
  "demo_row = \<lparr>op_ID = ''google'', op_DisplayName = None, op_IssuerUrl = None, op_ClientID = Some ''db'', op_ClientSecret = None,
     op_ClaimStyle = None, op_Scopes = None, op_Enabled = True\<rparr>"

definition demo_tables :: onb_state where
  "demo_tables = demo_onb\<lparr>on_providers := [demo_row]\<rparr>"

definition demo_boot :: "unit db \<Rightarrow> onb_state \<Rightarrow> (boot_exit, booted) result \<times> unit db \<times> onb_state" where
  "demo_boot d tables = boot demo_world (\<lambda>_. False) (\<lambda>_. False) (\<lambda>_. False) 0 None (replicate 32 (CHR ''x'')) d tables"

lemma demo_env_provider:
  "case fst (Load (bw_config demo_world) (bw_env demo_world) (\<lambda>_. False) None (empty_db ())) of Inl _ \<Rightarrow> False
   | Inr cfg \<Rightarrow> (case map_of (cfg_Providers cfg) ''google'' of None \<Rightarrow> False
      | Some p \<Rightarrow> pr_ClientID p = ''env'' \<and> pr_IssuerURL p \<noteq> [] \<and> pr_ClaimStyle p \<noteq> [])"
  by code_simp

lemma demo_runs:
  "case demo_boot (empty_db ()) demo_tables of (Inl _, _) \<Rightarrow> False
   | (Inr B, d1, st) \<Rightarrow>
       (case Revert \<lparr>pd_confirmer = bt_onboarding B, pd_RedirectBase = []\<rparr> (\<lambda>_. False) st (Some (Some True)) [] ''google'' of
          (ProvNoContent, st2) \<Rightarrow> is_ok (fst (demo_boot d1 st2)) | _ \<Rightarrow> False)"
  by code_simp

lemma demo_started:
  obtains B d1 st where "demo_boot (empty_db ()) demo_tables = (Inr B, d1, st)"
  using demo_runs by (auto split: prod.splits sum.splits)

lemma demo_session:
  obtains tok where "session demo_sign \<lparr>h_jwtSecret = [], h_signer = Some sg, h_issuer = iss, h_guiBase = g\<rparr> ua t = SessionResp tok ua"
  by (cases sg) (auto simp: session_def issueLocalJWT_def jwtSigner_def IssueLocalJWTWithSigner_def Signer_Sign_def demo_sign_def Let_def
      split: sum.splits)



end
