(* ===== verification/Spec2Isabelle.thy ===== *)
theory Spec2Isabelle
  imports StateSigner StepUp Jwt Password Claims Providers Database LocalAuth Resolver Authz UserAccounts OAuth Identities SshKeys
    Config ProviderAdmin Apps AccountRoutes Server Email Journeys Credentials Boot
begin

text \<open>
  A verification library for the user-management service of \<open>src/\<close>: a Go HTTP API over PostgreSQL
  that registers people, signs them in (password, e-mail code, external OIDC provider, guest),
  manages their credentials and their accounts, and configures its own identity providers.
  The Go sources are under \<open>src/api\<close> and \<open>src/model/db\<close>; paths below are relative to
  \<open>src/api/internal\<close> unless they start with \<open>src/\<close>.

  \<^bold>\<open>How the program is put together.\<close> At boot the configuration is loaded from the environment, the
  JWT secret is fetched from or put into the database, the OIDC providers of the environment and of
  the database are merged, and the onboarding verdict decides whether the service answers at all.
  A request then passes the gates (verdict, bearer token, verified address), of which the second turns
  a token into an account by way of the verifier, the claim mapper and the resolver. A handler
  validates the request, asks the authorizer, runs its statements in a transaction and answers.
  Credential changes ask for a step-up token besides.

  \<^bold>\<open>How it is modelled.\<close> A handler is a function from the database, the time and the request to the
  answer and the new database. The database is a record of tables, a table a list of rows, a query a
  function that yields a value or a constraint error. Go structs are records, errors and answers
  are constructors, an error return is a value of a sum type. Every statement that can fail takes
  a numbered entry of a fault assignment (\<open>faults\<close>), so each error path of each handler is
  covered for every combination of failing statements. What the code takes from elsewhere is a
  parameter: hash functions, HMAC, argon2, bcrypt, random numbers, the JWT, OIDC, OAuth2, SSH and SMTP
  libraries, and the core and authorization modules. A property names what it relies on of these as
  hypotheses, and its witness shows them satisfied. Times are nanoseconds (\<open>int\<close>), characters are bytes,
  ids are \<open>int\<close>, machine integers of the cryptographic parameters are words, and \<open>int64\<close> bounds are
  hypotheses or range checks where they matter.

  \<^bold>\<open>Foundations.\<close>
  \<^item> \<open>Prelude\<close>: results and Go's string functions. \<open>Encoding\<close>: hexadecimal and base64 with the locales
    \<open>codec\<close> and \<open>sep_codec\<close> (decoding inverts encoding; a separator never occurs in an encoding).
    \<open>Json\<close>: the printer and the parser of JSON, an instance of \<open>codec\<close>. \<open>Strconv\<close>: numbers in
    decimal. \<open>Transitions\<close>: the locales \<open>invariant_system\<close> (an invariant of a step relation holds in
    every reachable state) and \<open>put_once\<close> (a store in which a key is written once).
  \<^item> \<open>Database\<close> (\<open>src/model/db/*.sql.go\<close>, \<open>models.go\<close>, the constraints of the migrations): the tables and
    queries. \<open>db_ok\<close> collects unique, foreign-key and check constraints; every write keeps it.

  \<^bold>\<open>Tokens and secrets.\<close>
  \<^item> \<open>StateSigner\<close> (\<open>auth/oauth_state.go\<close>): the signed state of an OIDC sign-in.
  \<^item> \<open>StepUp\<close> (\<open>auth/stepup.go\<close>): step-up tokens and the map of used ones, with the concurrent runs of
    requests and of the janitor that prunes it as step relations: single use within the lifetime, and
    the execution in which a token is accepted twice at the very end of it.
  \<^item> \<open>Password\<close> (\<open>auth/password.go\<close>, \<open>auth/setup_token.go\<close>): argon2id hashes and the setup token.
  \<^item> \<open>Jwt\<close> (\<open>auth/jwt.go\<close>, \<open>signer.go\<close>, \<open>local_jwt.go\<close>, \<open>derived_keys.go\<close>):
    the session tokens, what the verifier accepts, and that no step-up token passes as a session.
  \<^item> \<open>Claims\<close> (\<open>auth/claims*.go\<close>): the eight claim mappers behind the locale \<open>claim_mapper\<close>.

  \<^bold>\<open>Signing in.\<close>
  \<^item> \<open>LocalAuth\<close> (\<open>handlers/auth/login.go\<close>, \<open>register.go\<close>, \<open>emailcode.go\<close>, \<open>reset.go\<close>): each handler, and
    the limits on guesses of an e-mail code under every interleaving of concurrent requests.
  \<^item> \<open>Resolver\<close> (\<open>auth/resolver.go\<close>, \<open>middleware.go\<close>, \<open>principal.go\<close>, \<open>anonymous_actor*.go\<close>,
    \<open>require_*.go\<close>): from a bearer token to an account, the automatic creation and linking of accounts,
    and the gates as functions that compose in the order of the server.
  \<^item> \<open>OAuth\<close> (\<open>auth/oauth.go\<close>, \<open>handlers/auth/oidc.go\<close>): the start and the callback of an OIDC sign-in.
  \<^item> \<open>Journeys\<close>: the components in sequence, from registration, mailed code or reset link to the gates,
    and concurrent registrations on an empty system. \<open>Credentials\<close>: from the mailed step-up code to a new password.

  \<^bold>\<open>Accounts and credentials.\<close>
  \<^item> \<open>Authz\<close> (\<open>authz/authz.go\<close>): the authorizer with its recursive queries, and the refinement of an
    abstract policy over reachability in the group graph.
  \<^item> \<open>UserAccounts\<close> (\<open>service/user_accounts.go\<close>, \<open>handlers/assume.go\<close>, \<open>handlers/auth/anonymous.go\<close>): the
    account operations over any provider of the locale \<open>authorizer\<close>, which \<open>Authz\<close> is.
  \<^item> \<open>Identities\<close> (\<open>handlers/identities.go\<close>, \<open>service/identities.go\<close>): a user's own sign-in methods; the
    step relation \<open>cred_step\<close> has all requests that change them.
  \<^item> \<open>SshKeys\<close> (\<open>sshkey/*.go\<close>, \<open>service/ssh_keys.go\<close>, \<open>service/ssh_key_resolver.go\<close>, \<open>handlers/ssh_keys.go\<close>).
  \<^item> \<open>AccountRoutes\<close> (\<open>handlers/user_accounts.go\<close>, \<open>handlers/self.go\<close>, list routes of
    \<open>handlers/ssh_keys.go\<close>, the grant closures of \<open>src/api/cmd/server/main.go\<close>, \<open>users/hooks.go\<close>) and
    \<open>Apps\<close> (\<open>handlers/apps.go\<close>, a refinement of a finite map through the locale \<open>member_store\<close>).

  \<^bold>\<open>Configuration and boot.\<close>
  \<^item> \<open>Config\<close> (\<open>config/config.go\<close>, \<open>jwt_signing.go\<close>, \<open>jwtsecret_bootstrap.go\<close>): what loads is well formed;
    concurrent boots agree on one secret.
  \<^item> \<open>Providers\<close> (\<open>config/providers.go\<close>, \<open>provider_merge.go\<close>, \<open>oidc_state.go\<close>, \<open>cookie_path.go\<close>),
    \<open>Onboarding\<close> (\<open>handlers/oidc_config.go\<close>, \<open>src/api/handlers/onboarding_boot.go\<close>) and \<open>ProviderAdmin\<close>
    (\<open>handlers/oidc_providers.go\<close>): the merge of the two sources, the verdict, the setup token, and the
    routes that change them.
  \<^item> \<open>Boot\<close> (\<open>src/api/cmd/server/main.go\<close>): the start from the environment and the tables to the running
    components, or the exit; a started server accepts the tokens it signs, and what a restart does to an
    overridden provider.
  \<^item> \<open>Server\<close> (\<open>server/server.go\<close>, the route registrars, \<open>src/moduleforge.module.yaml\<close>): the cross-origin
    policy and which gates stand before which route.
  \<^item> \<open>Email\<close> (\<open>email/sender.go\<close>): the message, the dialogue with the relay, the errors.

  \<^bold>\<open>Termination.\<close> All definitions are total. Fuel occurs only in the parser of JSON, and the length of
  the text is enough of it: what was printed is parsed back. The recursive queries of the authorizer
  end because each round adds a group and there are finitely many; the string loops
  (\<open>Split\<close>, \<open>ReplaceAll\<close>, \<open>LIKE\<close> patterns) end because the rest gets shorter.

  \<^bold>\<open>Atomicity.\<close> A handler that runs one transaction is one step, and so is a statement outside of
  a transaction. Where requests interleave in a way that matters the statements are separate steps of
  a relation: the step-up map, the e-mail codes, the boots, the counting of accounts before a
  registration. Elsewhere a handler is one step, as if requests were serial.

  \<^bold>\<open>Not modelled.\<close> Pure input and output and its helpers: logging, tracing (\<open>observability\<close>), the request
  middleware (\<open>server/middleware.go\<close>), writing and decoding of bodies (\<open>server/respond.go\<close>), the
  health routes, the connection pool, the migration runner, the banner of the setup token. The facade packages under
  \<open>src/api\<close> that re-export names (\<open>auth\<close>, \<open>handlers\<close>, \<open>config\<close>, \<open>usersservice\<close>, \<open>localAuthz\<close>,
  \<open>localdb\<close>, \<open>email\<close>, \<open>server\<close>, \<open>users\<close>), constructors that fill a struct, the construction of other modules' services
  and the shutdown in \<open>main\<close>. Response times: the fixed delays that hide whether an address is known have no place in a model of
  results, only the equality of the answers is stated. The front end under \<open>src/gui\<close> is not Go.
\<close>

end
